theory Spec2Isabelle
  imports Complex_Main "HOL-Library.AList" "HOL-Library.Word"
begin

section \<open>JavaScript strings\<close>

text \<open>
  A JavaScript string is modelled as a \<^typ>\<open>string\<close>, one \<^typ>\<open>char\<close> per code unit; the
  model therefore covers the strings whose code units are below 256. \<open>splitOn\<close> is
  \<^verbatim>\<open>String.prototype.split\<close> with a one-character separator and \<open>joinWith\<close> is
  \<^verbatim>\<open>Array.prototype.join\<close>.
\<close>

fun splitOn :: "char \<Rightarrow> string \<Rightarrow> string list" where
  "splitOn c [] = [[]]"
| "splitOn c (x # xs) =
     (if x = c then [] # splitOn c xs
      else (case splitOn c xs of [] \<Rightarrow> [[x]] | s # ss \<Rightarrow> (x # s) # ss))"

fun joinWith :: "string \<Rightarrow> string list \<Rightarrow> string" where
  "joinWith sep [] = []"
| "joinWith sep [s] = s"
| "joinWith sep (s # t # ss) = s @ sep @ joinWith sep (t # ss)"

section \<open>The POSIX \<^verbatim>\<open>path\<close> module of Node.js\<close>

text \<open>
  \<^verbatim>\<open>DownloadController.ts\<close> calls \<^verbatim>\<open>path.resolve\<close>, \<^verbatim>\<open>path.join\<close> and \<^verbatim>\<open>path.dirname\<close>.
  They are modelled after the POSIX implementation of the Node.js library.
  \<open>normalizeString\<close> walks the segments between slashes with a stack: an empty segment
  and \<^verbatim>\<open>.\<close> are dropped, \<^verbatim>\<open>..\<close> removes the segment before it (or is kept, for a relative
  path that climbs above its start), every other segment is pushed.
\<close>

definition normalizeStep :: "bool \<Rightarrow> string list \<Rightarrow> string \<Rightarrow> string list" where
  "normalizeStep allowAboveRoot res seg =
     (if seg = [] \<or> seg = ''.'' then res
      else if seg = ''..'' then
        (if res \<noteq> [] \<and> last res \<noteq> ''..'' then butlast res
         else if allowAboveRoot then res @ [''..'']
         else res)
      else res @ [seg])"

definition normalizeString :: "string \<Rightarrow> bool \<Rightarrow> string" where
  "normalizeString path allowAboveRoot =
     joinWith ''/'' (foldl (normalizeStep allowAboveRoot) [] (splitOn CHR ''/'' path))"

definition path_isAbsolute :: "string \<Rightarrow> bool" where
  "path_isAbsolute path = (path \<noteq> [] \<and> hd path = CHR ''/'')"

definition path_normalize :: "string \<Rightarrow> string" where
  "path_normalize path =
     (if path = [] then ''.''
      else let isAbsolute = (hd path = CHR ''/'');
               trailingSeparator = (last path = CHR ''/'');
               p = normalizeString path (\<not> isAbsolute)
           in if p = []
              then (if isAbsolute then ''/'' else if trailingSeparator then ''./'' else ''.'')
              else let q = (if trailingSeparator then p @ ''/'' else p)
                   in if isAbsolute then ''/'' @ q else q)"

definition path_join :: "string list \<Rightarrow> string" where
  "path_join args =
     (let parts = filter (\<lambda>arg. arg \<noteq> []) args
      in if parts = [] then ''.'' else path_normalize (joinWith ''/'' parts))"

text \<open>
  \<^verbatim>\<open>path.resolve(path)\<close> with one argument; \<open>wd\<close> is what \<^verbatim>\<open>process.cwd()\<close> returns, and
  is read only when \<open>path\<close> is not absolute.
\<close>

definition path_resolve :: "string \<Rightarrow> string \<Rightarrow> string" where
  "path_resolve wd path =
     (let r1 = (if path = [] then [] else path @ ''/'');
          a1 = path_isAbsolute path;
          r2 = (if a1 \<or> wd = [] then r1 else wd @ ''/'' @ r1);
          a2 = (if a1 \<or> wd = [] then a1 else hd wd = CHR ''/'');
          p = normalizeString r2 (\<not> a2)
      in if a2 then ''/'' @ p else if p \<noteq> [] then p else ''.'')"

text \<open>
  \<^verbatim>\<open>path.dirname\<close> scans the string from its last index down to index 1 for the first
  slash that follows a character other than a slash.
\<close>

fun dirnameScan :: "string \<Rightarrow> nat \<Rightarrow> bool \<Rightarrow> nat option" where
  "dirnameScan path 0 matchedSlash = None"
| "dirnameScan path (Suc i) matchedSlash =
     (if path ! Suc i = CHR ''/''
      then (if \<not> matchedSlash then Some (Suc i) else dirnameScan path i matchedSlash)
      else dirnameScan path i False)"

definition path_dirname :: "string \<Rightarrow> string" where
  "path_dirname path =
     (if path = [] then ''.''
      else let hasRoot = (hd path = CHR ''/'')
           in case dirnameScan path (length path - 1) True of
                None \<Rightarrow> (if hasRoot then ''/'' else ''.'')
              | Some e \<Rightarrow> (if hasRoot \<and> e = 1 then ''//'' else take e path))"

section \<open>Configuration (\<^verbatim>\<open>config/main.ts\<close>)\<close>

text \<open>
  What the process finds around it: the application root reported by \<^verbatim>\<open>app-root-path\<close>,
  the \<^verbatim>\<open>UPLOADFOLDER\<close> environment variable, the working directory, the path of the
  PhantomJS binary and the style sheet that the controller's constructor reads
  (\<^verbatim>\<open>null\<close> when reading it failed).
\<close>

record environment =
  appRoot :: string
  envUPLOADFOLDER :: "string option"
  cwd :: string
  binPath :: string
  markdownCss :: "string option"

record config =
  timeToLiveCacheValue :: nat
  tmpFileCacheFolder :: string
  maxFileSize :: rat
  maxZipSize :: rat
  uploadFolder :: string

definition config :: "environment \<Rightarrow> config" where
  "config env =
     \<lparr> timeToLiveCacheValue = 3600,
       tmpFileCacheFolder = appRoot env @ ''/tmp/'',
       maxFileSize = 51200,
       maxZipSize = 204800,
       uploadFolder =
         (case envUPLOADFOLDER env of
            None \<Rightarrow> appRoot env @ ''/uploads/''
          | Some v \<Rightarrow> if v = [] then appRoot env @ ''/uploads/'' else v) \<rparr>"

section \<open>Errors, archives and the file system\<close>

text \<open>
  The errors of \<^verbatim>\<open>routing-controllers\<close> that the controllers throw; \<open>TypeError\<close> is the
  JavaScript error of reading a property of \<^verbatim>\<open>null\<close>, \<open>RendererError\<close> the rejection of
  the HTML-to-PDF renderer and \<open>SystemError\<close> a failing file-system call.
\<close>

datatype httpError =
    BadRequestError
  | ForbiddenError
  | NotFoundError
  | TypeError
  | RendererError
  | SystemError

text \<open>The \<^verbatim>\<open>CreateOptions\<close> of \<^verbatim>\<open>html-pdf\<close>, with the fields the controller sets.\<close>

record createOptions =
  phantomPath :: string
  format :: string
  border :: "(string \<times> string) list"
  footerDefault :: string
  header :: "(string \<times> string) option"

text \<open>
  An entry of the archive: \<^verbatim>\<open>archive.file(source, {name})\<close> adds the file at \<open>source\<close>
  as it is, \<^verbatim>\<open>archive.append(buffer, {name})\<close> adds a buffer.
\<close>

type_synonym buffer = string

datatype archiveEntry =
    ArchiveFile string string
  | ArchiveAppend buffer string

text \<open>
  The file system holds files and folders under their resolved absolute paths, as an
  association list read with \<^const>\<open>map_of\<close>; its order is the order in which a folder
  is listed. A node has the \<^verbatim>\<open>ctimeMs\<close> and the \<^verbatim>\<open>isDirectory()\<close> of its \<^verbatim>\<open>fs.Stats\<close> and,
  when it is an archive, the entries written to it. Every call of the \<^verbatim>\<open>fs\<close> module is
  recorded in \<open>events\<close>, together with the lookups in the database.
\<close>

record fsfile =
  ctimeMs :: int
  isDirectory :: bool
  entries :: "archiveEntry list"

datatype jsval = JNum int | JStr string

datatype event =
    ReaddirSync string
  | StatSync string
  | UnlinkSync string
  | ExistsSync string
  | CreateWriteStream string
  | ResponseDownload string
  | CourseFind string
  | LectureFind string
  | UnitFind string
  | FileFind jsval
  | ProgressFind string string
  | PdfCreate string

record world =
  fs :: "(string \<times> fsfile) list"
  events :: "event list"

definition logEvent :: "event \<Rightarrow> world \<Rightarrow> world" where
  "logEvent e w = w\<lparr>events := events w @ [e]\<rparr>"

text \<open>
  A path lies directly inside a folder when it is the folder, a slash and one
  segment that is a file name: not empty, without a slash, neither \<^verbatim>\<open>.\<close> nor \<^verbatim>\<open>..\<close>.
\<close>

definition isFileName :: "string \<Rightarrow> bool" where
  "isFileName s = (s \<noteq> [] \<and> s \<noteq> ''.'' \<and> s \<noteq> ''..'' \<and> CHR ''/'' \<notin> set s)"

definition folderPrefix :: "string \<Rightarrow> string" where
  "folderPrefix folder = (if folder = ''/'' then folder else folder @ ''/'')"

definition liesDirectlyInside :: "string \<Rightarrow> string \<Rightarrow> bool" where
  "liesDirectlyInside folder p =
     (take (length (folderPrefix folder)) p = folderPrefix folder \<and>
      isFileName (drop (length (folderPrefix folder)) p))"

definition isFolder :: "world \<Rightarrow> string \<Rightarrow> bool" where
  "isFolder w p = (case map_of (fs w) p of None \<Rightarrow> False | Some f \<Rightarrow> isDirectory f)"

text \<open>
  \<^verbatim>\<open>existsSync\<close> and \<^verbatim>\<open>statSync\<close> do not tell a folder from a file. \<^verbatim>\<open>readdirSync\<close> throws
  when its path is not a folder, and returns the names of the files and of the folders
  directly inside it, in the order of the file system. \<^verbatim>\<open>unlinkSync\<close> removes a file and
  throws for a folder and for a path at which there is nothing.
\<close>

definition existsSync :: "environment \<Rightarrow> string \<Rightarrow> world \<Rightarrow> bool \<times> world" where
  "existsSync env p w =
     (map_of (fs w) (path_resolve (cwd env) p) \<noteq> None, logEvent (ExistsSync p) w)"

definition readdirSync ::
  "environment \<Rightarrow> string \<Rightarrow> world \<Rightarrow> (httpError + string list) \<times> world" where
  "readdirSync env dir w =
     (let d = path_resolve (cwd env) dir
      in if \<not> isFolder w d then (Inl SystemError, logEvent (ReaddirSync dir) w)
         else (Inr (remdups (map (\<lambda>p. drop (length (folderPrefix d)) p)
                              (filter (liesDirectlyInside d) (map fst (fs w))))),
               logEvent (ReaddirSync dir) w))"

definition statSync :: "environment \<Rightarrow> string \<Rightarrow> world \<Rightarrow> fsfile option \<times> world" where
  "statSync env p w = (map_of (fs w) (path_resolve (cwd env) p), logEvent (StatSync p) w)"

definition unlinkSync ::
  "environment \<Rightarrow> string \<Rightarrow> world \<Rightarrow> (httpError + unit) \<times> world" where
  "unlinkSync env p w =
     (case map_of (fs w) (path_resolve (cwd env) p) of
        None \<Rightarrow> (Inl SystemError, logEvent (UnlinkSync p) w)
      | Some f \<Rightarrow>
          if isDirectory f then (Inl SystemError, logEvent (UnlinkSync p) w)
          else (Inr (),
                logEvent (UnlinkSync p) (w\<lparr>fs := AList.delete (path_resolve (cwd env) p) (fs w)\<rparr>)))"

text \<open>
  \<^verbatim>\<open>createWriteStream\<close> creates the file, or empties the file that is there. It cannot open
  the file when the folder of the path is not there or when the path is a folder: the
  stream then emits an \<^verbatim>\<open>error\<close> event, for which the endpoints have no listener, and is
  never closed, so that the request is not answered with a hash. The model ends the
  request at this point.
\<close>

definition createWriteStream ::
  "environment \<Rightarrow> int \<Rightarrow> string \<Rightarrow> world \<Rightarrow> (httpError + unit) \<times> world" where
  "createWriteStream env now p w =
     (let q = path_resolve (cwd env) p
      in if \<not> isFolder w (path_dirname q) \<or> isFolder w q
         then (Inl SystemError, logEvent (CreateWriteStream p) w)
         else (Inr (),
               logEvent (CreateWriteStream p)
                 (w\<lparr>fs := AList.update q \<lparr>ctimeMs = now, isDirectory = False, entries = []\<rparr> (fs w)\<rparr>)))"

definition writeArchive :: "environment \<Rightarrow> string \<Rightarrow> archiveEntry list \<Rightarrow> world \<Rightarrow> world" where
  "writeArchive env p es w =
     (case map_of (fs w) (path_resolve (cwd env) p) of
        None \<Rightarrow> w
      | Some f \<Rightarrow> w\<lparr>fs := AList.update (path_resolve (cwd env) p) (f\<lparr>entries := es\<rparr>) (fs w)\<rparr>)"

section \<open>\<^verbatim>\<open>DownloadController\<close>: the cache\<close>

subsection \<open>\<^verbatim>\<open>cleanupCache\<close>\<close>

text \<open>
  \<^verbatim>\<open>/download_(\w+).zip/.test(fileName)\<close>: the expression is not anchored, \<^verbatim>\<open>\w\<close> is a
  letter, a digit or the underscore, and the dot matches every character but a line
  terminator. \<open>matchRest\<close> is the expression after the first \<^verbatim>\<open>\w\<close>: more of them, then
  the dot and \<^verbatim>\<open>zip\<close>.
\<close>

definition asciiLetters :: string where
  "asciiLetters = ''abcdefghijklmnopqrstuvwxyzABCDEFGHIJKLMNOPQRSTUVWXYZ''"

definition asciiDigits :: string where
  "asciiDigits = ''0123456789''"

definition isWordChar :: "char \<Rightarrow> bool" where
  "isWordChar c = (c \<in> set asciiLetters \<or> c \<in> set asciiDigits \<or> c = CHR ''_'')"

definition isLineTerminator :: "char \<Rightarrow> bool" where
  "isLineTerminator c = (c = CHR 0x0A \<or> c = CHR 0x0D)"

fun matchDotZip :: "string \<Rightarrow> bool" where
  "matchDotZip (c # z # i # p # rest) =
     (\<not> isLineTerminator c \<and> z = CHR ''z'' \<and> i = CHR ''i'' \<and> p = CHR ''p'')"
| "matchDotZip _ = False"

fun matchRest :: "string \<Rightarrow> bool" where
  "matchRest [] = False"
| "matchRest (c # cs) = (matchDotZip (c # cs) \<or> (isWordChar c \<and> matchRest cs))"

definition matchHere :: "string \<Rightarrow> bool" where
  "matchHere s =
     (take 9 s = ''download_'' \<and>
      (case drop 9 s of [] \<Rightarrow> False | c # cs \<Rightarrow> isWordChar c \<and> matchRest cs))"

fun regexTest :: "string \<Rightarrow> bool" where
  "regexTest [] = False"
| "regexTest (c # cs) = (matchHere (c # cs) \<or> regexTest cs)"

text \<open>
  The loop of \<^verbatim>\<open>cleanupCache\<close> over the names that \<^verbatim>\<open>readdirSync\<close> returned. \<^verbatim>\<open>statSync\<close>
  throws for a name that is no longer there and \<^verbatim>\<open>unlinkSync\<close> for a folder; nothing
  catches the exception, which ends the loop.
\<close>

fun cleanupLoop ::
  "environment \<Rightarrow> int \<Rightarrow> string list \<Rightarrow> world \<Rightarrow> (httpError + unit) \<times> world" where
  "cleanupLoop env expire [] w = (Inr (), w)"
| "cleanupLoop env expire (fileName # files) w =
     (if \<not> regexTest fileName then cleanupLoop env expire files w
      else let filePath = path_join [tmpFileCacheFolder (config env), fileName]
           in case statSync env filePath w of
                (None, w1) \<Rightarrow> (Inl SystemError, w1)
              | (Some fileStat, w1) \<Rightarrow>
                  if ctimeMs fileStat \<ge> expire then cleanupLoop env expire files w1
                  else (case unlinkSync env filePath w1 of
                          (Inl e, w2) \<Rightarrow> (Inl e, w2)
                        | (Inr removed, w2) \<Rightarrow> cleanupLoop env expire files w2))"

definition cleanupCache :: "environment \<Rightarrow> int \<Rightarrow> world \<Rightarrow> (httpError + unit) \<times> world" where
  "cleanupCache env now w =
     (let expire = now - 3600 * 1000
      in case readdirSync env (tmpFileCacheFolder (config env)) w of
           (Inl e, w1) \<Rightarrow> (Inl e, w1)
         | (Inr files, w1) \<Rightarrow> cleanupLoop env expire files w1)"

subsection \<open>\<^verbatim>\<open>getArchivedFile\<close>\<close>

text \<open>
  \<^verbatim>\<open>response.download(filePath)\<close> sends the file at the path; it fails when there is none
  and when the path is a folder.
  The response of a served download is the path and the file sent.
\<close>

definition responseDownload ::
  "environment \<Rightarrow> string \<Rightarrow> world \<Rightarrow> (httpError + string \<times> fsfile) \<times> world" where
  "responseDownload env p w =
     (case map_of (fs w) (path_resolve (cwd env) p) of
        None \<Rightarrow> (Inl SystemError, logEvent (ResponseDownload p) w)
      | Some f \<Rightarrow>
          if isDirectory f then (Inl SystemError, logEvent (ResponseDownload p) w)
          else (Inr (p, f), logEvent (ResponseDownload p) w))"

definition getArchivedFile ::
  "environment \<Rightarrow> string \<Rightarrow> world \<Rightarrow> (httpError + string \<times> fsfile) \<times> world" where
  "getArchivedFile env ident w =
     (let tmpFolder = path_resolve (cwd env) (tmpFileCacheFolder (config env));
          filePath = path_join [tmpFolder, ''download_'' @ ident @ ''.zip'']
      in if path_dirname filePath \<noteq> tmpFolder then (Inl ForbiddenError, w)
         else case existsSync env filePath w of
                (False, w1) \<Rightarrow> (Inl NotFoundError, w1)
              | (True, w1) \<Rightarrow> responseDownload env filePath w1)"

section \<open>The database\<close>

text \<open>
  The documents of the collections that the controllers read, with the fields they use.
  The three \<^verbatim>\<open>toHtml...\<close> methods of a unit are methods of the unit models; their results
  are carried by the unit document. \<open>unit_t\<close> is the discriminator \<^verbatim>\<open>__t\<close>, \<open>deadline\<close> a
  time in milliseconds.
\<close>

record userDoc =
  user_id :: string
  role :: string

record courseDoc =
  course_id :: string
  course_name :: string
  courseAdmin :: string
  students :: "string list"
  teachers :: "string list"

record lectureDoc =
  lecture_name :: string

record fileDoc =
  file_name :: string
  file_link :: string
  file_size :: int

record unitDoc =
  unit_t :: string
  unit_name :: string
  unit_files :: "fileDoc list"
  unit_course :: string
  deadline :: "int option"
  toHtmlForIndividualPDF :: string
  toHtmlForSinglePDF :: string
  toHtmlForSinglePDFSolutions :: string

record database =
  Course :: "string \<rightharpoonup> courseDoc"
  Lecture :: "string \<rightharpoonup> lectureDoc"
  Unit :: "string \<rightharpoonup> unitDoc"
  File :: "jsval \<rightharpoonup> fileDoc"

definition Course_findOne :: "database \<Rightarrow> string \<Rightarrow> world \<Rightarrow> courseDoc option \<times> world" where
  "Course_findOne db ident w = (Course db ident, logEvent (CourseFind ident) w)"

definition Lecture_findOne :: "database \<Rightarrow> string \<Rightarrow> world \<Rightarrow> lectureDoc option \<times> world" where
  "Lecture_findOne db ident w = (Lecture db ident, logEvent (LectureFind ident) w)"

definition Unit_findOne :: "database \<Rightarrow> string \<Rightarrow> world \<Rightarrow> unitDoc option \<times> world" where
  "Unit_findOne db ident w = (Unit db ident, logEvent (UnitFind ident) w)"

definition File_findById :: "database \<Rightarrow> jsval \<Rightarrow> world \<Rightarrow> fileDoc option \<times> world" where
  "File_findById db ident w = (File db ident, logEvent (FileFind ident) w)"

text \<open>
  The request body \<^verbatim>\<open>IDownload\<close>. The elements of \<open>files\<close> are JSON values: \<^verbatim>\<open>calcPackage\<close>
  compares them with the indices of a unit's files, the two endpoints pass them to
  \<^verbatim>\<open>File.findById\<close>.
\<close>

record downloadUnit =
  unitId :: string
  files :: "jsval list"

record downloadLecture =
  lectureId :: string
  units :: "downloadUnit list"

record download =
  courseName :: string
  lectures :: "downloadLecture list"

section \<open>\<^verbatim>\<open>DownloadController\<close>: building the archives\<close>

subsection \<open>Numbers and names\<close>

text \<open>A counter in a string concatenation: the decimal digits of a natural number.\<close>

function natToString :: "nat \<Rightarrow> string" where
  "natToString n =
     (if n < 10 then [''0123456789'' ! n]
      else natToString (n div 10) @ [''0123456789'' ! (n mod 10)])"
  by pat_completeness auto
termination
  by (relation "measure id") auto

text \<open>A string that may be \<^verbatim>\<open>null\<close>, in a string concatenation.\<close>

definition jsString :: "string option \<Rightarrow> string" where
  "jsString v = (case v of None \<Rightarrow> ''null'' | Some s \<Rightarrow> s)"

text \<open>
  \<^verbatim>\<open>replaceCharInFilename\<close>: remove every character that is not a letter, a digit, a
  space or a dash; turn spaces into dashes; collapse a run of dashes into one dash.
\<close>

fun collapseDashes :: "string \<Rightarrow> string" where
  "collapseDashes [] = []"
| "collapseDashes [c] = [c]"
| "collapseDashes (c # d # cs) =
     (if c = CHR ''-'' \<and> d = CHR ''-'' then collapseDashes (d # cs)
      else c # collapseDashes (d # cs))"

definition replaceCharInFilename :: "string \<Rightarrow> string" where
  "replaceCharInFilename filename =
     collapseDashes
       (map (\<lambda>c. if c = CHR '' '' then CHR ''-'' else c)
          (filter (\<lambda>c. c \<in> set asciiLetters \<or> c \<in> set asciiDigits \<or> c = CHR '' '' \<or> c = CHR ''-'')
             filename))"

subsection \<open>\<^verbatim>\<open>calcPackage\<close>\<close>

text \<open>
  Sizes are JavaScript numbers. A file size is a whole number of bytes and the division
  by 1024 and the sums of such quotients are exact in double precision below \<open>2 ^ 43\<close>, so
  they are modelled as rationals.
\<close>

record packageSize =
  totalSize :: rat
  tooLargeFiles :: "string list"

text \<open>The callback of \<^verbatim>\<open>fileUnit.files.forEach((file, index) => ...)\<close>, run over the indexed files.\<close>

fun calcFiles :: "config \<Rightarrow> jsval list \<Rightarrow> (nat \<times> fileDoc) list \<Rightarrow> packageSize \<Rightarrow> packageSize" where
  "calcFiles cfg selected [] acc = acc"
| "calcFiles cfg selected ((index, file) # rest) acc =
     calcFiles cfg selected rest
       (if JNum (int index) \<in> set selected
        then \<lparr> totalSize = totalSize acc + of_int (file_size file) / 1024,
               tooLargeFiles =
                 (if of_int (file_size file) / 1024 > maxFileSize cfg
                  then tooLargeFiles acc @ [file_link file]
                  else tooLargeFiles acc) \<rparr>
        else acc)"

fun calcUnits ::
  "config \<Rightarrow> database \<Rightarrow> downloadUnit list \<Rightarrow> packageSize \<Rightarrow> world
     \<Rightarrow> (httpError + packageSize) \<times> world" where
  "calcUnits cfg db [] acc w = (Inr acc, w)"
| "calcUnits cfg db (unit # rest) acc w =
     (case Unit_findOne db (unitId unit) w of
        (None, w1) \<Rightarrow> (Inl NotFoundError, w1)
      | (Some localUnit, w1) \<Rightarrow>
          calcUnits cfg db rest
            (if unit_t localUnit = ''file''
             then calcFiles cfg (files unit) (enumerate 0 (unit_files localUnit)) acc
             else acc)
            w1)"

fun calcLectures ::
  "config \<Rightarrow> database \<Rightarrow> downloadLecture list \<Rightarrow> packageSize \<Rightarrow> world
     \<Rightarrow> (httpError + packageSize) \<times> world" where
  "calcLectures cfg db [] acc w = (Inr acc, w)"
| "calcLectures cfg db (lec # rest) acc w =
     (case calcUnits cfg db (units lec) acc w of
        (Inl e, w1) \<Rightarrow> (Inl e, w1)
      | (Inr acc1, w1) \<Rightarrow> calcLectures cfg db rest acc1 w1)"

definition calcPackage ::
  "environment \<Rightarrow> database \<Rightarrow> download \<Rightarrow> world \<Rightarrow> (httpError + packageSize) \<times> world" where
  "calcPackage env db pack w =
     calcLectures (config env) db (lectures pack) \<lparr>totalSize = 0, tooLargeFiles = []\<rparr> w"

subsection \<open>\<^verbatim>\<open>createFileHash\<close>\<close>

text \<open>
  \<^verbatim>\<open>crypto.randomBytes(n)\<close> takes \<open>n\<close> bytes from the random source of the system, here a
  supply \<open>entropy\<close> of bytes; \<^verbatim>\<open>toString('hex')\<close> writes two lower-case digits for a byte.
\<close>

definition randomBytes :: "nat \<Rightarrow> (nat \<Rightarrow> 8 word) \<Rightarrow> 8 word list" where
  "randomBytes n entropy = map entropy [0..<n]"

definition hexDigits :: string where
  "hexDigits = ''0123456789abcdef''"

definition toStringHex :: "8 word list \<Rightarrow> string" where
  "toStringHex bytes =
     concat (map (\<lambda>b. [hexDigits ! (unat b div 16), hexDigits ! (unat b mod 16)]) bytes)"

definition createFileHash :: "(nat \<Rightarrow> 8 word) \<Rightarrow> string" where
  "createFileHash entropy = toStringHex (randomBytes 16 entropy)"

subsection \<open>\<^verbatim>\<open>userCanExportCourse\<close> and \<^verbatim>\<open>createPdf\<close>\<close>

definition userCanExportCourse :: "courseDoc \<Rightarrow> userDoc \<Rightarrow> httpError + bool" where
  "userCanExportCourse course user =
     (if role user = ''admin'' then Inr True
      else if user_id user = courseAdmin course then Inr True
      else if user_id user \<in> set (students course) then Inr True
      else if user_id user \<in> set (teachers course) then Inr True
      else Inl ForbiddenError)"

text \<open>
  The HTML-to-PDF renderer is outside the program: \<open>pdf html options\<close> is the buffer that
  \<^verbatim>\<open>pdf.create(html, options).toBuffer\<close> delivers, or \<open>None\<close> when it reports an error.
  The event of a call records the HTML given to the renderer.
\<close>

type_synonym renderer = "string \<Rightarrow> createOptions \<Rightarrow> buffer option"

definition createPdf ::
  "renderer \<Rightarrow> string \<Rightarrow> createOptions \<Rightarrow> world \<Rightarrow> (httpError + buffer) \<times> world" where
  "createPdf pdf html options w =
     (case pdf html options of
        None \<Rightarrow> (Inl RendererError, logEvent (PdfCreate html) w)
      | Some buffer \<Rightarrow> (Inr buffer, logEvent (PdfCreate html) w))"

subsection \<open>\<^verbatim>\<open>postDownloadRequestPDFIndividual\<close>\<close>

definition individualOptions :: "environment \<Rightarrow> createOptions" where
  "individualOptions env =
     \<lparr> phantomPath = binPath env,
       format = ''A4'',
       border = [(''left'', ''1cm''), (''right'', ''1cm'')],
       footerDefault = ''<div id=\"pageFooter\">{{page}}/{{pages}}</div>'',
       header = None \<rparr>"

definition individualHead :: "environment \<Rightarrow> string" where
  "individualHead env =
     ''<!DOCTYPE html>'' @
     [CHR 0x0A] @
     ''<html>'' @
     [CHR 0x0A] @
     ''  <head>'' @
     ''     <style>'' @
     ''       #pageHeader {text-align: center;border-bottom: 1px solid;padding-bottom: 5px;}'' @
     ''       #pageFooter {text-align: center;border-top: 1px solid;padding-top: 5px;}'' @
     ''       html,body {font-family: 'Helvetica', 'Arial', sans-serif; font-size: 12px; line-height: 1.5;}'' @
     ''       .codeBox {border: 1px solid grey; font-family: Monaco,Menlo,source-code-pro,monospace; padding: 10px}'' @
     ''       #firstPage {page-break-after: always;}'' @
     ''       .bottomBoxWrapper {height:800px; position: relative}'' @
     ''       .bottomBox {position: absolute; bottom: 0;}'' @
     jsString (markdownCss env) @
     ''     </style>'' @
     ''  </head>''"

text \<open>
  The name of an archive entry: lecture counter, sanitised lecture name, unit counter and
  the last part of the name.
\<close>

definition entryName :: "nat \<Rightarrow> string \<Rightarrow> nat \<Rightarrow> string \<Rightarrow> string" where
  "entryName lecCounter lcName unitCounter rest =
     natToString lecCounter @ ''_'' @ lcName @ ''/'' @ natToString unitCounter @ ''_'' @ rest"

text \<open>\<^verbatim>\<open>for (const fileId of unit.files)\<close>; reading \<^verbatim>\<open>file.link\<close> of a file that is not found throws.\<close>

fun individualFiles ::
  "database \<Rightarrow> nat \<Rightarrow> string \<Rightarrow> nat \<Rightarrow> jsval list \<Rightarrow> archiveEntry list \<Rightarrow> world
     \<Rightarrow> (httpError + archiveEntry list) \<times> world" where
  "individualFiles db lecCounter lcName unitCounter [] archive w = (Inr archive, w)"
| "individualFiles db lecCounter lcName unitCounter (fileId # rest) archive w =
     (case File_findById db fileId w of
        (None, w1) \<Rightarrow> (Inl TypeError, w1)
      | (Some file, w1) \<Rightarrow>
          individualFiles db lecCounter lcName unitCounter rest
            (archive @ [ArchiveFile (''uploads/'' @ file_link file)
                          (entryName lecCounter lcName unitCounter (file_name file))])
            w1)"

fun individualUnits ::
  "environment \<Rightarrow> database \<Rightarrow> renderer \<Rightarrow> nat \<Rightarrow> string \<Rightarrow> downloadUnit list \<Rightarrow> nat
     \<Rightarrow> archiveEntry list \<Rightarrow> world \<Rightarrow> (httpError + archiveEntry list) \<times> world" where
  "individualUnits env db pdf lecCounter lcName [] unitCounter archive w = (Inr archive, w)"
| "individualUnits env db pdf lecCounter lcName (unit # rest) unitCounter archive w =
     (case Unit_findOne db (unitId unit) w of
        (None, w1) \<Rightarrow> (Inl NotFoundError, w1)
      | (Some localUnit, w1) \<Rightarrow>
          if unit_t localUnit = ''file''
          then (case individualFiles db lecCounter lcName unitCounter (files unit) archive w1 of
                  (Inl e, w2) \<Rightarrow> (Inl e, w2)
                | (Inr archive2, w2) \<Rightarrow>
                    individualUnits env db pdf lecCounter lcName rest (unitCounter + 1) archive2 w2)
          else let html = individualHead env @ toHtmlForIndividualPDF localUnit @ ''</html>'';
                   name = entryName lecCounter lcName unitCounter
                            (replaceCharInFilename (unit_name localUnit) @ ''.pdf'')
               in case createPdf pdf html (individualOptions env) w1 of
                    (Inl e, w2) \<Rightarrow> (Inl e, w2)
                  | (Inr buffer, w2) \<Rightarrow>
                      individualUnits env db pdf lecCounter lcName rest (unitCounter + 1)
                        (archive @ [ArchiveAppend buffer name]) w2)"

fun individualLectures ::
  "environment \<Rightarrow> database \<Rightarrow> renderer \<Rightarrow> downloadLecture list \<Rightarrow> nat
     \<Rightarrow> archiveEntry list \<Rightarrow> world \<Rightarrow> (httpError + archiveEntry list) \<times> world" where
  "individualLectures env db pdf [] lecCounter archive w = (Inr archive, w)"
| "individualLectures env db pdf (lec # rest) lecCounter archive w =
     (case Lecture_findOne db (lectureId lec) w of
        (None, w1) \<Rightarrow> (Inl TypeError, w1)
      | (Some localLecture, w1) \<Rightarrow>
          let lcName = replaceCharInFilename (lecture_name localLecture)
          in case individualUnits env db pdf lecCounter lcName (units lec) 1 archive w1 of
               (Inl e, w2) \<Rightarrow> (Inl e, w2)
             | (Inr archive2, w2) \<Rightarrow>
                 individualLectures env db pdf rest (lecCounter + 1) archive2 w2)"

text \<open>
  The endpoint. \<open>now\<close> is the time at which the output file is created; the entries reach
  the file when the archive is finalised, and the hash is returned when the file is closed.
  When the output file cannot be opened it is never closed, and no hash is returned.
\<close>

definition postDownloadRequestPDFIndividual ::
  "environment \<Rightarrow> database \<Rightarrow> renderer \<Rightarrow> (nat \<Rightarrow> 8 word) \<Rightarrow> int \<Rightarrow> download \<Rightarrow> userDoc
     \<Rightarrow> world \<Rightarrow> (httpError + string) \<times> world" where
  "postDownloadRequestPDFIndividual env db pdf entropy now data user w =
     (if lectures data = [] then (Inl BadRequestError, w)
      else case Course_findOne db (courseName data) w of
        (None, w1) \<Rightarrow> (Inl NotFoundError, w1)
      | (Some course, w1) \<Rightarrow>
          (case userCanExportCourse course user of
             Inl e \<Rightarrow> (Inl e, w1)
           | Inr ok \<Rightarrow>
               (case calcPackage env db data w1 of
                  (Inl e, w2) \<Rightarrow> (Inl e, w2)
                | (Inr pkg, w2) \<Rightarrow>
                    if totalSize pkg > maxZipSize (config env) \<or> tooLargeFiles pkg \<noteq> []
                    then (Inl BadRequestError, w2)
                    else let hash = createFileHash entropy;
                             filePath = path_join [path_resolve (cwd env) (tmpFileCacheFolder (config env)),
                                                   ''download_'' @ hash @ ''.zip'']
                         in case createWriteStream env now filePath w2 of
                              (Inl e, w3) \<Rightarrow> (Inl e, w3)
                            | (Inr output, w3) \<Rightarrow>
                                (case individualLectures env db pdf (lectures data) 1 [] w3 of
                                   (Inl e, w4) \<Rightarrow> (Inl e, w4)
                                 | (Inr archive, w4) \<Rightarrow>
                                     (Inr hash, writeArchive env filePath archive w4)))))"

subsection \<open>\<^verbatim>\<open>postDownloadRequestPDFSingle\<close>\<close>

definition singleOptions :: "environment \<Rightarrow> courseDoc \<Rightarrow> createOptions" where
  "singleOptions env course =
     \<lparr> phantomPath = binPath env,
       format = ''A4'',
       border = [(''left'', ''1cm''), (''right'', ''1cm''), (''top'', ''0''), (''bottom'', ''0'')],
       footerDefault = ''<div id=\"pageFooter\">{{page}}/{{pages}}</div>'',
       header = Some (''<div id=\"pageHeader\">'' @ course_name course @ ''</div>'', ''20mm'') \<rparr>"

definition singleHead :: "environment \<Rightarrow> string" where
  "singleHead env =
     ''<!DOCTYPE html>'' @
     [CHR 0x0A] @
     ''<html>'' @
     [CHR 0x0A] @
     ''  <head>'' @
     ''     <style>'' @
     ''       #pageHeader {text-align: center;border-bottom: 1px solid;padding-bottom: 5px;}'' @
     ''       #pageFooter {text-align: center;border-top: 1px solid;padding-top: 5px;}'' @
     ''       html, body {font-family: 'Helvetica', 'Arial', sans-serif; font-size: 12px; line-height: 1.5;}'' @
     ''       .codeBox {border: 1px solid grey; font-family: Monaco,Menlo,source-code-pro,monospace; padding: 10px}'' @
     ''       #firstPage {page-break-after: always;}'' @
     ''       #nextPage {page-break-before: always;}'' @
     ''       .bottomBoxWrapper {height:800px; position: relative}'' @
     ''       .bottomBox {position: absolute; bottom: 0;}'' @
     jsString (markdownCss env) @
     ''     </style>'' @
     ''  </head>'' @
     ''  <body>'' @
     ''  ''"

text \<open>The variables that the loops of the endpoint update.\<close>

record singleState =
  html :: string
  solutions :: string
  firstSol :: bool
  archive :: "archiveEntry list"

fun singleFiles ::
  "environment \<Rightarrow> database \<Rightarrow> nat \<Rightarrow> string \<Rightarrow> nat \<Rightarrow> jsval list \<Rightarrow> singleState \<Rightarrow> world
     \<Rightarrow> (httpError + singleState) \<times> world" where
  "singleFiles env db lecCounter lcName unitCounter [] st w = (Inr st, w)"
| "singleFiles env db lecCounter lcName unitCounter (fileId # rest) st w =
     (case File_findById db fileId w of
        (None, w1) \<Rightarrow> (Inl TypeError, w1)
      | (Some file, w1) \<Rightarrow>
          singleFiles env db lecCounter lcName unitCounter rest
            (st\<lparr>archive := archive st @
                   [ArchiveFile (path_join [uploadFolder (config env), file_link file])
                      (entryName lecCounter lcName unitCounter (file_name file))]\<rparr>)
            w1)"

definition isKataOrTask :: "unitDoc \<Rightarrow> bool" where
  "isKataOrTask localUnit = (unit_t localUnit = ''code-kata'' \<or> unit_t localUnit = ''task'')"

text \<open>The first statement of the loop body: the content of the unit.\<close>

definition singleContent ::
  "environment \<Rightarrow> database \<Rightarrow> nat \<Rightarrow> string \<Rightarrow> nat \<Rightarrow> downloadUnit \<Rightarrow> unitDoc \<Rightarrow> singleState
     \<Rightarrow> world \<Rightarrow> (httpError + singleState) \<times> world" where
  "singleContent env db lecCounter lcName unitCounter unit localUnit st w =
     (if unit_t localUnit = ''file''
      then singleFiles env db lecCounter lcName unitCounter (files unit) st w
      else if isKataOrTask localUnit \<and> lecCounter > 1 \<and> unitCounter > 1
      then (Inr (st\<lparr>html := html st @ ''<div id=\"nextPage\" >'' @ toHtmlForSinglePDF localUnit @ ''</div>''\<rparr>), w)
      else (Inr (st\<lparr>html := html st @ toHtmlForSinglePDF localUnit\<rparr>), w))"

text \<open>The second statement: the solutions of the unit; the result is the state and \<open>solCounter\<close>.\<close>

definition singleSolutions ::
  "lectureDoc \<Rightarrow> unitDoc \<Rightarrow> nat \<Rightarrow> singleState \<Rightarrow> singleState \<times> nat" where
  "singleSolutions localLecture localUnit solCounter st =
     (if isKataOrTask localUnit
      then let st1 =
                 (if \<not> firstSol st \<and> solCounter = 1
                  then st\<lparr>solutions := solutions st @ ''<div><h2>Lecture: '' @ lecture_name localLecture @ ''</h2>'',
                          firstSol := True\<rparr>
                  else if solCounter = 1
                  then st\<lparr>solutions := solutions st @ ''<div id=\"nextPage\" ><h2>Lecture: '' @
                                           lecture_name localLecture @ ''</h2>''\<rparr>
                  else st\<lparr>solutions := solutions st @ ''<div id=\"nextPage\" >''\<rparr>)
           in (st1\<lparr>solutions := solutions st1 @ toHtmlForSinglePDFSolutions localUnit @ ''</div>''\<rparr>,
               solCounter + 1)
      else if unit_t localUnit \<noteq> ''file''
      then (st\<lparr>solutions := solutions st @ toHtmlForSinglePDFSolutions localUnit\<rparr>, solCounter)
      else (st, solCounter))"

fun singleUnits ::
  "environment \<Rightarrow> database \<Rightarrow> nat \<Rightarrow> lectureDoc \<Rightarrow> string \<Rightarrow> downloadUnit list \<Rightarrow> nat \<Rightarrow> nat
     \<Rightarrow> singleState \<Rightarrow> world \<Rightarrow> (httpError + singleState) \<times> world" where
  "singleUnits env db lecCounter localLecture lcName [] unitCounter solCounter st w = (Inr st, w)"
| "singleUnits env db lecCounter localLecture lcName (unit # rest) unitCounter solCounter st w =
     (case Unit_findOne db (unitId unit) w of
        (None, w1) \<Rightarrow> (Inl NotFoundError, w1)
      | (Some localUnit, w1) \<Rightarrow>
          (case singleContent env db lecCounter lcName unitCounter unit localUnit st w1 of
             (Inl e, w2) \<Rightarrow> (Inl e, w2)
           | (Inr st1, w2) \<Rightarrow>
               (case singleSolutions localLecture localUnit solCounter st1 of
                  (st2, solCounter2) \<Rightarrow>
                    singleUnits env db lecCounter localLecture lcName rest (unitCounter + 1)
                      solCounter2 st2 w2)))"

fun singleLectures ::
  "environment \<Rightarrow> database \<Rightarrow> downloadLecture list \<Rightarrow> nat \<Rightarrow> singleState \<Rightarrow> world
     \<Rightarrow> (httpError + singleState) \<times> world" where
  "singleLectures env db [] lecCounter st w = (Inr st, w)"
| "singleLectures env db (lec # rest) lecCounter st w =
     (case Lecture_findOne db (lectureId lec) w of
        (None, w1) \<Rightarrow> (Inl TypeError, w1)
      | (Some localLecture, w1) \<Rightarrow>
          let lcName = replaceCharInFilename (lecture_name localLecture);
              st1 = (if lecCounter > 1
                     then st\<lparr>html := html st @ ''<div id=\"nextPage\" ><h2>Lecture: '' @
                                       lecture_name localLecture @ ''</h2>''\<rparr>
                     else st\<lparr>html := html st @ ''<div><h2>Lecture: '' @
                                       lecture_name localLecture @ ''</h2>''\<rparr>)
          in case singleUnits env db lecCounter localLecture lcName (units lec) 1 1 st1 w1 of
               (Inl e, w2) \<Rightarrow> (Inl e, w2)
             | (Inr st2, w2) \<Rightarrow>
                 singleLectures env db rest (lecCounter + 1) (st2\<lparr>html := html st2 @ ''</div>''\<rparr>) w2)"

definition postDownloadRequestPDFSingle ::
  "environment \<Rightarrow> database \<Rightarrow> renderer \<Rightarrow> (nat \<Rightarrow> 8 word) \<Rightarrow> int \<Rightarrow> download \<Rightarrow> userDoc
     \<Rightarrow> world \<Rightarrow> (httpError + string) \<times> world" where
  "postDownloadRequestPDFSingle env db pdf entropy now data user w =
     (if lectures data = [] then (Inl BadRequestError, w)
      else case Course_findOne db (courseName data) w of
        (None, w1) \<Rightarrow> (Inl NotFoundError, w1)
      | (Some course, w1) \<Rightarrow>
          (case userCanExportCourse course user of
             Inl e \<Rightarrow> (Inl e, w1)
           | Inr ok \<Rightarrow>
               (case calcPackage env db data w1 of
                  (Inl e, w2) \<Rightarrow> (Inl e, w2)
                | (Inr pkg, w2) \<Rightarrow>
                    if totalSize pkg > maxZipSize (config env) \<or> tooLargeFiles pkg \<noteq> []
                    then (Inl BadRequestError, w2)
                    else let data1 = data\<lparr>courseName := courseName data @ ''Single''\<rparr>;
                             hash = createFileHash entropy;
                             filePath = path_join [path_resolve (cwd env) (tmpFileCacheFolder (config env)),
                                                   ''download_'' @ hash @ ''.zip'']
                         in case createWriteStream env now filePath w2 of
                              (Inl e, w3) \<Rightarrow> (Inl e, w3)
                            | (Inr output, w3) \<Rightarrow>
                                let st0 = \<lparr> html = singleHead env,
                                            solutions = ''<div id=\"nextPage\"><h2><u>Solutions</u></h2>'',
                                            firstSol = False,
                                            archive = [] \<rparr>
                                in case singleLectures env db (lectures data1) 1 st0 w3 of
                                     (Inl e, w4) \<Rightarrow> (Inl e, w4)
                                   | (Inr st, w4) \<Rightarrow>
                                       let html1 = html st @ solutions st @ ''</div></body>'' @ ''</html>'';
                                           name = replaceCharInFilename (course_name course) @ ''.pdf''
                                       in case createPdf pdf html1 (singleOptions env course) w4 of
                                            (Inl e, w5) \<Rightarrow> (Inl e, w5)
                                          | (Inr buffer, w5) \<Rightarrow>
                                              (Inr hash,
                                               writeArchive env filePath
                                                 (archive st @ [ArchiveAppend buffer name]) w5))))"

section \<open>\<^verbatim>\<open>ProgressController\<close>\<close>

text \<open>
  A document of the collection \<^verbatim>\<open>Progress\<close>: the user, the unit and the course it belongs
  to, and the other fields of the request body. The state of the controller is the
  collection, in the order in which \<^verbatim>\<open>findOne\<close> searches it, and the queries made so far.
\<close>

record progressDoc =
  progress_user :: string
  progress_unit :: string
  progress_course :: string
  progress_fields :: string

record progressState =
  Progress :: "progressDoc list"
  queries :: "event list"

text \<open>
  The body of the request: the id of the unit and the other fields; the endpoint sets
  \<^verbatim>\<open>data.user\<close> and \<^verbatim>\<open>data.course\<close> itself.
\<close>

record progressData =
  data_unit :: string
  data_fields :: string

text \<open>
  \<^verbatim>\<open>course.checkPrivileges(currentUser)\<close> is a method of the course model; the controller
  reads \<^verbatim>\<open>userCanViewCourse\<close> of its result. It is a parameter of the endpoint here.
\<close>

record privileges =
  userCanViewCourse :: bool

type_synonym privilegeCheck = "courseDoc \<Rightarrow> userDoc \<Rightarrow> privileges"

text \<open>
  \<^verbatim>\<open>checkDeadline\<close>: \<^verbatim>\<open>unit.deadline && moment(unit.deadline).isBefore()\<close>. A unit without a
  deadline has \<open>None\<close>; \<^verbatim>\<open>isBefore()\<close> compares the milliseconds of the deadline with those of
  the current time, strictly.
\<close>

definition checkDeadline :: "int \<Rightarrow> unitDoc \<Rightarrow> httpError + unit" where
  "checkDeadline now u =
     (case deadline u of
        None \<Rightarrow> Inr ()
      | Some d \<Rightarrow> if d < now then Inl BadRequestError else Inr ())"

definition Unit_findById :: "database \<Rightarrow> string \<Rightarrow> progressState \<Rightarrow> unitDoc option \<times> progressState" where
  "Unit_findById db ident s = (Unit db ident, s\<lparr>queries := queries s @ [UnitFind ident]\<rparr>)"

definition Course_findById ::
  "database \<Rightarrow> string \<Rightarrow> progressState \<Rightarrow> courseDoc option \<times> progressState" where
  "Course_findById db ident s = (Course db ident, s\<lparr>queries := queries s @ [CourseFind ident]\<rparr>)"

definition matchesProgress :: "string \<Rightarrow> string \<Rightarrow> progressDoc \<Rightarrow> bool" where
  "matchesProgress userIdent unitIdent p = (progress_user p = userIdent \<and> progress_unit p = unitIdent)"

definition Progress_findOne ::
  "string \<Rightarrow> string \<Rightarrow> progressState \<Rightarrow> progressDoc option \<times> progressState" where
  "Progress_findOne userIdent unitIdent s =
     (find (matchesProgress userIdent unitIdent) (Progress s),
      s\<lparr>queries := queries s @ [ProgressFind userIdent unitIdent]\<rparr>)"

definition Progress_create :: "progressDoc \<Rightarrow> progressState \<Rightarrow> progressState" where
  "Progress_create doc s = s\<lparr>Progress := Progress s @ [doc]\<rparr>"

text \<open>\<^verbatim>\<open>progress.set(data)\<close> and \<^verbatim>\<open>progress.save()\<close>, for the document that \<^verbatim>\<open>findOne\<close> returned.\<close>

fun replaceFirst :: "('a \<Rightarrow> bool) \<Rightarrow> 'a \<Rightarrow> 'a list \<Rightarrow> 'a list" where
  "replaceFirst P y [] = []"
| "replaceFirst P y (x # xs) = (if P x then y # xs else x # replaceFirst P y xs)"

definition Progress_save :: "progressDoc \<Rightarrow> progressState \<Rightarrow> progressState" where
  "Progress_save doc s =
     s\<lparr>Progress := replaceFirst (matchesProgress (progress_user doc) (progress_unit doc)) doc (Progress s)\<rparr>"

text \<open>
  \<^verbatim>\<open>updateProgress\<close>. Reading \<^verbatim>\<open>unit._course\<close> of a unit that was not found, or calling
  \<^verbatim>\<open>checkPrivileges\<close> of a course that was not found, throws a \<open>TypeError\<close>.
\<close>

definition updateProgress ::
  "privilegeCheck \<Rightarrow> database \<Rightarrow> int \<Rightarrow> progressData \<Rightarrow> userDoc \<Rightarrow> progressState
     \<Rightarrow> (httpError + progressDoc) \<times> progressState" where
  "updateProgress checkPrivileges db now data currentUser s =
     (case Unit_findById db (data_unit data) s of
        (None, s1) \<Rightarrow> (Inl TypeError, s1)
      | (Some u, s1) \<Rightarrow>
          (case Course_findById db (unit_course u) s1 of
             (None, s2) \<Rightarrow> (Inl TypeError, s2)
           | (Some course, s2) \<Rightarrow>
               if \<not> userCanViewCourse (checkPrivileges course currentUser)
               then (Inl ForbiddenError, s2)
               else (case checkDeadline now u of
                       Inl e \<Rightarrow> (Inl e, s2)
                     | Inr checked \<Rightarrow>
                         let doc = \<lparr> progress_user = user_id currentUser,
                                     progress_unit = data_unit data,
                                     progress_course = course_id course,
                                     progress_fields = data_fields data \<rparr>
                         in case Progress_findOne (user_id currentUser) (data_unit data) s2 of
                              (None, s3) \<Rightarrow> (Inr doc, Progress_create doc s3)
                            | (Some progress, s3) \<Rightarrow> (Inr doc, Progress_save doc s3))))"

section \<open>Auxiliary notions for the proofs\<close>

text \<open>
  An absolute path in normal form is a slash followed by its segments, joined by slashes;
  \<open>absSegs\<close> are the segments that normalisation leaves of an absolute path.
\<close>

definition absPath :: "string list \<Rightarrow> string" where
  "absPath segs = ''/'' @ joinWith ''/'' segs"

definition absSegs :: "string \<Rightarrow> string list" where
  "absSegs p = foldl (normalizeStep False) [] (splitOn CHR ''/'' p)"


text \<open>A segment that normalisation leaves of a relative path.\<close>

definition relSegment :: "string \<Rightarrow> bool" where
  "relSegment s = (s = ''..'' \<or> isFileName s)"

text \<open>
  The resolved cache folder, and what a sweep at time \<open>now\<close> is to delete: what lies
  directly inside the cache folder, has a name that matches the expression and a
  \<^verbatim>\<open>ctimeMs\<close> that is more than an hour (\<open>3600 * 1000\<close> ms) before \<open>now\<close>. The sweep is
  blocked when one of these is a folder.
\<close>

definition cacheFolder :: "environment \<Rightarrow> string" where
  "cacheFolder env = path_resolve (cwd env) (tmpFileCacheFolder (config env))"

definition expiredArchive :: "environment \<Rightarrow> int \<Rightarrow> string \<Rightarrow> fsfile \<Rightarrow> bool" where
  "expiredArchive env now p f =
     (liesDirectlyInside (cacheFolder env) p \<and>
      regexTest (drop (length (folderPrefix (cacheFolder env))) p) \<and>
      ctimeMs f < now - 3600 * 1000)"

definition expiredFolder :: "environment \<Rightarrow> int \<Rightarrow> world \<Rightarrow> bool" where
  "expiredFolder env now w =
     list_ex (\<lambda>p. case map_of (fs w) p of
                     None \<Rightarrow> False
                   | Some f \<Rightarrow> isDirectory f \<and> expiredArchive env now p f)
       (map fst (fs w))"

text \<open>
  The package of a request, in the words of the specification: the selected files are
  the files of the requested units of type \<^verbatim>\<open>file\<close> whose index is in the \<open>files\<close> of the
  request, in the order of the request; the size of a file is counted in units of 1024
  bytes.
\<close>

definition sizeKB :: "fileDoc \<Rightarrow> rat" where
  "sizeKB file = of_int (file_size file) / 1024"

definition selectedOf :: "jsval list \<Rightarrow> fileDoc list \<Rightarrow> fileDoc list" where
  "selectedOf selected unitFs =
     map snd (filter (\<lambda>(index, file). JNum (int index) \<in> set selected) (enumerate 0 unitFs))"

definition selectedFiles :: "database \<Rightarrow> download \<Rightarrow> fileDoc list" where
  "selectedFiles db pack =
     concat (map (\<lambda>lec. concat (map (\<lambda>u.
        case Unit db (unitId u) of
          None \<Rightarrow> []
        | Some localUnit \<Rightarrow>
            if unit_t localUnit = ''file'' then selectedOf (files u) (unit_files localUnit) else [])
        (units lec))) (lectures pack))"

definition allUnitsExist :: "database \<Rightarrow> download \<Rightarrow> bool" where
  "allUnitsExist db pack = (\<forall>lec\<in>set (lectures pack). \<forall>u\<in>set (units lec). Unit db (unitId u) \<noteq> None)"

text \<open>The files of one requested unit, and the accumulation of files into a package size.\<close>

definition unitFiles :: "database \<Rightarrow> downloadUnit \<Rightarrow> fileDoc list" where
  "unitFiles db u =
     (case Unit db (unitId u) of
        None \<Rightarrow> []
      | Some localUnit \<Rightarrow>
          if unit_t localUnit = ''file'' then selectedOf (files u) (unit_files localUnit) else [])"

definition addFiles :: "config \<Rightarrow> fileDoc list \<Rightarrow> packageSize \<Rightarrow> packageSize" where
  "addFiles cfg added acc =
     \<lparr> totalSize = totalSize acc + sum_list (map sizeKB added),
       tooLargeFiles = tooLargeFiles acc @ map file_link (filter (\<lambda>f. sizeKB f > maxFileSize cfg) added) \<rparr>"

text \<open>
  The users who may export a course, in the words of the specification: an administrator,
  the administrator of the course, its students and its teachers.
\<close>

definition mayExport :: "courseDoc \<Rightarrow> userDoc \<Rightarrow> bool" where
  "mayExport course user =
     (role user = ''admin'' \<or> user_id user = courseAdmin course \<or>
      user_id user \<in> set (students course) \<or> user_id user \<in> set (teachers course))"

text \<open>
  A world \<open>w'\<close> that differs from \<open>w\<close> by reads of the database only: the file system is
  the same and the events added are lookups. In particular no file has been created.
\<close>

definition isDbRead :: "event \<Rightarrow> bool" where
  "isDbRead e =
     (case e of
        CourseFind _ \<Rightarrow> True
      | LectureFind _ \<Rightarrow> True
      | UnitFind _ \<Rightarrow> True
      | FileFind _ \<Rightarrow> True
      | ProgressFind _ _ \<Rightarrow> True
      | _ \<Rightarrow> False)"

definition onlyDbReads :: "world \<Rightarrow> world \<Rightarrow> bool" where
  "onlyDbReads w w' =
     (fs w' = fs w \<and>
      take (length (events w)) (events w') = events w \<and>
      list_all isDbRead (drop (length (events w)) (events w')))"

text \<open>
  What a loop of an endpoint can end in once the output file is open: it leaves the files
  as they are, and an error is \<open>NotFoundError\<close>, \<open>TypeError\<close> or \<open>RendererError\<close>.
\<close>

definition laterError :: "httpError \<Rightarrow> bool" where
  "laterError e = (e = NotFoundError \<or> e = TypeError \<or> e = RendererError)"

definition loopOutcome :: "world \<Rightarrow> (httpError + 'a) \<times> world \<Rightarrow> bool" where
  "loopOutcome w rw =
     (fs (snd rw) = fs w \<and> (case fst rw of Inl e \<Rightarrow> laterError e | Inr x \<Rightarrow> True))"

text \<open>
  The path of the archive of a hash in the cache folder, and what a hash is: 32
  hexadecimal digits.
\<close>

definition cachePath :: "environment \<Rightarrow> string \<Rightarrow> string" where
  "cachePath env hash = folderPrefix (cacheFolder env) @ ''download_'' @ hash @ ''.zip''"

definition isHexHash :: "string \<Rightarrow> bool" where
  "isHexHash hash = (length hash = 32 \<and> list_all (\<lambda>c. c \<in> set hexDigits) hash)"

text \<open>
  The entries of the archive of \<^verbatim>\<open>postDownloadRequestPDFIndividual\<close>, in the words of the
  specification. Lectures and units are counted from 1 in the order of the request. A
  unit of type \<^verbatim>\<open>file\<close> gives one entry for each of its requested files, the file as it
  is, named \<^verbatim>\<open><lecture counter>_<lecture name>/<unit counter>_<file name>\<close>; a unit of
  another type gives one entry, the PDF that the renderer makes of its HTML, named
  \<^verbatim>\<open><lecture counter>_<lecture name>/<unit counter>_<unit name>.pdf\<close>, the lecture and
  unit names sanitised.
\<close>

definition individualSource :: "string \<Rightarrow> string" where
  "individualSource link = ''uploads/'' @ link"

definition singleSource :: "environment \<Rightarrow> string \<Rightarrow> string" where
  "singleSource env link = path_join [uploadFolder (config env), link]"

definition fileEntries ::
  "(string \<Rightarrow> string) \<Rightarrow> database \<Rightarrow> nat \<Rightarrow> string \<Rightarrow> nat \<Rightarrow> jsval list \<Rightarrow> archiveEntry list" where
  "fileEntries source db lecCounter lcName unitCounter ids =
     concat (map (\<lambda>fileId.
        case File db fileId of
          None \<Rightarrow> []
        | Some file \<Rightarrow>
            [ArchiveFile (source (file_link file))
               (entryName lecCounter lcName unitCounter (file_name file))]) ids)"

definition unitEntries ::
  "environment \<Rightarrow> database \<Rightarrow> renderer \<Rightarrow> nat \<Rightarrow> string \<Rightarrow> nat \<Rightarrow> downloadUnit \<Rightarrow> archiveEntry list" where
  "unitEntries env db pdf lecCounter lcName unitCounter u =
     (case Unit db (unitId u) of
        None \<Rightarrow> []
      | Some localUnit \<Rightarrow>
          if unit_t localUnit = ''file''
          then fileEntries individualSource db lecCounter lcName unitCounter (files u)
          else (case pdf (individualHead env @ toHtmlForIndividualPDF localUnit @ ''</html>'')
                      (individualOptions env) of
                  None \<Rightarrow> []
                | Some buffer \<Rightarrow>
                    [ArchiveAppend buffer
                       (entryName lecCounter lcName unitCounter
                          (replaceCharInFilename (unit_name localUnit) @ ''.pdf''))]))"

definition lectureEntries ::
  "environment \<Rightarrow> database \<Rightarrow> renderer \<Rightarrow> nat \<Rightarrow> downloadLecture \<Rightarrow> archiveEntry list" where
  "lectureEntries env db pdf lecCounter lec =
     (case Lecture db (lectureId lec) of
        None \<Rightarrow> []
      | Some localLecture \<Rightarrow>
          concat (map (\<lambda>(unitCounter, u).
                    unitEntries env db pdf lecCounter (replaceCharInFilename (lecture_name localLecture))
                      unitCounter u)
                  (enumerate 1 (units lec))))"

definition individualEntries ::
  "environment \<Rightarrow> database \<Rightarrow> renderer \<Rightarrow> download \<Rightarrow> archiveEntry list" where
  "individualEntries env db pdf data =
     concat (map (\<lambda>(lecCounter, lec). lectureEntries env db pdf lecCounter lec)
               (enumerate 1 (lectures data)))"

text \<open>
  The document of \<^verbatim>\<open>postDownloadRequestPDFSingle\<close>, in the words of the specification.
  A unit has a solution when it is a code kata or a task. In the solutions section the
  solutions of such a unit stand in a block of their own that ends with \<^verbatim>\<open></div>\<close>; the
  first such unit of a lecture opens the block with the heading of the lecture, and the
  first of them all does so without a page break. A unit of type \<^verbatim>\<open>file\<close> adds nothing;
  any other unit adds its solutions HTML as it is. The section follows the content of all
  the lectures.
\<close>

definition hasSolution :: "database \<Rightarrow> downloadUnit \<Rightarrow> bool" where
  "hasSolution db u = (case Unit db (unitId u) of None \<Rightarrow> False | Some localUnit \<Rightarrow> isKataOrTask localUnit)"

definition anyKataOrTask :: "database \<Rightarrow> downloadUnit list \<Rightarrow> bool" where
  "anyKataOrTask db us = list_ex (hasSolution db) us"

definition solutionHeading :: "string \<Rightarrow> bool \<Rightarrow> bool \<Rightarrow> string" where
  "solutionHeading lecName firstOverall firstInLecture =
     (if firstInLecture
      then (if firstOverall then ''<div><h2>Lecture: '' else ''<div id=\"nextPage\" ><h2>Lecture: '') @
           lecName @ ''</h2>''
      else ''<div id=\"nextPage\" >'')"

definition unitSolutions :: "database \<Rightarrow> string \<Rightarrow> bool \<Rightarrow> bool \<Rightarrow> downloadUnit \<Rightarrow> string" where
  "unitSolutions db lecName firstOverall firstInLecture u =
     (case Unit db (unitId u) of
        None \<Rightarrow> []
      | Some localUnit \<Rightarrow>
          if isKataOrTask localUnit
          then solutionHeading lecName firstOverall firstInLecture @
               toHtmlForSinglePDFSolutions localUnit @ ''</div>''
          else if unit_t localUnit \<noteq> ''file'' then toHtmlForSinglePDFSolutions localUnit
          else [])"

definition lectureSolutions :: "database \<Rightarrow> bool \<Rightarrow> downloadLecture \<Rightarrow> string" where
  "lectureSolutions db seenBefore lec =
     (case Lecture db (lectureId lec) of
        None \<Rightarrow> []
      | Some localLecture \<Rightarrow>
          concat (map (\<lambda>(j, u).
                    unitSolutions db (lecture_name localLecture)
                      (\<not> seenBefore \<and> \<not> anyKataOrTask db (take j (units lec)))
                      (\<not> anyKataOrTask db (take j (units lec))) u)
                  (enumerate 0 (units lec))))"

definition solutionsSection :: "database \<Rightarrow> downloadLecture list \<Rightarrow> string" where
  "solutionsSection db lecs =
     ''<div id=\"nextPage\"><h2><u>Solutions</u></h2>'' @
     concat (map (\<lambda>(k, lec).
               lectureSolutions db (list_ex (\<lambda>l. anyKataOrTask db (units l)) (take k lecs)) lec)
             (enumerate 0 lecs))"

definition unitContent :: "database \<Rightarrow> nat \<Rightarrow> nat \<Rightarrow> downloadUnit \<Rightarrow> string" where
  "unitContent db lecCounter unitCounter u =
     (case Unit db (unitId u) of
        None \<Rightarrow> []
      | Some localUnit \<Rightarrow>
          if unit_t localUnit = ''file'' then []
          else if isKataOrTask localUnit \<and> lecCounter > 1 \<and> unitCounter > 1
          then ''<div id=\"nextPage\" >'' @ toHtmlForSinglePDF localUnit @ ''</div>''
          else toHtmlForSinglePDF localUnit)"

definition lectureContent :: "database \<Rightarrow> nat \<Rightarrow> downloadLecture \<Rightarrow> string" where
  "lectureContent db lecCounter lec =
     (case Lecture db (lectureId lec) of
        None \<Rightarrow> []
      | Some localLecture \<Rightarrow>
          (if lecCounter > 1 then ''<div id=\"nextPage\" ><h2>Lecture: '' else ''<div><h2>Lecture: '') @
          lecture_name localLecture @ ''</h2>'' @
          concat (map (\<lambda>(j, u). unitContent db lecCounter j u) (enumerate 1 (units lec))) @
          ''</div>'')"

definition lecturesContent :: "database \<Rightarrow> downloadLecture list \<Rightarrow> string" where
  "lecturesContent db lecs = concat (map (\<lambda>(k, lec). lectureContent db k lec) (enumerate 1 lecs))"

definition singleHtml :: "environment \<Rightarrow> database \<Rightarrow> download \<Rightarrow> string" where
  "singleHtml env db data =
     singleHead env @ lecturesContent db (lectures data) @ solutionsSection db (lectures data) @
     ''</div></body></html>''"

definition singleUnitEntries ::
  "environment \<Rightarrow> database \<Rightarrow> nat \<Rightarrow> string \<Rightarrow> nat \<Rightarrow> downloadUnit \<Rightarrow> archiveEntry list" where
  "singleUnitEntries env db lecCounter lcName unitCounter u =
     (case Unit db (unitId u) of
        None \<Rightarrow> []
      | Some localUnit \<Rightarrow>
          if unit_t localUnit = ''file''
          then fileEntries (singleSource env) db lecCounter lcName unitCounter (files u)
          else [])"

definition singleLectureEntries ::
  "environment \<Rightarrow> database \<Rightarrow> nat \<Rightarrow> downloadLecture \<Rightarrow> archiveEntry list" where
  "singleLectureEntries env db lecCounter lec =
     (case Lecture db (lectureId lec) of
        None \<Rightarrow> []
      | Some localLecture \<Rightarrow>
          concat (map (\<lambda>(j, u).
                    singleUnitEntries env db lecCounter (replaceCharInFilename (lecture_name localLecture)) j u)
                  (enumerate 1 (units lec))))"

definition singleFileEntries :: "environment \<Rightarrow> database \<Rightarrow> download \<Rightarrow> archiveEntry list" where
  "singleFileEntries env db data =
     concat (map (\<lambda>(k, lec). singleLectureEntries env db k lec) (enumerate 1 (lectures data)))"

text \<open>The solutions of a run of units and of a run of lectures, with what has been seen so far.\<close>

fun unitsSolutionsFrom :: "database \<Rightarrow> string \<Rightarrow> bool \<Rightarrow> bool \<Rightarrow> downloadUnit list \<Rightarrow> string" where
  "unitsSolutionsFrom db lecName seenOverall seenInLecture [] = []"
| "unitsSolutionsFrom db lecName seenOverall seenInLecture (u # us) =
     unitSolutions db lecName (\<not> seenOverall \<and> \<not> seenInLecture) (\<not> seenInLecture) u @
     unitsSolutionsFrom db lecName (seenOverall \<or> hasSolution db u) (seenInLecture \<or> hasSolution db u) us"

fun lecturesSolutionsFrom :: "database \<Rightarrow> bool \<Rightarrow> downloadLecture list \<Rightarrow> string" where
  "lecturesSolutionsFrom db seenOverall [] = []"
| "lecturesSolutionsFrom db seenOverall (lec # lecs) =
     lectureSolutions db seenOverall lec @
     lecturesSolutionsFrom db (seenOverall \<or> anyKataOrTask db (units lec)) lecs"

definition singleStart :: "environment \<Rightarrow> singleState" where
  "singleStart env =
     \<lparr> html = singleHead env,
       solutions = ''<div id=\"nextPage\"><h2><u>Solutions</u></h2>'',
       firstSol = False,
       archive = [] \<rparr>"

text \<open>The request without its units of type \<^verbatim>\<open>file\<close>.\<close>

definition isFileUnit :: "database \<Rightarrow> downloadUnit \<Rightarrow> bool" where
  "isFileUnit db u = (case Unit db (unitId u) of None \<Rightarrow> False | Some localUnit \<Rightarrow> unit_t localUnit = ''file'')"

definition withoutFileUnits :: "database \<Rightarrow> downloadLecture list \<Rightarrow> downloadLecture list" where
  "withoutFileUnits db lecs = map (\<lambda>lec. lec\<lparr>units := filter (\<lambda>u. \<not> isFileUnit db u) (units lec)\<rparr>) lecs"

text \<open>A small installation, used to run the model on concrete requests.\<close>

definition exampleEnv :: environment where
  "exampleEnv = \<lparr> appRoot = ''/srv/app'', envUPLOADFOLDER = None, cwd = ''/srv/app'',
                   binPath = ''/usr/bin/phantomjs'', markdownCss = Some ''p {margin: 0;}'' \<rparr>"

definition exampleWorld :: world where
  "exampleWorld =
     \<lparr> fs = [(''/srv/app/tmp'', \<lparr>ctimeMs = 1, isDirectory = True, entries = []\<rparr>),
             (''/srv/app/tmp/download_ab12.zip'', \<lparr>ctimeMs = 5, isDirectory = False, entries = []\<rparr>),
             (''/srv/app/tmp/download_dir1.zip'', \<lparr>ctimeMs = 6, isDirectory = True, entries = []\<rparr>)],
       events = [] \<rparr>"

definition exampleCache :: world where
  "exampleCache =
     \<lparr> fs = [(''/srv/app/tmp'', \<lparr>ctimeMs = 1, isDirectory = True, entries = []\<rparr>),
             (''/srv/app/tmp/download_old1.zip'', \<lparr>ctimeMs = 1000, isDirectory = False, entries = []\<rparr>),
             (''/srv/app/tmp/download_new1.zip'', \<lparr>ctimeMs = 9000000, isDirectory = False, entries = []\<rparr>),
             (''/srv/app/tmp/notes.txt'', \<lparr>ctimeMs = 1000, isDirectory = False, entries = []\<rparr>),
             (''/srv/app/tmp/logs'', \<lparr>ctimeMs = 1000, isDirectory = True, entries = []\<rparr>),
             (''/srv/app/tmp/download_dir2.zip'', \<lparr>ctimeMs = 9000000, isDirectory = True, entries = []\<rparr>),
             (''/srv/app/tmp/xdownload_a9_zipped'', \<lparr>ctimeMs = 1000, isDirectory = False, entries = []\<rparr>),
             (''/srv/app/uploads'', \<lparr>ctimeMs = 1, isDirectory = True, entries = []\<rparr>),
             (''/srv/app/uploads/download_old1.zip'', \<lparr>ctimeMs = 1000, isDirectory = False, entries = []\<rparr>)],
       events = [] \<rparr>"

text \<open>A cache in which an old folder has the name of an archive.\<close>

definition blockedCache :: world where
  "blockedCache =
     \<lparr> fs = [(''/srv/app/tmp'', \<lparr>ctimeMs = 1, isDirectory = True, entries = []\<rparr>),
             (''/srv/app/tmp/download_old0.zip'', \<lparr>ctimeMs = 1000, isDirectory = False, entries = []\<rparr>),
             (''/srv/app/tmp/download_dir1.zip'', \<lparr>ctimeMs = 1000, isDirectory = True, entries = []\<rparr>),
             (''/srv/app/tmp/download_old1.zip'', \<lparr>ctimeMs = 1000, isDirectory = False, entries = []\<rparr>)],
       events = [] \<rparr>"

definition exampleDb :: database where
  "exampleDb =
     \<lparr> Course = [''c1'' \<mapsto> \<lparr>course_id = ''c1'', course_name = ''Intro to Logic'', courseAdmin = ''u-admin'',
                           students = [''u-stud''], teachers = [''u-teach'']\<rparr>],
       Lecture = [''l1'' \<mapsto> \<lparr>lecture_name = ''Week 1: Basics''\<rparr>, ''l2'' \<mapsto> \<lparr>lecture_name = ''Week 2''\<rparr>],
       Unit = [''un1'' \<mapsto> \<lparr>unit_t = ''file'', unit_name = ''Slides'',
                            unit_files = [\<lparr>file_name = ''a.txt'', file_link = ''x1.txt'', file_size = 2048\<rparr>,
                                          \<lparr>file_name = ''big.bin'', file_link = ''x2.bin'', file_size = 60000000\<rparr>],
                            unit_course = ''c1'', deadline = None,
                            toHtmlForIndividualPDF = '''', toHtmlForSinglePDF = '''',
                            toHtmlForSinglePDFSolutions = ''''\<rparr>,
               ''un2'' \<mapsto> \<lparr>unit_t = ''task'', unit_name = ''Quiz 1'', unit_files = [],
                            unit_course = ''c1'', deadline = Some 500,
                            toHtmlForIndividualPDF = ''<body>quiz</body>'', toHtmlForSinglePDF = ''<p>quiz</p>'',
                            toHtmlForSinglePDFSolutions = ''<p>answers</p>''\<rparr>,
               ''un3'' \<mapsto> \<lparr>unit_t = ''free-text'', unit_name = ''Notes'', unit_files = [],
                            unit_course = ''c1'', deadline = None,
                            toHtmlForIndividualPDF = ''<body>notes</body>'', toHtmlForSinglePDF = ''<p>notes</p>'',
                            toHtmlForSinglePDFSolutions = ''''\<rparr>,
               ''un4'' \<mapsto> \<lparr>unit_t = ''code-kata'', unit_name = ''Kata'', unit_files = [],
                            unit_course = ''c1'', deadline = None,
                            toHtmlForIndividualPDF = ''<body>kata</body>'', toHtmlForSinglePDF = ''<p>kata</p>'',
                            toHtmlForSinglePDFSolutions = ''<p>code</p>''\<rparr>],
       File = [JNum 0 \<mapsto> \<lparr>file_name = ''a.txt'', file_link = ''x1.txt'', file_size = 2048\<rparr>,
               JNum 1 \<mapsto> \<lparr>file_name = ''big.bin'', file_link = ''x2.bin'', file_size = 60000000\<rparr>] \<rparr>"

definition exampleRequest :: download where
  "exampleRequest =
     \<lparr> courseName = ''c1'',
       lectures = [\<lparr>lectureId = ''l1'', units = [\<lparr>unitId = ''un1'', files = [JNum 0]\<rparr>,
                                                 \<lparr>unitId = ''un2'', files = []\<rparr>]\<rparr>,
                   \<lparr>lectureId = ''l2'', units = [\<lparr>unitId = ''un3'', files = []\<rparr>,
                                                 \<lparr>unitId = ''un4'', files = []\<rparr>]\<rparr>] \<rparr>"

definition examplePdf :: renderer where
  "examplePdf h options = Some (''%PDF '' @ rev (take 24 (rev h)))"

definition exampleEntropy :: "nat \<Rightarrow> 8 word" where
  "exampleEntropy i = of_nat (17 * i + 3)"

definition emptyWorld :: world where
  "emptyWorld = \<lparr>fs = [], events = []\<rparr>"

definition freshWorld :: world where
  "freshWorld = \<lparr>fs = [(''/srv/app/tmp'', \<lparr>ctimeMs = 1, isDirectory = True, entries = []\<rparr>)], events = []\<rparr>"

definition student :: userDoc where
  "student = \<lparr>user_id = ''u-stud'', role = ''student''\<rparr>"

definition outsider :: userDoc where
  "outsider = \<lparr>user_id = ''u-other'', role = ''student''\<rparr>"

definition bigRequest :: download where
  "bigRequest =
     \<lparr> courseName = ''c1'',
       lectures = [\<lparr>lectureId = ''l1'', units = [\<lparr>unitId = ''un2'', files = [JNum 0]\<rparr>,
                                                 \<lparr>unitId = ''un1'', files = [JNum 1, JStr ''x'', JNum 0]\<rparr>]\<rparr>] \<rparr>"

definition missingRequest :: download where
  "missingRequest =
     \<lparr> courseName = ''c1'',
       lectures = [\<lparr>lectureId = ''l1'', units = [\<lparr>unitId = ''un1'', files = [JNum 1]\<rparr>,
                                                 \<lparr>unitId = ''un9'', files = []\<rparr>]\<rparr>] \<rparr>"

definition exampleCourse :: courseDoc where
  "exampleCourse =
     \<lparr>course_id = ''c1'', course_name = ''Intro to Logic'', courseAdmin = ''u-admin'',
      students = [''u-stud''], teachers = [''u-teach'']\<rparr>"

definition emptyRequest :: download where
  "emptyRequest = \<lparr>courseName = ''c1'', lectures = []\<rparr>"

text \<open>A request to the progress controller for the task \<^verbatim>\<open>un2\<close>, whose deadline is 500.\<close>

definition membersMayView :: privilegeCheck where
  "membersMayView course user =
     \<lparr> userCanViewCourse =
         (role user = ''admin'' \<or> user_id user = courseAdmin course \<or>
          user_id user \<in> set (students course) \<or> user_id user \<in> set (teachers course)) \<rparr>"

definition quizProgress :: progressData where
  "quizProgress = \<lparr>data_unit = ''un2'', data_fields = ''done''\<rparr>"

definition exampleProgress :: progressState where
  "exampleProgress =
     \<lparr> Progress = [\<lparr>progress_user = ''u-stud'', progress_unit = ''un4'', progress_course = ''c1'',
                     progress_fields = ''started''\<rparr>],
       queries = [] \<rparr>"

definition exampleQuiz :: unitDoc where
  "exampleQuiz =
     \<lparr>unit_t = ''task'', unit_name = ''Quiz 1'', unit_files = [],
      unit_course = ''c1'', deadline = Some 500,
      toHtmlForIndividualPDF = ''<body>quiz</body>'', toHtmlForSinglePDF = ''<p>quiz</p>'',
      toHtmlForSinglePDFSolutions = ''<p>answers</p>''\<rparr>"

section \<open>Properties of the path functions\<close>

lemma splitOn_nonempty: "splitOn c xs \<noteq> []"
  by (induction xs) (auto split: list.splits)

lemma splitOn_no_sep: "s \<in> set (splitOn c xs) \<Longrightarrow> c \<notin> set s"
  by (induction xs arbitrary: s) (auto split: list.splits if_splits)

lemma splitOn_id: "c \<notin> set s \<Longrightarrow> splitOn c s = [s]"
  by (induction s) auto

lemma splitOn_append: "splitOn c (a @ c # b) = splitOn c a @ splitOn c b"
  by (induction a) (auto split: list.splits simp: splitOn_nonempty)

lemma splitOn_snoc_sep: "splitOn c (a @ [c]) = splitOn c a @ [[]]"
  using splitOn_append [of c a "[]"] by simp

lemma joinWith_snoc: "segs \<noteq> [] \<Longrightarrow> joinWith sep (segs @ [s]) = joinWith sep segs @ sep @ s"
  by (induction sep segs rule: joinWith.induct) auto

lemma splitOn_joinWith:
  "segs \<noteq> [] \<Longrightarrow> \<forall>s\<in>set segs. c \<notin> set s \<Longrightarrow> splitOn c (joinWith [c] segs) = segs"
proof (induction segs rule: rev_induct)
  case Nil
  then show ?case by simp
next
  case (snoc s segs)
  show ?case
  proof (cases "segs = []")
    case True
    with snoc.prems show ?thesis by (simp add: splitOn_id)
  next
    case False
    with snoc show ?thesis
      by (simp add: joinWith_snoc splitOn_append splitOn_id)
  qed
qed

lemma joinWith_eq_Nil: "joinWith sep segs = [] \<Longrightarrow> \<forall>s\<in>set segs. s \<noteq> [] \<Longrightarrow> segs = []"
  by (induction sep segs rule: joinWith.induct) auto

lemma joinWith_inj:
  assumes "joinWith [c] xs = joinWith [c] ys"
    and "\<forall>s\<in>set xs. s \<noteq> [] \<and> c \<notin> set s" and "\<forall>s\<in>set ys. s \<noteq> [] \<and> c \<notin> set s"
  shows "xs = ys"
proof (cases "xs = [] \<or> ys = []")
  case True
  with assms show ?thesis
    by (metis joinWith.simps(1) joinWith_eq_Nil)
next
  case False
  then have "splitOn c (joinWith [c] xs) = xs" "splitOn c (joinWith [c] ys) = ys"
    using assms(2,3) by (simp_all add: splitOn_joinWith)
  with assms(1) show ?thesis by metis
qed

lemma isFileName_step: "isFileName s \<Longrightarrow> normalizeStep b res s = res @ [s]"
  by (auto simp: normalizeStep_def isFileName_def)

lemma foldl_step_clean: "list_all isFileName segs \<Longrightarrow> foldl (normalizeStep b) acc segs = acc @ segs"
  by (induction segs arbitrary: acc) (simp_all add: isFileName_step)

lemma stepF_clean:
  "list_all isFileName acc \<Longrightarrow> CHR ''/'' \<notin> set s \<Longrightarrow> list_all isFileName (normalizeStep False acc s)"
  by (auto simp: normalizeStep_def isFileName_def list_all_iff dest: in_set_butlastD)

lemma foldl_stepF_clean:
  "list_all isFileName acc \<Longrightarrow> \<forall>s\<in>set segs. CHR ''/'' \<notin> set s
     \<Longrightarrow> list_all isFileName (foldl (normalizeStep False) acc segs)"
  by (induction segs arbitrary: acc) (simp_all add: stepF_clean)

lemma normalizeString_False: "normalizeString p False = joinWith ''/'' (absSegs p)"
  by (simp add: normalizeString_def absSegs_def)

lemma absSegs_clean: "list_all isFileName (absSegs p)"
  unfolding absSegs_def by (rule foldl_stepF_clean) (auto dest: splitOn_no_sep)

lemma absSegs_append: "absSegs (a @ CHR ''/'' # b) = foldl (normalizeStep False) (absSegs a) (splitOn CHR ''/'' b)"
  by (simp add: absSegs_def splitOn_append)

lemma absSegs_trailing: "absSegs (a @ ''/'') = absSegs a"
  by (simp add: absSegs_append normalizeStep_def)

lemma clean_no_slash: "list_all isFileName segs \<Longrightarrow> \<forall>s\<in>set segs. s \<noteq> [] \<and> CHR ''/'' \<notin> set s"
  by (auto simp: list_all_iff isFileName_def)

lemma absSegs_absPath: "list_all isFileName S \<Longrightarrow> absSegs (absPath S) = S"
proof (cases "S = []")
  case True
  then show ?thesis by (simp add: absSegs_def absPath_def normalizeStep_def)
next
  case False
  assume c: "list_all isFileName S"
  have "splitOn CHR ''/'' (joinWith ''/'' S) = S"
    using False clean_no_slash [OF c] by (simp add: splitOn_joinWith)
  then show ?thesis
    using c by (simp add: absSegs_def absPath_def normalizeStep_def foldl_step_clean)
qed

lemma absPath_inj:
  "list_all isFileName S \<Longrightarrow> list_all isFileName T \<Longrightarrow> absPath S = absPath T \<Longrightarrow> S = T"
  by (metis absSegs_absPath)

lemma path_resolve_abs:
  assumes "path_isAbsolute wd"
  shows "path_resolve wd p = absPath (absSegs (if path_isAbsolute p then p else wd @ ''/'' @ p))"
proof (cases "path_isAbsolute p")
  case True
  then show ?thesis
    using absSegs_trailing [of p]
    by (simp add: path_resolve_def Let_def normalizeString_False absPath_def path_isAbsolute_def)
next
  case False
  have "absSegs (wd @ ''/'' @ p @ ''/'') = absSegs (wd @ ''/'' @ p)"
    using absSegs_trailing [of "wd @ ''/'' @ p"] by simp
  moreover have "absSegs (wd @ ''/'' @ []) = absSegs (wd @ ''/'' @ p)" if "p = []"
    using that by simp
  ultimately show ?thesis
    using False assms
    by (auto simp add: path_resolve_def Let_def normalizeString_False absPath_def path_isAbsolute_def)
qed

lemma path_resolve_absPath:
  "list_all isFileName T \<Longrightarrow> path_resolve wd (absPath T) = absPath T"
  using absSegs_trailing [of "absPath T"]
  by (simp add: path_resolve_def Let_def normalizeString_False absSegs_absPath path_isAbsolute_def)
    (simp add: absPath_def)

lemma joinWith_clean_Nil: "list_all isFileName T \<Longrightarrow> joinWith sep T = [] \<longleftrightarrow> T = []"
  using joinWith_eq_Nil [of sep T] clean_no_slash [of T] by auto

lemma path_join_absPath:
  assumes "list_all isFileName S" "x \<noteq> []" "last x \<noteq> CHR ''/''"
  shows "path_join [absPath S, x] = absPath (foldl (normalizeStep False) S (splitOn CHR ''/'' x))"
proof -
  let ?T = "foldl (normalizeStep False) S (splitOn CHR ''/'' x)"
  have T: "absSegs (absPath S @ ''/'' @ x) = ?T"
    using assms(1) by (simp add: absSegs_append absSegs_absPath)
  have cl: "list_all isFileName ?T"
    using assms(1) by (intro foldl_stepF_clean) (auto dest: splitOn_no_sep)
  have ne: "absPath S \<noteq> []" by (simp add: absPath_def)
  have hd: "hd (absPath S @ ''/'' @ x) = CHR ''/''" by (simp add: absPath_def)
  show ?thesis
    using assms(2,3) ne hd T joinWith_clean_Nil [OF cl, of "''/''"]
    by (simp add: path_join_def path_normalize_def Let_def normalizeString_False)
      (auto simp: absPath_def)
qed

lemma dirnameScan_skip:
  "\<forall>j. 1 \<le> j \<and> j \<le> k \<longrightarrow> path ! (i + j) \<noteq> CHR ''/'' \<Longrightarrow> 0 < k
     \<Longrightarrow> dirnameScan path (i + k) m = dirnameScan path i False"
proof (induction k arbitrary: m)
  case 0
  then show ?case by simp
next
  case (Suc k)
  have nsl: "path ! Suc (i + k) \<noteq> CHR ''/''"
    using Suc.prems(1) [rule_format, of "Suc k"] by simp
  show ?case
  proof (cases "k = 0")
    case True
    with nsl show ?thesis by simp
  next
    case False
    have "dirnameScan path (i + k) False = dirnameScan path i False"
      using Suc.IH [of False] Suc.prems(1) False by simp
    with nsl show ?thesis by simp
  qed
qed

lemma dirnameScan_segment:
  assumes "n \<noteq> []" "CHR ''/'' \<notin> set n"
  shows "dirnameScan (a @ CHR ''/'' # n) (length (a @ CHR ''/'' # n) - 1) True =
           (if a = [] then None else Some (length a))"
proof -
  let ?p = "a @ CHR ''/'' # n"
  have "\<forall>j. 1 \<le> j \<and> j \<le> length n \<longrightarrow> ?p ! (length a + j) \<noteq> CHR ''/''"
  proof (intro allI impI)
    fix j assume j: "1 \<le> j \<and> j \<le> length n"
    then have "?p ! (length a + j) = n ! (j - 1)"
      by (cases j) (simp_all add: nth_append)
    moreover have "n ! (j - 1) \<in> set n" using j by (intro nth_mem) arith
    ultimately show "?p ! (length a + j) \<noteq> CHR ''/''" using assms(2) by metis
  qed
  then have "dirnameScan ?p (length a + length n) True = dirnameScan ?p (length a) False"
    using assms(1) by (intro dirnameScan_skip) simp_all
  moreover have "dirnameScan ?p (length a) False = (if a = [] then None else Some (length a))"
    by (cases "length a") (auto simp add: nth_append)
  ultimately show ?thesis by simp
qed

lemma absPath_snoc:
  "absPath (T @ [n]) = (if T = [] then [] else absPath T) @ CHR ''/'' # n"
  by (cases "T = []") (simp_all add: absPath_def joinWith_snoc)

lemma path_dirname_absPath:
  assumes "list_all isFileName T"
  shows "path_dirname (absPath T) = absPath (butlast T)"
proof (cases T rule: rev_cases)
  case Nil
  then show ?thesis by (simp add: absPath_def path_dirname_def)
next
  case (snoc T0 n)
  with assms have n: "n \<noteq> []" "CHR ''/'' \<notin> set n" and T0: "list_all isFileName T0"
    by (simp_all add: isFileName_def)
  let ?a = "if T0 = [] then [] else absPath T0"
  have scan: "dirnameScan (?a @ CHR ''/'' # n) (length (?a @ CHR ''/'' # n) - 1) True =
           (if ?a = [] then None else Some (length ?a))"
    using n by (rule dirnameScan_segment)
  show ?thesis
  proof (cases "T0 = []")
    case True
    with scan snoc show ?thesis
      by (simp add: path_dirname_def absPath_snoc) (simp add: absPath_def)
  next
    case False
    then have "joinWith ''/'' T0 \<noteq> []"
      using joinWith_clean_Nil [OF T0] by simp
    then have len: "length (absPath T0) \<noteq> 1" "absPath T0 \<noteq> []" "hd (absPath T0) = CHR ''/''"
      by (simp_all add: absPath_def)
    with scan snoc False show ?thesis
      by (simp add: path_dirname_def absPath_snoc)
  qed
qed

lemma folderPrefix_absPath:
  "list_all isFileName S \<Longrightarrow> folderPrefix (absPath S) @ n = absPath (S @ [n])"
  using joinWith_clean_Nil [of S "''/''"]
  by (auto simp: folderPrefix_def absPath_snoc) (simp_all add: absPath_def)

lemma liesDirectlyInside_absPath:
  assumes "list_all isFileName S" "list_all isFileName T"
  shows "liesDirectlyInside (absPath S) (absPath T) \<longleftrightarrow> T \<noteq> [] \<and> butlast T = S"
proof
  assume l: "liesDirectlyInside (absPath S) (absPath T)"
  define n where "n = drop (length (folderPrefix (absPath S))) (absPath T)"
  from l have n: "isFileName n" and "absPath T = folderPrefix (absPath S) @ n"
    unfolding liesDirectlyInside_def n_def by (simp, metis append_take_drop_id)
  then have "absPath T = absPath (S @ [n])"
    using assms(1) by (simp add: folderPrefix_absPath)
  then have "T = S @ [n]"
    using assms n by (intro absPath_inj) simp_all
  then show "T \<noteq> [] \<and> butlast T = S" by simp
next
  assume "T \<noteq> [] \<and> butlast T = S"
  then have T: "T = S @ [last T]" by (metis append_butlast_last_id)
  moreover from \<open>T \<noteq> [] \<and> butlast T = S\<close> have "last T \<in> set T" by simp
  ultimately have "isFileName (last T)" using assms(2) by (simp add: list_all_iff)
  moreover have "absPath T = folderPrefix (absPath S) @ last T"
    using T assms(1) folderPrefix_absPath by metis
  ultimately show "liesDirectlyInside (absPath S) (absPath T)"
    by (simp add: liesDirectlyInside_def)
qed

lemma dirname_iff_inside:
  assumes "list_all isFileName S" "list_all isFileName T" "T \<noteq> []"
  shows "path_dirname (absPath T) = absPath S \<longleftrightarrow> liesDirectlyInside (absPath S) (absPath T)"
proof -
  have "list_all isFileName (butlast T)"
    using assms(2) by (auto simp: list_all_iff dest: in_set_butlastD)
  then have "absPath (butlast T) = absPath S \<longleftrightarrow> butlast T = S"
    using assms(1) absPath_inj by blast
  then show ?thesis
    using assms by (simp add: path_dirname_absPath liesDirectlyInside_absPath)
qed


lemma stepT_rel:
  assumes "list_all relSegment acc" "CHR ''/'' \<notin> set s"
  shows "list_all relSegment (normalizeStep True acc s)"
proof -
  have bl: "list_all relSegment (butlast acc)"
    using assms(1) by (auto simp: list_all_iff dest: in_set_butlastD)
  have up: "relSegment ''..''" by (simp add: relSegment_def)
  have nm: "relSegment s" if "s \<noteq> []" "s \<noteq> ''.''"
    using that assms(2) unfolding relSegment_def isFileName_def by blast
  show ?thesis
    unfolding normalizeStep_def using assms(1) bl up nm by simp
qed

lemma foldl_stepT_rel:
  "list_all relSegment acc \<Longrightarrow> \<forall>s\<in>set segs. CHR ''/'' \<notin> set s
     \<Longrightarrow> list_all relSegment (foldl (normalizeStep True) acc segs)"
  by (induction segs arbitrary: acc) (simp_all add: stepT_rel)

lemma foldl_stepF_snoc_clean:
  "list_all isFileName C \<Longrightarrow> \<forall>s\<in>set xs. CHR ''/'' \<notin> set s \<Longrightarrow> isFileName c
    \<Longrightarrow> normalizeStep False (foldl (normalizeStep False) C xs @ [c]) ''..'' = foldl (normalizeStep False) C xs"
  by (simp add: normalizeStep_def isFileName_def)

lemma relative_then_absolute:
  assumes "list_all isFileName C" "\<forall>s\<in>set segs. CHR ''/'' \<notin> set s"
  shows "foldl (normalizeStep False) C (foldl (normalizeStep True) [] segs) =
         foldl (normalizeStep False) C segs"
  using assms(2)
proof (induction segs rule: rev_induct)
  case Nil
  then show ?case by simp
next
  case (snoc s segs)
  let ?rel = "foldl (normalizeStep True) [] segs"
  let ?A = "foldl (normalizeStep False) C segs"
  have IH: "foldl (normalizeStep False) C ?rel = ?A" using snoc by simp
  have rel: "list_all relSegment ?rel"
    using snoc.prems by (intro foldl_stepT_rel) simp_all
  have s: "CHR ''/'' \<notin> set s" using snoc.prems by simp
  consider (skip) "s = [] \<or> s = ''.''" | (up) "s = ''..''" | (name) "isFileName s"
    unfolding isFileName_def using s by blast
  then show ?case
  proof cases
    case skip
    then have "\<And>b res. normalizeStep b res s = res" by (auto simp: normalizeStep_def)
    then show ?thesis using IH by simp
  next
    case name
    then show ?thesis using IH by (simp add: isFileName_step)
  next
    case up
    show ?thesis
    proof (cases "?rel \<noteq> [] \<and> last ?rel \<noteq> ''..''")
      case False
      then have "normalizeStep True ?rel s = ?rel @ [s]"
        using up by (auto simp: normalizeStep_def)
      then show ?thesis using IH by simp
    next
      case True
      then obtain r0 c where r0: "?rel = r0 @ [c]" "c \<noteq> ''..''"
        by (metis append_butlast_last_id)
      with rel have c: "isFileName c" by (simp add: relSegment_def)
      have "normalizeStep True ?rel s = r0"
        using up r0 by (simp add: normalizeStep_def)
      moreover have "?A = foldl (normalizeStep False) C r0 @ [c]"
        using IH c by (simp add: r0(1) isFileName_step)
      moreover have "normalizeStep False (foldl (normalizeStep False) C r0 @ [c]) ''..'' =
          foldl (normalizeStep False) C r0"
        using c by (simp add: normalizeStep_def isFileName_def)
      ultimately show ?thesis using up by simp
    qed
  qed
qed

lemma hd_joinWith: "x \<noteq> [] \<Longrightarrow> hd (joinWith sep (x # rest)) = hd x"
  by (cases rest) simp_all

lemma relSegment_props: "relSegment s \<Longrightarrow> s \<noteq> [] \<and> CHR ''/'' \<notin> set s"
  by (cases "s = ''..''") (simp_all add: relSegment_def isFileName_def)

lemma relSegment_no_slash: "list_all relSegment xs \<Longrightarrow> \<forall>s\<in>set xs. CHR ''/'' \<notin> set s"
  unfolding list_all_iff using relSegment_props by blast

lemma joinWith_not_absolute:
  assumes "list_all relSegment xs"
  shows "\<not> path_isAbsolute (joinWith ''/'' xs)"
proof (cases xs)
  case Nil
  then show ?thesis by (simp add: path_isAbsolute_def)
next
  case (Cons x rest)
  with assms have "relSegment x" by simp
  then have x: "x \<noteq> []" "CHR ''/'' \<notin> set x"
    using relSegment_props by blast+
  then have "hd x \<in> set x" by simp
  then have "hd x \<noteq> CHR ''/''" using x(2) by metis
  then show ?thesis using x(1) Cons by (simp add: path_isAbsolute_def hd_joinWith)
qed

lemma joinWith_snoc_nonempty: "n \<noteq> [] \<Longrightarrow> joinWith sep (xs @ [n]) \<noteq> []"
  by (cases "xs = []") (simp_all add: joinWith_snoc)

lemma resolve_join_child:
  assumes wd: "path_isAbsolute wd" and folder: "folder \<noteq> []" and n: "isFileName n"
  shows "path_resolve wd (path_join [folder, n]) = folderPrefix (path_resolve wd folder) @ n"
proof -
  let ?q = "folder @ CHR ''/'' # n"
  have nn: "n \<noteq> []" "CHR ''/'' \<notin> set n" using n by (simp_all add: isFileName_def)
  have "last n \<in> set n" using nn(1) by simp
  then have "last n \<noteq> CHR ''/''" using nn(2) by metis
  then have lastq: "last ?q \<noteq> CHR ''/''" using nn(1) by simp
  have split_q: "splitOn CHR ''/'' ?q = splitOn CHR ''/'' folder @ [n]"
    using nn by (simp add: splitOn_append splitOn_id)
  have join: "path_join [folder, n] = path_normalize ?q"
    using folder nn by (simp add: path_join_def)
  show ?thesis
  proof (cases "path_isAbsolute folder")
    case True
    let ?S = "absSegs folder"
    have S: "list_all isFileName ?S" by (rule absSegs_clean)
    have "normalizeString ?q False = joinWith ''/'' (?S @ [n])"
      using n by (simp add: normalizeString_def split_q absSegs_def isFileName_step)
    moreover have "joinWith ''/'' (?S @ [n]) \<noteq> []" using nn(1) by (rule joinWith_snoc_nonempty)
    ultimately have "path_normalize ?q = absPath (?S @ [n])"
      using True lastq by (simp add: path_normalize_def Let_def path_isAbsolute_def absPath_def)
    moreover have "path_resolve wd (absPath (?S @ [n])) = absPath (?S @ [n])"
      using S n by (intro path_resolve_absPath) simp
    moreover have "path_resolve wd folder = absPath ?S"
      using True wd by (simp add: path_resolve_abs)
    ultimately show ?thesis
      using S join by (simp add: folderPrefix_absPath)
  next
    case False
    let ?R0 = "foldl (normalizeStep True) [] (splitOn CHR ''/'' folder)"
    let ?C = "absSegs wd"
    have C: "list_all isFileName ?C" by (rule absSegs_clean)
    have segs: "\<forall>s\<in>set (splitOn CHR ''/'' folder). CHR ''/'' \<notin> set s"
      by (auto dest: splitOn_no_sep)
    have R0: "list_all relSegment ?R0"
      using segs by (intro foldl_stepT_rel) simp_all
    then have R0n: "list_all relSegment (?R0 @ [n])" using n by (simp add: relSegment_def)
    have "normalizeString ?q True = joinWith ''/'' (?R0 @ [n])"
      using n by (simp add: normalizeString_def split_q isFileName_step)
    moreover have ne: "joinWith ''/'' (?R0 @ [n]) \<noteq> []" using nn(1) by (rule joinWith_snoc_nonempty)
    ultimately have norm: "path_normalize ?q = joinWith ''/'' (?R0 @ [n])"
      using False lastq folder by (simp add: path_normalize_def Let_def path_isAbsolute_def)
    have notabs: "\<not> path_isAbsolute (joinWith ''/'' (?R0 @ [n]))"
      using R0n by (rule joinWith_not_absolute)
    have "splitOn CHR ''/'' (joinWith ''/'' (?R0 @ [n])) = ?R0 @ [n]"
      using relSegment_no_slash [OF R0n] by (intro splitOn_joinWith) simp_all
    then have "absSegs (wd @ ''/'' @ joinWith ''/'' (?R0 @ [n])) =
          foldl (normalizeStep False) ?C ?R0 @ [n]"
      using n absSegs_append [of wd "joinWith ''/'' (?R0 @ [n])"] by (simp add: isFileName_step)
    also have "foldl (normalizeStep False) ?C ?R0 = foldl (normalizeStep False) ?C (splitOn CHR ''/'' folder)"
      using C segs by (rule relative_then_absolute)
    finally have 1: "path_resolve wd (path_normalize ?q) =
        absPath (foldl (normalizeStep False) ?C (splitOn CHR ''/'' folder) @ [n])"
      using wd notabs by (simp add: path_resolve_abs norm)
    have 2: "path_resolve wd folder = absPath (foldl (normalizeStep False) ?C (splitOn CHR ''/'' folder))"
      using wd False absSegs_append [of wd folder] by (simp add: path_resolve_abs)
    have "list_all isFileName (foldl (normalizeStep False) ?C (splitOn CHR ''/'' folder))"
      using C segs by (rule foldl_stepF_clean)
    then show ?thesis
      using 1 2 join by (simp add: folderPrefix_absPath)
  qed
qed

section \<open>Serving a cached archive\<close>

lemma splitOn_append_last:
  "c \<notin> set b \<Longrightarrow> splitOn c (a @ b) = butlast (splitOn c a) @ [last (splitOn c a) @ b]"
proof (induction a)
  case Nil
  then show ?case by (simp add: splitOn_id)
next
  case (Cons x a)
  then show ?case
    by (cases "splitOn c a") (auto simp: splitOn_nonempty split: list.splits)
qed

lemma zip_segment:
  "\<exists>xs seg. splitOn CHR ''/'' (pre @ ident @ ''.zip'') = xs @ [seg] \<and> isFileName seg"
proof -
  let ?l = "last (splitOn CHR ''/'' (pre @ ident))"
  have "splitOn CHR ''/'' ((pre @ ident) @ ''.zip'') =
          butlast (splitOn CHR ''/'' (pre @ ident)) @ [?l @ ''.zip'']"
    by (rule splitOn_append_last) simp
  moreover have "CHR ''/'' \<notin> set ?l"
    using splitOn_no_sep [of ?l "CHR ''/''" "pre @ ident"] splitOn_nonempty [of "CHR ''/''" "pre @ ident"]
    by simp
  then have "isFileName (?l @ ''.zip'')"
    by (cases ?l) (auto simp: isFileName_def)
  ultimately show ?thesis by auto
qed

lemma download_path_segments:
  assumes "list_all isFileName S"
  shows "\<exists>T. path_join [absPath S, pre @ ident @ ''.zip''] = absPath T \<and> list_all isFileName T \<and> T \<noteq> []"
proof -
  let ?x = "pre @ ident @ ''.zip''"
  obtain xs seg where xs: "splitOn CHR ''/'' ?x = xs @ [seg]" and seg: "isFileName seg"
    using zip_segment by blast
  let ?T = "foldl (normalizeStep False) S (splitOn CHR ''/'' ?x)"
  have "path_join [absPath S, ?x] = absPath ?T"
    using assms by (intro path_join_absPath) simp_all
  moreover have "list_all isFileName ?T"
    using assms by (intro foldl_stepF_clean) (auto dest: splitOn_no_sep)
  moreover have "?T \<noteq> []"
    using seg by (simp add: xs isFileName_step)
  ultimately show ?thesis by blast
qed

lemma getArchivedFile_value:
  assumes "path_isAbsolute (cwd env)"
  shows "getArchivedFile env ident w =
     (let tmpFolder = path_resolve (cwd env) (tmpFileCacheFolder (config env));
          filePath = path_join [tmpFolder, ''download_'' @ ident @ ''.zip'']
      in if \<not> liesDirectlyInside tmpFolder filePath then (Inl ForbiddenError, w)
         else case map_of (fs w) filePath of
                None \<Rightarrow> (Inl NotFoundError, logEvent (ExistsSync filePath) w)
              | Some f \<Rightarrow>
                  (if isDirectory f then Inl SystemError else Inr (filePath, f),
                   logEvent (ResponseDownload filePath) (logEvent (ExistsSync filePath) w)))"
proof -
  define S where "S = absSegs (if path_isAbsolute (tmpFileCacheFolder (config env))
      then tmpFileCacheFolder (config env) else cwd env @ ''/'' @ tmpFileCacheFolder (config env))"
  have S: "list_all isFileName S" by (simp add: S_def absSegs_clean)
  have R: "path_resolve (cwd env) (tmpFileCacheFolder (config env)) = absPath S"
    using assms by (simp add: path_resolve_abs S_def)
  obtain T where T: "path_join [absPath S, ''download_'' @ ident @ ''.zip''] = absPath T"
    "list_all isFileName T" "T \<noteq> []"
    using download_path_segments [OF S] by blast
  have chk: "path_dirname (absPath T) = absPath S \<longleftrightarrow> liesDirectlyInside (absPath S) (absPath T)"
    using S T(2,3) by (rule dirname_iff_inside)
  have key: "path_resolve (cwd env) (absPath T) = absPath T"
    using T(2) by (rule path_resolve_absPath)
  show ?thesis
    unfolding getArchivedFile_def Let_def R T(1) chk existsSync_def responseDownload_def key
    by (simp add: logEvent_def split: option.split)
qed

text \<open>
  C1. \<^verbatim>\<open>getArchivedFile\<close> serves a file only when the joined path
  \<^verbatim>\<open>tmpFileCacheFolder/download_<id>.zip\<close> lies directly inside the resolved cache folder.
  For every id whose joined path does not, it throws \<open>ForbiddenError\<close> and leaves the world
  as it was: no call of the file system has been made. For a path inside the folder at
  which there is nothing it throws \<open>NotFoundError\<close>, and otherwise it serves the file at
  that path; when a folder is there, sending it fails.
\<close>

theorem getArchivedFile_path_check:
  assumes "path_isAbsolute (cwd env)"
  shows "getArchivedFile env ident w =
     (let tmpFolder = path_resolve (cwd env) (tmpFileCacheFolder (config env));
          filePath = path_join [tmpFolder, ''download_'' @ ident @ ''.zip'']
      in if \<not> liesDirectlyInside tmpFolder filePath then (Inl ForbiddenError, w)
         else case map_of (fs w) filePath of
                None \<Rightarrow> (Inl NotFoundError, logEvent (ExistsSync filePath) w)
              | Some f \<Rightarrow>
                  (if isDirectory f then Inl SystemError else Inr (filePath, f),
                   logEvent (ResponseDownload filePath) (logEvent (ExistsSync filePath) w)))"
  using assms by (rule getArchivedFile_value)

theorem getArchivedFile_path_check_witness:
  "path_isAbsolute (cwd exampleEnv) \<and>
   getArchivedFile exampleEnv ''../secret'' exampleWorld = (Inl ForbiddenError, exampleWorld) \<and>
   fst (getArchivedFile exampleEnv ''/../../etc/passwd'' exampleWorld) = Inl ForbiddenError \<and>
   fst (getArchivedFile exampleEnv ''0000'' exampleWorld) = Inl NotFoundError \<and>
   fst (getArchivedFile exampleEnv ''ab12'' exampleWorld) =
     Inr (''/srv/app/tmp/download_ab12.zip'', \<lparr>ctimeMs = 5, isDirectory = False, entries = []\<rparr>) \<and>
   fst (getArchivedFile exampleEnv ''dir1'' exampleWorld) = Inl SystemError"
proof -
  have h: "path_isAbsolute (cwd exampleEnv)" by code_simp
  note t = getArchivedFile_path_check [OF h]
  show ?thesis
    using h t [of "''../secret''" exampleWorld] t [of "''/../../etc/passwd''" exampleWorld]
      t [of "''0000''" exampleWorld] t [of "''ab12''" exampleWorld] t [of "''dir1''" exampleWorld]
    by code_simp
qed

section \<open>The expiry sweep\<close>

lemma cache_child_key:
  assumes "path_isAbsolute (cwd env)" "isFileName n"
  shows "path_resolve (cwd env) (path_join [tmpFileCacheFolder (config env), n]) =
         folderPrefix (cacheFolder env) @ n"
  unfolding cacheFolder_def using assms
  by (intro resolve_join_child) (simp_all add: config_def)

lemma unlinkSync_file:
  "map_of (fs w) (path_resolve (cwd env) p) = Some f \<Longrightarrow> \<not> isDirectory f \<Longrightarrow>
     unlinkSync env p w =
       (Inr (), logEvent (UnlinkSync p) (w\<lparr>fs := AList.delete (path_resolve (cwd env) p) (fs w)\<rparr>))"
  by (simp add: unlinkSync_def)

lemma unlinkSync_folder:
  "map_of (fs w) (path_resolve (cwd env) p) = Some f \<Longrightarrow> isDirectory f \<Longrightarrow>
     unlinkSync env p w = (Inl SystemError, logEvent (UnlinkSync p) w)"
  by (simp add: unlinkSync_def)

text \<open>The loop when none of the names is an old folder with the name of an archive.\<close>

lemma cleanupLoop_spec:
  assumes "path_isAbsolute (cwd env)"
  shows "distinct ns \<Longrightarrow>
     \<forall>n\<in>set ns. isFileName n \<and> map_of (fs w) (folderPrefix (cacheFolder env) @ n) \<noteq> None \<Longrightarrow>
     \<forall>n\<in>set ns. \<forall>f. regexTest n \<and> map_of (fs w) (folderPrefix (cacheFolder env) @ n) = Some f \<and>
        ctimeMs f < expire \<longrightarrow> \<not> isDirectory f \<Longrightarrow>
     fst (cleanupLoop env expire ns w) = Inr () \<and>
     (\<forall>p. map_of (fs (snd (cleanupLoop env expire ns w))) p =
        (if \<exists>n\<in>set ns. p = folderPrefix (cacheFolder env) @ n \<and> regexTest n \<and>
              (\<exists>f. map_of (fs w) p = Some f \<and> ctimeMs f < expire)
         then None else map_of (fs w) p))"
proof (induction ns arbitrary: w)
  case Nil
  then show ?case by simp
next
  case (Cons n ns)
  let ?pre = "folderPrefix (cacheFolder env)"
  let ?path = "path_join [tmpFileCacheFolder (config env), n]"
  have n: "isFileName n" and ex: "map_of (fs w) (?pre @ n) \<noteq> None"
    using Cons.prems(2) by simp_all
  have key: "path_resolve (cwd env) ?path = ?pre @ n"
    using assms n by (rule cache_child_key)
  have notin: "n \<notin> set ns" and dist: "distinct ns" using Cons.prems(1) by simp_all
  obtain f where f: "map_of (fs w) (?pre @ n) = Some f" using ex by blast
  have rest: "\<forall>m\<in>set ns. isFileName m \<and> map_of (fs w) (?pre @ m) \<noteq> None"
    using Cons.prems(2) by simp
  have free: "\<forall>m\<in>set ns. \<forall>g. regexTest m \<and> map_of (fs w) (?pre @ m) = Some g \<and>
        ctimeMs g < expire \<longrightarrow> \<not> isDirectory g"
    using Cons.prems(3) by simp
  show ?case
  proof (cases "regexTest n")
    case False
    have "cleanupLoop env expire (n # ns) w = cleanupLoop env expire ns w"
      using False by simp
    moreover note Cons.IH [OF dist rest free]
    ultimately show ?thesis using False by auto
  next
    case True
    let ?w1 = "logEvent (StatSync ?path) w"
    have fs1: "fs ?w1 = fs w" by (simp add: logEvent_def)
    have stat: "statSync env ?path w = (Some f, ?w1)"
      by (simp add: statSync_def key f)
    show ?thesis
    proof (cases "ctimeMs f \<ge> expire")
      case keep: True
      have "cleanupLoop env expire (n # ns) w = cleanupLoop env expire ns ?w1"
        using True keep stat by (simp add: Let_def)
      moreover note Cons.IH [of ?w1, unfolded fs1, OF dist rest free]
      ultimately show ?thesis using keep f by auto
    next
      case del: False
      have nodir: "\<not> isDirectory f" using Cons.prems(3) True f del by simp
      let ?w2 = "logEvent (UnlinkSync ?path) (?w1\<lparr>fs := AList.delete (?pre @ n) (fs ?w1)\<rparr>)"
      have unlink: "unlinkSync env ?path ?w1 = (Inr (), ?w2)"
        using unlinkSync_file [of ?w1 env ?path f] f nodir by (simp add: key fs1)
      have fs2: "map_of (fs ?w2) = (map_of (fs w))(?pre @ n := None)"
        by (simp add: logEvent_def delete_conv')
      have step: "cleanupLoop env expire (n # ns) w = cleanupLoop env expire ns ?w2"
        using True del stat unlink by (simp add: Let_def)
      have rest2: "\<forall>m\<in>set ns. isFileName m \<and> map_of (fs ?w2) (?pre @ m) \<noteq> None"
        using rest notin by (auto simp: fs2)
      have free2: "\<forall>m\<in>set ns. \<forall>g. regexTest m \<and> map_of (fs ?w2) (?pre @ m) = Some g \<and>
        ctimeMs g < expire \<longrightarrow> \<not> isDirectory g"
        using free notin by (auto simp: fs2)
      note IH = Cons.IH [OF dist rest2 free2]
      have 1: "fst (cleanupLoop env expire (n # ns) w) = Inr ()"
        using IH step by simp
      have 2: "map_of (fs (snd (cleanupLoop env expire (n # ns) w))) p =
        (if \<exists>m\<in>set (n # ns). p = ?pre @ m \<and> regexTest m \<and>
              (\<exists>g. map_of (fs w) p = Some g \<and> ctimeMs g < expire)
         then None else map_of (fs w) p)" for p
      proof (cases "p = ?pre @ n")
        case same: True
        have "map_of (fs (snd (cleanupLoop env expire ns ?w2))) p = None"
          using IH same by (simp add: fs2 cong: if_cong)
        then show ?thesis using same True del f step by auto
      next
        case other: False
        have "map_of (fs (snd (cleanupLoop env expire ns ?w2))) p =
          (if \<exists>m\<in>set ns. p = ?pre @ m \<and> regexTest m \<and>
              (\<exists>g. map_of (fs w) p = Some g \<and> ctimeMs g < expire)
           then None else map_of (fs w) p)"
          using IH other by (simp add: fs2 cong: if_cong)
        then show ?thesis using other step by auto
      qed
      show ?thesis using 1 2 by blast
    qed
  qed
qed

text \<open>The loop when one of the names is such a folder: \<^verbatim>\<open>unlinkSync\<close> throws.\<close>

lemma cleanupLoop_blocked:
  assumes "path_isAbsolute (cwd env)"
  shows "\<forall>n\<in>set ns. isFileName n \<Longrightarrow>
     \<exists>n\<in>set ns. regexTest n \<and>
        (\<exists>f. map_of (fs w) (folderPrefix (cacheFolder env) @ n) = Some f \<and> isDirectory f \<and>
             ctimeMs f < expire) \<Longrightarrow>
     fst (cleanupLoop env expire ns w) = Inl SystemError"
proof (induction ns arbitrary: w)
  case Nil
  then show ?case by simp
next
  case (Cons n ns)
  let ?pre = "folderPrefix (cacheFolder env)"
  let ?path = "path_join [tmpFileCacheFolder (config env), n]"
  have n: "isFileName n" and names: "\<forall>m\<in>set ns. isFileName m"
    using Cons.prems(1) by simp_all
  have key: "path_resolve (cwd env) ?path = ?pre @ n"
    using assms n by (rule cache_child_key)
  obtain m d where m: "m \<in> set (n # ns)" "regexTest m" "map_of (fs w) (?pre @ m) = Some d"
      "isDirectory d" "ctimeMs d < expire"
    using Cons.prems(2) by blast
  show ?case
  proof (cases "regexTest n")
    case False
    then have "m \<in> set ns" using m(1,2) by auto
    then have "\<exists>k\<in>set ns. regexTest k \<and>
        (\<exists>f. map_of (fs w) (?pre @ k) = Some f \<and> isDirectory f \<and> ctimeMs f < expire)"
      using m by blast
    from Cons.IH [OF names this] show ?thesis using False by simp
  next
    case True
    let ?w1 = "logEvent (StatSync ?path) w"
    have fs1: "fs ?w1 = fs w" by (simp add: logEvent_def)
    show ?thesis
    proof (cases "map_of (fs w) (?pre @ n)")
      case None
      then have "statSync env ?path w = (None, ?w1)" by (simp add: statSync_def key)
      then show ?thesis using True by (simp add: Let_def)
    next
      case (Some f)
      then have stat: "statSync env ?path w = (Some f, ?w1)" by (simp add: statSync_def key)
      show ?thesis
      proof (cases "ctimeMs f \<ge> expire")
        case keep: True
        then have "m \<noteq> n" using m(3,5) Some by auto
        then have "m \<in> set ns" using m(1) by simp
        then have "\<exists>k\<in>set ns. regexTest k \<and>
            (\<exists>f. map_of (fs ?w1) (?pre @ k) = Some f \<and> isDirectory f \<and> ctimeMs f < expire)"
          using m unfolding fs1 by blast
        from Cons.IH [OF names this] show ?thesis using True keep stat by (simp add: Let_def)
      next
        case del: False
        show ?thesis
        proof (cases "isDirectory f")
          case dir: True
          have "unlinkSync env ?path ?w1 = (Inl SystemError, logEvent (UnlinkSync ?path) ?w1)"
            using unlinkSync_folder [of ?w1 env ?path f] Some dir by (simp add: key fs1)
          then show ?thesis using True del stat by (simp add: Let_def)
        next
          case nodir: False
          let ?w2 = "logEvent (UnlinkSync ?path) (?w1\<lparr>fs := AList.delete (?pre @ n) (fs ?w1)\<rparr>)"
          have unlink: "unlinkSync env ?path ?w1 = (Inr (), ?w2)"
            using unlinkSync_file [of ?w1 env ?path f] Some nodir by (simp add: key fs1)
          have fs2: "map_of (fs ?w2) = (map_of (fs w))(?pre @ n := None)"
            by (simp add: logEvent_def delete_conv')
          have "m \<noteq> n" using m(3,4) Some nodir by auto
          then have "m \<in> set ns" "map_of (fs ?w2) (?pre @ m) = Some d"
            using m(1,3) by (simp_all add: fs2)
          then have "\<exists>k\<in>set ns. regexTest k \<and>
              (\<exists>f. map_of (fs ?w2) (?pre @ k) = Some f \<and> isDirectory f \<and> ctimeMs f < expire)"
            using m(2,4,5) by blast
          from Cons.IH [OF names this] show ?thesis
            using True del stat unlink by (simp add: Let_def)
        qed
      qed
    qed
  qed
qed

text \<open>Whatever the loop ends in, it removes nothing but old files with the name of an archive.\<close>

lemma cleanupLoop_frame:
  assumes "path_isAbsolute (cwd env)"
  shows "\<forall>n\<in>set ns. isFileName n \<Longrightarrow>
     map_of (fs (snd (cleanupLoop env expire ns w))) p = map_of (fs w) p \<or>
     map_of (fs (snd (cleanupLoop env expire ns w))) p = None \<and>
     (\<exists>f. map_of (fs w) p = Some f \<and> \<not> isDirectory f \<and> ctimeMs f < expire \<and>
          (\<exists>n\<in>set ns. p = folderPrefix (cacheFolder env) @ n \<and> regexTest n))"
proof (induction ns arbitrary: w)
  case Nil
  then show ?case by simp
next
  case (Cons n ns)
  let ?pre = "folderPrefix (cacheFolder env)"
  let ?path = "path_join [tmpFileCacheFolder (config env), n]"
  have n: "isFileName n" and names: "\<forall>m\<in>set ns. isFileName m"
    using Cons.prems(1) by simp_all
  have key: "path_resolve (cwd env) ?path = ?pre @ n"
    using assms n by (rule cache_child_key)
  show ?case
  proof (cases "regexTest n")
    case False
    then show ?thesis using Cons.IH [OF names, of w] by auto
  next
    case True
    let ?w1 = "logEvent (StatSync ?path) w"
    have fs1: "fs ?w1 = fs w" by (simp add: logEvent_def)
    show ?thesis
    proof (cases "map_of (fs w) (?pre @ n)")
      case None
      then have "statSync env ?path w = (None, ?w1)" by (simp add: statSync_def key)
      then show ?thesis using True by (simp add: Let_def fs1)
    next
      case (Some f)
      then have stat: "statSync env ?path w = (Some f, ?w1)" by (simp add: statSync_def key)
      show ?thesis
      proof (cases "ctimeMs f \<ge> expire")
        case keep: True
        have "cleanupLoop env expire (n # ns) w = cleanupLoop env expire ns ?w1"
          using True keep stat by (simp add: Let_def)
        then show ?thesis using Cons.IH [OF names, of ?w1] unfolding fs1 by auto
      next
        case del: False
        show ?thesis
        proof (cases "isDirectory f")
          case dir: True
          have "unlinkSync env ?path ?w1 = (Inl SystemError, logEvent (UnlinkSync ?path) ?w1)"
            using unlinkSync_folder [of ?w1 env ?path f] Some dir by (simp add: key fs1)
          then show ?thesis using True del stat by (simp add: Let_def logEvent_def)
        next
          case nodir: False
          let ?w2 = "logEvent (UnlinkSync ?path) (?w1\<lparr>fs := AList.delete (?pre @ n) (fs ?w1)\<rparr>)"
          have unlink: "unlinkSync env ?path ?w1 = (Inr (), ?w2)"
            using unlinkSync_file [of ?w1 env ?path f] Some nodir by (simp add: key fs1)
          have fs2: "map_of (fs ?w2) = (map_of (fs w))(?pre @ n := None)"
            by (simp add: logEvent_def delete_conv')
          have step: "cleanupLoop env expire (n # ns) w = cleanupLoop env expire ns ?w2"
            using True del stat unlink by (simp add: Let_def)
          note IH = Cons.IH [OF names, of ?w2]
          show ?thesis
          proof (cases "p = ?pre @ n")
            case same: True
            have "map_of (fs (snd (cleanupLoop env expire ns ?w2))) p = None"
              using IH same by (auto simp: fs2)
            then show ?thesis using same True del Some nodir step by auto
          next
            case other: False
            then have "map_of (fs ?w2) p = map_of (fs w) p" by (simp add: fs2)
            then show ?thesis using IH step by auto
          qed
        qed
      qed
    qed
  qed
qed

lemma readdirSync_value:
  "isFolder w (path_resolve (cwd env) dir) \<Longrightarrow>
     readdirSync env dir w =
       (Inr (remdups (map (drop (length (folderPrefix (path_resolve (cwd env) dir))))
               (filter (liesDirectlyInside (path_resolve (cwd env) dir)) (map fst (fs w))))),
        logEvent (ReaddirSync dir) w)"
  "\<not> isFolder w (path_resolve (cwd env) dir) \<Longrightarrow>
     readdirSync env dir w = (Inl SystemError, logEvent (ReaddirSync dir) w)"
  by (simp_all add: readdirSync_def Let_def)

lemma expiredFolder_iff:
  "expiredFolder env now w \<longleftrightarrow>
     (\<exists>p f. map_of (fs w) p = Some f \<and> isDirectory f \<and> expiredArchive env now p f)"
proof
  assume "expiredFolder env now w"
  then show "\<exists>p f. map_of (fs w) p = Some f \<and> isDirectory f \<and> expiredArchive env now p f"
    by (auto simp: expiredFolder_def list_ex_iff split: option.splits)
next
  assume "\<exists>p f. map_of (fs w) p = Some f \<and> isDirectory f \<and> expiredArchive env now p f"
  then obtain p f where pf: "map_of (fs w) p = Some f" "isDirectory f" "expiredArchive env now p f"
    by blast
  then have "p \<in> fst ` set (fs w)" by (metis map_of_eq_None_iff option.distinct(1))
  then show "expiredFolder env now w"
    using pf unfolding expiredFolder_def list_ex_iff by force
qed

lemma inside_split:
  "liesDirectlyInside d p \<Longrightarrow>
     p = folderPrefix d @ drop (length (folderPrefix d)) p \<and> isFileName (drop (length (folderPrefix d)) p)"
  unfolding liesDirectlyInside_def by (metis append_take_drop_id)

lemma inside_child: "isFileName n \<Longrightarrow> liesDirectlyInside d (folderPrefix d @ n)"
  by (simp add: liesDirectlyInside_def)


lemma expiredArchive_child:
  "isFileName n \<Longrightarrow>
     expiredArchive env now (folderPrefix (cacheFolder env) @ n) f \<longleftrightarrow>
       regexTest n \<and> ctimeMs f < now - 3600 * 1000"
  by (simp add: expiredArchive_def inside_child)

text \<open>The three ways in which a sweep can go.\<close>

lemma cleanupCache_no_folder:
  assumes "\<not> isFolder w (cacheFolder env)"
  shows "cleanupCache env now w =
     (Inl SystemError, logEvent (ReaddirSync (tmpFileCacheFolder (config env))) w)"
  using assms readdirSync_value(2) [of w env "tmpFileCacheFolder (config env)"]
  by (simp add: cleanupCache_def cacheFolder_def Let_def)

lemma cleanupCache_loop:
  assumes "isFolder w (cacheFolder env)"
  shows "cleanupCache env now w =
     cleanupLoop env (now - 3600 * 1000)
       (remdups (map (drop (length (folderPrefix (cacheFolder env))))
                  (filter (liesDirectlyInside (cacheFolder env)) (map fst (fs w)))))
       (logEvent (ReaddirSync (tmpFileCacheFolder (config env))) w)"
  using assms readdirSync_value(1) [of w env "tmpFileCacheFolder (config env)"]
  by (simp add: cleanupCache_def cacheFolder_def Let_def)

lemma listed_names:
  "n \<in> set (remdups (map (drop (length (folderPrefix d)))
                     (filter (liesDirectlyInside d) (map fst (fs w))))) \<longleftrightarrow>
     isFileName n \<and> map_of (fs w) (folderPrefix d @ n) \<noteq> None"
proof
  assume "n \<in> set (remdups (map (drop (length (folderPrefix d)))
                     (filter (liesDirectlyInside d) (map fst (fs w)))))"
  then obtain p where p: "p \<in> fst ` set (fs w)" "liesDirectlyInside d p"
      "n = drop (length (folderPrefix d)) p"
    by auto
  then have "p = folderPrefix d @ n" "isFileName n" using inside_split [of d p] by simp_all
  moreover have "map_of (fs w) p \<noteq> None" using p(1) by (simp add: map_of_eq_None_iff)
  ultimately show "isFileName n \<and> map_of (fs w) (folderPrefix d @ n) \<noteq> None" by simp
next
  assume a: "isFileName n \<and> map_of (fs w) (folderPrefix d @ n) \<noteq> None"
  then have "folderPrefix d @ n \<in> fst ` set (fs w)" by (simp add: map_of_eq_None_iff)
  moreover have "liesDirectlyInside d (folderPrefix d @ n)" using a inside_child by blast
  moreover have "drop (length (folderPrefix d)) (folderPrefix d @ n) = n" by simp
  ultimately show "n \<in> set (remdups (map (drop (length (folderPrefix d)))
                     (filter (liesDirectlyInside d) (map fst (fs w)))))"
    by (metis (mono_tags, lifting) image_eqI mem_Collect_eq set_filter set_map set_remdups)
qed

lemma cleanupCache_frame:
  assumes "path_isAbsolute (cwd env)"
  shows "map_of (fs (snd (cleanupCache env now w))) p = map_of (fs w) p \<or>
         map_of (fs (snd (cleanupCache env now w))) p = None \<and>
         (\<exists>f. map_of (fs w) p = Some f \<and> \<not> isDirectory f \<and> expiredArchive env now p f)"
proof (cases "isFolder w (cacheFolder env)")
  case False
  then show ?thesis by (simp add: cleanupCache_no_folder logEvent_def)
next
  case True
  let ?names = "remdups (map (drop (length (folderPrefix (cacheFolder env))))
                  (filter (liesDirectlyInside (cacheFolder env)) (map fst (fs w))))"
  let ?w1 = "logEvent (ReaddirSync (tmpFileCacheFolder (config env))) w"
  have fs1: "fs ?w1 = fs w" by (simp add: logEvent_def)
  have names: "\<forall>n\<in>set ?names. isFileName n" using listed_names [of _ "cacheFolder env" w] by blast
  note fr = cleanupLoop_frame [OF assms names, of "now - 3600 * 1000" ?w1 p, unfolded fs1]
  show ?thesis
  proof (cases "map_of (fs (snd (cleanupLoop env (now - 3600 * 1000) ?names ?w1))) p = map_of (fs w) p")
    case same: True
    then show ?thesis by (simp add: cleanupCache_loop [OF True])
  next
    case False
    then obtain f n where f: "map_of (fs (snd (cleanupLoop env (now - 3600 * 1000) ?names ?w1))) p = None"
        "map_of (fs w) p = Some f" "\<not> isDirectory f" "ctimeMs f < now - 3600 * 1000"
        "n \<in> set ?names" "p = folderPrefix (cacheFolder env) @ n" "regexTest n"
      using fr by blast
    have "isFileName n" using names f(5) by blast
    then have "expiredArchive env now p f" using f(4,6,7) by (simp add: expiredArchive_child)
    then show ?thesis using f(1,2,3) by (simp add: cleanupCache_loop [OF True])
  qed
qed

lemma cleanupCache_blocked:
  assumes "path_isAbsolute (cwd env)" "isFolder w (cacheFolder env)" "expiredFolder env now w"
  shows "fst (cleanupCache env now w) = Inl SystemError"
proof -
  let ?pre = "folderPrefix (cacheFolder env)"
  let ?names = "remdups (map (drop (length ?pre))
                  (filter (liesDirectlyInside (cacheFolder env)) (map fst (fs w))))"
  let ?w1 = "logEvent (ReaddirSync (tmpFileCacheFolder (config env))) w"
  have fs1: "fs ?w1 = fs w" by (simp add: logEvent_def)
  have names: "\<forall>n\<in>set ?names. isFileName n" using listed_names [of _ "cacheFolder env" w] by blast
  obtain p f where pf: "map_of (fs w) p = Some f" "isDirectory f" "expiredArchive env now p f"
    using assms(3) expiredFolder_iff by blast
  let ?n = "drop (length ?pre) p"
  have l: "liesDirectlyInside (cacheFolder env) p" using pf(3) by (simp add: expiredArchive_def)
  then have p: "p = ?pre @ ?n" and n: "isFileName ?n" using inside_split [OF l] by simp_all
  have "?n \<in> set ?names"
    using listed_names [of ?n "cacheFolder env" w] n p pf(1) by simp
  moreover have "regexTest ?n" "ctimeMs f < now - 3600 * 1000"
    using pf(3) by (simp_all add: expiredArchive_def)
  moreover have "map_of (fs ?w1) (?pre @ ?n) = Some f" using p pf(1) fs1 by simp
  ultimately have "\<exists>n\<in>set ?names. regexTest n \<and>
        (\<exists>f. map_of (fs ?w1) (?pre @ n) = Some f \<and> isDirectory f \<and>
             ctimeMs f < now - 3600 * 1000)"
    using pf(2) by blast
  from cleanupLoop_blocked [OF assms(1) names this]
  show ?thesis by (simp add: cleanupCache_loop [OF assms(2)])
qed

lemma cleanupCache_removes:
  assumes "path_isAbsolute (cwd env)" "isFolder w (cacheFolder env)" "\<not> expiredFolder env now w"
  shows "fst (cleanupCache env now w) = Inr () \<and>
     (\<forall>p. map_of (fs (snd (cleanupCache env now w))) p =
        (case map_of (fs w) p of
           None \<Rightarrow> None
         | Some f \<Rightarrow> if expiredArchive env now p f then None else Some f))"
proof -
  let ?d = "cacheFolder env"
  let ?pre = "folderPrefix ?d"
  let ?names = "remdups (map (drop (length ?pre))
                  (filter (liesDirectlyInside ?d) (map fst (fs w))))"
  let ?w1 = "logEvent (ReaddirSync (tmpFileCacheFolder (config env))) w"
  have fs1: "fs ?w1 = fs w" by (simp add: logEvent_def)
  have dist: "distinct ?names" by simp
  have pre: "\<forall>n\<in>set ?names. isFileName n \<and> map_of (fs ?w1) (?pre @ n) \<noteq> None"
    unfolding fs1 using listed_names [of _ ?d w] by blast
  have free: "\<forall>n\<in>set ?names. \<forall>f. regexTest n \<and> map_of (fs ?w1) (?pre @ n) = Some f \<and>
        ctimeMs f < now - 3600 * 1000 \<longrightarrow> \<not> isDirectory f"
  proof (intro ballI allI impI)
    fix n f
    assume n: "n \<in> set ?names"
      and a: "regexTest n \<and> map_of (fs ?w1) (?pre @ n) = Some f \<and> ctimeMs f < now - 3600 * 1000"
    have "isFileName n" using pre n by blast
    then have "expiredArchive env now (?pre @ n) f" using a by (simp add: expiredArchive_child)
    then show "\<not> isDirectory f" using a assms(3) expiredFolder_iff fs1 by metis
  qed
  have run: "cleanupCache env now w = cleanupLoop env (now - 3600 * 1000) ?names ?w1"
    by (rule cleanupCache_loop [OF assms(2)])
  note loop = cleanupLoop_spec [OF assms(1) dist pre free, unfolded fs1]
  have "map_of (fs (snd (cleanupCache env now w))) p =
        (case map_of (fs w) p of
           None \<Rightarrow> None
         | Some f \<Rightarrow> if expiredArchive env now p f then None else Some f)" for p
  proof (cases "map_of (fs w) p")
    case None
    then show ?thesis using loop by (simp add: run)
  next
    case (Some f)
    have "(\<exists>n\<in>set ?names. p = ?pre @ n \<and> regexTest n \<and>
              (\<exists>g. map_of (fs w) p = Some g \<and> ctimeMs g < now - 3600 * 1000))
          \<longleftrightarrow> expiredArchive env now p f"
    proof
      assume "\<exists>n\<in>set ?names. p = ?pre @ n \<and> regexTest n \<and>
              (\<exists>g. map_of (fs w) p = Some g \<and> ctimeMs g < now - 3600 * 1000)"
      then obtain n where n: "n \<in> set ?names" "p = ?pre @ n" "regexTest n"
          "ctimeMs f < now - 3600 * 1000"
        using Some by auto
      then have "isFileName n" using pre by blast
      then show "expiredArchive env now p f"
        using n by (simp add: expiredArchive_child)
    next
      assume e: "expiredArchive env now p f"
      then have l: "liesDirectlyInside ?d p" by (simp add: expiredArchive_def)
      let ?n = "drop (length ?pre) p"
      have p: "p = ?pre @ ?n" and n: "isFileName ?n" using inside_split [OF l] by simp_all
      have "?n \<in> set ?names" using listed_names [of ?n ?d w] n p Some by simp
      then show "\<exists>n\<in>set ?names. p = ?pre @ n \<and> regexTest n \<and>
              (\<exists>g. map_of (fs w) p = Some g \<and> ctimeMs g < now - 3600 * 1000)"
        using e Some p unfolding expiredArchive_def by blast
    qed
    then show ?thesis using loop Some by (simp add: run)
  qed
  moreover have "fst (cleanupCache env now w) = Inr ()" using loop by (simp add: run)
  ultimately show ?thesis by blast
qed

text \<open>
  C4 as stated, for every run of the sweep, fails when the cache folder holds an old folder
  with the name of an archive: \<^verbatim>\<open>unlinkSync\<close> throws for it, nothing catches the exception,
  and the old archives that come after it in the listing stay. Here the sweep removes
  \<^verbatim>\<open>download_old0.zip\<close> and throws at the folder \<^verbatim>\<open>download_dir1.zip\<close>; \<^verbatim>\<open>download_old1.zip\<close>,
  whose name matches and which is as old, is still there.
\<close>

theorem cleanupCache_blocked_counterexample:
  "path_isAbsolute (cwd exampleEnv) \<and>
   expiredArchive exampleEnv 10000000 ''/srv/app/tmp/download_old1.zip''
     \<lparr>ctimeMs = 1000, isDirectory = False, entries = []\<rparr> \<and>
   map_of (fs blockedCache) ''/srv/app/tmp/download_old1.zip'' =
     Some \<lparr>ctimeMs = 1000, isDirectory = False, entries = []\<rparr> \<and>
   fst (cleanupCache exampleEnv 10000000 blockedCache) = Inl SystemError \<and>
   map_of (fs (snd (cleanupCache exampleEnv 10000000 blockedCache))) ''/srv/app/tmp/download_old0.zip''
     = None \<and>
   map_of (fs (snd (cleanupCache exampleEnv 10000000 blockedCache))) ''/srv/app/tmp/download_old1.zip''
     = Some \<lparr>ctimeMs = 1000, isDirectory = False, entries = []\<rparr>"
  by code_simp

text \<open>
  C4, as amended. A run of \<^verbatim>\<open>cleanupCache\<close> completes exactly when the cache folder is
  there and holds no folder whose name matches \<^verbatim>\<open>/download_(\w+).zip/\<close> and whose \<^verbatim>\<open>ctimeMs\<close>
  is more than \<open>3600 * 1000\<close> ms before the sweep; otherwise it throws. A run that completes
  deletes exactly the files directly inside the cache folder whose name matches and whose
  \<^verbatim>\<open>ctimeMs\<close> is that old: every other file, inside the folder or not, is there afterwards
  as it was. A run that throws has deleted nothing but such files. So in every run every
  file whose name does not match, every file that is newer, and every folder is left
  untouched.
\<close>

theorem cleanupCache_removes_expired_archives:
  assumes "path_isAbsolute (cwd env)"
  shows "fst (cleanupCache env now w) =
           (if isFolder w (cacheFolder env) \<and> \<not> expiredFolder env now w then Inr ()
            else Inl SystemError) \<and>
         (isFolder w (cacheFolder env) \<and> \<not> expiredFolder env now w \<longrightarrow>
            (\<forall>p. map_of (fs (snd (cleanupCache env now w))) p =
               (case map_of (fs w) p of
                  None \<Rightarrow> None
                | Some f \<Rightarrow> if expiredArchive env now p f then None else Some f))) \<and>
         (\<forall>p. map_of (fs (snd (cleanupCache env now w))) p = map_of (fs w) p \<or>
              map_of (fs (snd (cleanupCache env now w))) p = None \<and>
              (\<exists>f. map_of (fs w) p = Some f \<and> \<not> isDirectory f \<and> expiredArchive env now p f))"
proof (intro conjI impI allI)
  show "fst (cleanupCache env now w) =
           (if isFolder w (cacheFolder env) \<and> \<not> expiredFolder env now w then Inr ()
            else Inl SystemError)"
  proof (cases "isFolder w (cacheFolder env)")
    case False
    then show ?thesis by (simp add: cleanupCache_no_folder)
  next
    case True
    then show ?thesis
      using cleanupCache_blocked [OF assms True] cleanupCache_removes [OF assms True]
      by (cases "expiredFolder env now w") simp_all
  qed
next
  fix p
  assume "isFolder w (cacheFolder env) \<and> \<not> expiredFolder env now w"
  then show "map_of (fs (snd (cleanupCache env now w))) p =
               (case map_of (fs w) p of
                  None \<Rightarrow> None
                | Some f \<Rightarrow> if expiredArchive env now p f then None else Some f)"
    using cleanupCache_removes [OF assms, of w now] by blast
next
  fix p
  show "map_of (fs (snd (cleanupCache env now w))) p = map_of (fs w) p \<or>
        map_of (fs (snd (cleanupCache env now w))) p = None \<and>
        (\<exists>f. map_of (fs w) p = Some f \<and> \<not> isDirectory f \<and> expiredArchive env now p f)"
    using assms by (rule cleanupCache_frame)
qed

theorem cleanupCache_removes_expired_archives_witness:
  "path_isAbsolute (cwd exampleEnv) \<and>
   isFolder exampleCache (cacheFolder exampleEnv) \<and> \<not> expiredFolder exampleEnv 10000000 exampleCache \<and>
   fst (cleanupCache exampleEnv 10000000 exampleCache) = Inr () \<and>
   map_of (fs (snd (cleanupCache exampleEnv 10000000 exampleCache))) ''/srv/app/tmp/download_old1.zip'' = None \<and>
   map_of (fs (snd (cleanupCache exampleEnv 10000000 exampleCache))) ''/srv/app/tmp/download_new1.zip''
     = Some \<lparr>ctimeMs = 9000000, isDirectory = False, entries = []\<rparr> \<and>
   map_of (fs (snd (cleanupCache exampleEnv 10000000 exampleCache))) ''/srv/app/tmp/notes.txt''
     = Some \<lparr>ctimeMs = 1000, isDirectory = False, entries = []\<rparr> \<and>
   map_of (fs (snd (cleanupCache exampleEnv 10000000 exampleCache))) ''/srv/app/tmp/logs''
     = Some \<lparr>ctimeMs = 1000, isDirectory = True, entries = []\<rparr> \<and>
   map_of (fs (snd (cleanupCache exampleEnv 10000000 exampleCache))) ''/srv/app/tmp/download_dir2.zip''
     = Some \<lparr>ctimeMs = 9000000, isDirectory = True, entries = []\<rparr> \<and>
   map_of (fs (snd (cleanupCache exampleEnv 10000000 exampleCache))) ''/srv/app/tmp/xdownload_a9_zipped'' = None \<and>
   map_of (fs (snd (cleanupCache exampleEnv 10000000 exampleCache))) ''/srv/app/uploads/download_old1.zip''
     = Some \<lparr>ctimeMs = 1000, isDirectory = False, entries = []\<rparr> \<and>
   isFolder blockedCache (cacheFolder exampleEnv) \<and> expiredFolder exampleEnv 10000000 blockedCache \<and>
   fst (cleanupCache exampleEnv 10000000 blockedCache) = Inl SystemError \<and>
   \<not> isFolder emptyWorld (cacheFolder exampleEnv) \<and>
   fst (cleanupCache exampleEnv 10000000 emptyWorld) = Inl SystemError"
proof -
  have h: "path_isAbsolute (cwd exampleEnv)" by code_simp
  have g: "isFolder exampleCache (cacheFolder exampleEnv)" "\<not> expiredFolder exampleEnv 10000000 exampleCache"
    "isFolder blockedCache (cacheFolder exampleEnv)" "expiredFolder exampleEnv 10000000 blockedCache"
    "\<not> isFolder emptyWorld (cacheFolder exampleEnv)"
    by code_simp+
  note t = cleanupCache_removes_expired_archives [OF h, of 10000000 exampleCache]
  note b = cleanupCache_removes_expired_archives [OF h, of 10000000 blockedCache, THEN conjunct1]
  note e = cleanupCache_removes_expired_archives [OF h, of 10000000 emptyWorld, THEN conjunct1]
  have e1: "expiredArchive exampleEnv 10000000 ''/srv/app/tmp/download_old1.zip''
      \<lparr>ctimeMs = 1000, isDirectory = False, entries = []\<rparr>"
    by code_simp
  have e2: "\<not> expiredArchive exampleEnv 10000000 ''/srv/app/tmp/download_new1.zip''
      \<lparr>ctimeMs = 9000000, isDirectory = False, entries = []\<rparr>"
    by code_simp
  have e3: "\<not> expiredArchive exampleEnv 10000000 ''/srv/app/tmp/notes.txt''
      \<lparr>ctimeMs = 1000, isDirectory = False, entries = []\<rparr>"
    by code_simp
  have e4: "expiredArchive exampleEnv 10000000 ''/srv/app/tmp/xdownload_a9_zipped''
      \<lparr>ctimeMs = 1000, isDirectory = False, entries = []\<rparr>"
    by code_simp
  have e5: "\<not> expiredArchive exampleEnv 10000000 ''/srv/app/uploads/download_old1.zip''
      \<lparr>ctimeMs = 1000, isDirectory = False, entries = []\<rparr>"
    by code_simp
  have e6: "\<not> expiredArchive exampleEnv 10000000 ''/srv/app/tmp/logs''
      \<lparr>ctimeMs = 1000, isDirectory = True, entries = []\<rparr>"
    by code_simp
  have e7: "\<not> expiredArchive exampleEnv 10000000 ''/srv/app/tmp/download_dir2.zip''
      \<lparr>ctimeMs = 9000000, isDirectory = True, entries = []\<rparr>"
    by code_simp
  show ?thesis
    using h g t b e e1 e2 e3 e4 e5 e6 e7 by (simp add: exampleCache_def)
qed

section \<open>The size of a package\<close>

lemma addFiles_Nil: "addFiles cfg [] acc = acc"
  by (simp add: addFiles_def)

lemma addFiles_append: "addFiles cfg (xs @ ys) acc = addFiles cfg ys (addFiles cfg xs acc)"
  by (simp add: addFiles_def add.assoc)

lemma calcFiles_addFiles:
  "calcFiles cfg selected xs acc =
     addFiles cfg (map snd (filter (\<lambda>(index, file). JNum (int index) \<in> set selected) xs)) acc"
proof (induction xs arbitrary: acc)
  case Nil
  then show ?case by (simp add: addFiles_Nil)
next
  case (Cons x xs)
  obtain i f where x: "x = (i, f)" by (cases x)
  show ?case
  proof (cases "JNum (int i) \<in> set selected")
    case True
    have "addFiles cfg (f # rest) acc = addFiles cfg rest (addFiles cfg [f] acc)" for rest
      using addFiles_append [of cfg "[f]" rest acc] by simp
    moreover have "addFiles cfg [f] acc =
        \<lparr> totalSize = totalSize acc + of_int (file_size f) / 1024,
          tooLargeFiles = (if of_int (file_size f) / 1024 > maxFileSize cfg
                           then tooLargeFiles acc @ [file_link f] else tooLargeFiles acc) \<rparr>"
      by (simp add: addFiles_def sizeKB_def)
    ultimately show ?thesis using True Cons.IH by (simp add: x)
  next
    case False
    then show ?thesis using Cons.IH by (simp add: x)
  qed
qed

lemma calcUnits_value:
  "fst (calcUnits cfg db us acc w) =
     (if \<forall>u\<in>set us. Unit db (unitId u) \<noteq> None
      then Inr (addFiles cfg (concat (map (unitFiles db) us)) acc)
      else Inl NotFoundError)"
proof (induction us arbitrary: acc w)
  case Nil
  then show ?case by (simp add: addFiles_Nil)
next
  case (Cons u us)
  show ?case
  proof (cases "Unit db (unitId u)")
    case None
    then show ?thesis by (simp add: Unit_findOne_def)
  next
    case (Some localUnit)
    have uf: "unitFiles db u =
        (if unit_t localUnit = ''file''
         then map snd (filter (\<lambda>(index, file). JNum (int index) \<in> set (files u))
                         (enumerate 0 (unit_files localUnit)))
         else [])"
      using Some by (simp add: unitFiles_def selectedOf_def)
    show ?thesis
      using Cons.IH Some
      by (simp add: Unit_findOne_def uf calcFiles_addFiles addFiles_append addFiles_Nil)
  qed
qed

lemma calcLectures_value:
  "fst (calcLectures cfg db lecs acc w) =
     (if \<forall>lec\<in>set lecs. \<forall>u\<in>set (units lec). Unit db (unitId u) \<noteq> None
      then Inr (addFiles cfg (concat (map (\<lambda>lec. concat (map (unitFiles db) (units lec))) lecs)) acc)
      else Inl NotFoundError)"
proof (induction lecs arbitrary: acc w)
  case Nil
  then show ?case by (simp add: addFiles_Nil)
next
  case (Cons lec lecs)
  obtain r w1 where r: "calcUnits cfg db (units lec) acc w = (r, w1)" by (cases "calcUnits cfg db (units lec) acc w")
  have v: "r = (if \<forall>u\<in>set (units lec). Unit db (unitId u) \<noteq> None
      then Inr (addFiles cfg (concat (map (unitFiles db) (units lec))) acc)
      else Inl NotFoundError)"
    using calcUnits_value [of cfg db "units lec" acc w] r by simp
  show ?case
  proof (cases "\<forall>u\<in>set (units lec). Unit db (unitId u) \<noteq> None")
    case True
    then show ?thesis using r v Cons.IH by (simp add: addFiles_append)
  next
    case False
    then show ?thesis using r v by auto
  qed
qed

lemma calcPackage_value:
  "fst (calcPackage env db pack w) =
     (if allUnitsExist db pack
      then Inr \<lparr> totalSize = sum_list (map sizeKB (selectedFiles db pack)),
                 tooLargeFiles = map file_link
                   (filter (\<lambda>file. sizeKB file > maxFileSize (config env)) (selectedFiles db pack)) \<rparr>
      else Inl NotFoundError)"
proof -
  have "selectedFiles db pack = concat (map (\<lambda>lec. concat (map (unitFiles db) (units lec))) (lectures pack))"
    unfolding selectedFiles_def unitFiles_def by simp
  then show ?thesis
    by (simp add: calcPackage_def calcLectures_value allUnitsExist_def addFiles_def)
qed

text \<open>
  C3. \<^verbatim>\<open>calcPackage\<close> throws \<open>NotFoundError\<close> when a requested unit does not exist. Otherwise
  its \<open>totalSize\<close> is the sum of \<open>size / 1024\<close> over the selected files, and its
  \<open>tooLargeFiles\<close> are the links of the selected files whose \<open>size / 1024\<close> exceeds
  \<open>maxFileSize\<close>, in the order of the request; a unit of another type than \<^verbatim>\<open>file\<close> has
  no selected file.
\<close>

theorem calcPackage_sums_selected_files:
  "fst (calcPackage env db pack w) =
     (if allUnitsExist db pack
      then Inr \<lparr> totalSize = sum_list (map sizeKB (selectedFiles db pack)),
                 tooLargeFiles = map file_link
                   (filter (\<lambda>file. sizeKB file > maxFileSize (config env)) (selectedFiles db pack)) \<rparr>
      else Inl NotFoundError)"
  by (rule calcPackage_value)

theorem calcPackage_sums_selected_files_witness:
  "allUnitsExist exampleDb exampleRequest \<and>
   fst (calcPackage exampleEnv exampleDb exampleRequest emptyWorld) =
     Inr \<lparr>totalSize = 2, tooLargeFiles = []\<rparr> \<and>
   allUnitsExist exampleDb bigRequest \<and>
   fst (calcPackage exampleEnv exampleDb bigRequest emptyWorld) =
     Inr \<lparr>totalSize = 234383 / 4, tooLargeFiles = [''x2.bin'']\<rparr> \<and>
   \<not> allUnitsExist exampleDb missingRequest \<and>
   fst (calcPackage exampleEnv exampleDb missingRequest emptyWorld) = Inl NotFoundError"
  using calcPackage_sums_selected_files [of exampleEnv exampleDb exampleRequest emptyWorld]
    calcPackage_sums_selected_files [of exampleEnv exampleDb bigRequest emptyWorld]
    calcPackage_sums_selected_files [of exampleEnv exampleDb missingRequest emptyWorld]
  by code_simp

section \<open>What the steps of an endpoint leave unchanged\<close>

lemma onlyDbReads_iff:
  "onlyDbReads w w' \<longleftrightarrow> fs w' = fs w \<and> (\<exists>es. events w' = events w @ es \<and> list_all isDbRead es)"
proof
  assume "onlyDbReads w w'"
  then have "fs w' = fs w" "events w' = events w @ drop (length (events w)) (events w')"
    "list_all isDbRead (drop (length (events w)) (events w'))"
    unfolding onlyDbReads_def by (simp_all, metis append_take_drop_id)
  then show "fs w' = fs w \<and> (\<exists>es. events w' = events w @ es \<and> list_all isDbRead es)" by blast
next
  assume "fs w' = fs w \<and> (\<exists>es. events w' = events w @ es \<and> list_all isDbRead es)"
  then show "onlyDbReads w w'" unfolding onlyDbReads_def by auto
qed

lemma onlyDbReads_refl: "onlyDbReads w w"
  by (simp add: onlyDbReads_def)

lemma onlyDbReads_trans: "onlyDbReads a b \<Longrightarrow> onlyDbReads b c \<Longrightarrow> onlyDbReads a c"
  unfolding onlyDbReads_iff by auto

lemma onlyDbReads_log: "isDbRead e \<Longrightarrow> onlyDbReads w (logEvent e w)"
  by (simp add: onlyDbReads_def logEvent_def)

lemma onlyDbReads_step: "onlyDbReads w w1 \<Longrightarrow> isDbRead e \<Longrightarrow> onlyDbReads w (logEvent e w1)"
  using onlyDbReads_log onlyDbReads_trans by blast

lemma onlyDbReads_no_create:
  "onlyDbReads w w' \<Longrightarrow> CreateWriteStream p \<in> set (events w') \<Longrightarrow> CreateWriteStream p \<in> set (events w)"
proof -
  assume a: "onlyDbReads w w'" and c: "CreateWriteStream p \<in> set (events w')"
  from a obtain es where es: "events w' = events w @ es" "list_all isDbRead es"
    unfolding onlyDbReads_iff by blast
  have "\<not> isDbRead (CreateWriteStream p)" by (simp add: isDbRead_def)
  then have "CreateWriteStream p \<notin> set es" using es(2) by (auto simp: list_all_iff)
  then show ?thesis using c es(1) by simp
qed

lemma calcUnits_frame: "onlyDbReads w (snd (calcUnits cfg db us acc w))"
proof (induction us arbitrary: acc w)
  case Nil
  then show ?case by (simp add: onlyDbReads_refl)
next
  case (Cons u us)
  have step: "onlyDbReads w (logEvent (UnitFind (unitId u)) w)"
    by (rule onlyDbReads_log) (simp add: isDbRead_def)
  show ?case
  proof (cases "Unit db (unitId u)")
    case None
    then show ?thesis using step by (simp add: Unit_findOne_def)
  next
    case (Some localUnit)
    then show ?thesis
      using onlyDbReads_trans [OF step Cons.IH]
      by (simp add: Unit_findOne_def)
  qed
qed

lemma calcLectures_frame: "onlyDbReads w (snd (calcLectures cfg db lecs acc w))"
proof (induction lecs arbitrary: acc w)
  case Nil
  then show ?case by (simp add: onlyDbReads_refl)
next
  case (Cons lec lecs)
  obtain r w1 where r: "calcUnits cfg db (units lec) acc w = (r, w1)"
    by (cases "calcUnits cfg db (units lec) acc w")
  then have f1: "onlyDbReads w w1" using calcUnits_frame [of w cfg db "units lec" acc] by simp
  show ?case
  proof (cases r)
    case (Inl e)
    then show ?thesis using r f1 by simp
  next
    case (Inr acc1)
    then show ?thesis using r onlyDbReads_trans [OF f1 Cons.IH] by simp
  qed
qed

lemma calcPackage_frame: "onlyDbReads w (snd (calcPackage env db pack w))"
  by (simp add: calcPackage_def calcLectures_frame)

lemma calcPackage_world_independent:
  "fst (calcPackage env db pack w) = fst (calcPackage env db pack w')"
  by (simp add: calcPackage_value)

lemma loopOutcome_Inr [simp]: "loopOutcome w (Inr x, w') \<longleftrightarrow> fs w' = fs w"
  by (simp add: loopOutcome_def)

lemma loopOutcome_Inl [simp]: "loopOutcome w (Inl e, w') \<longleftrightarrow> fs w' = fs w \<and> laterError e"
  by (simp add: loopOutcome_def)

lemma loopOutcome_fs: "loopOutcome w rw \<Longrightarrow> fs (snd rw) = fs w"
  by (simp add: loopOutcome_def)

lemma loopOutcome_chain: "fs w1 = fs w \<Longrightarrow> loopOutcome w1 rw \<Longrightarrow> loopOutcome w rw"
  by (simp add: loopOutcome_def)

lemma fs_logEvent [simp]: "fs (logEvent e w) = fs w"
  by (simp add: logEvent_def)

lemma createPdf_outcome: "loopOutcome w (createPdf pdf h options w)"
  by (simp add: createPdf_def laterError_def split: option.split)

lemma individualFiles_outcome:
  "loopOutcome w (individualFiles db lecCounter lcName unitCounter ids ar w)"
proof (induction ids arbitrary: ar w)
  case Nil
  then show ?case by simp
next
  case (Cons fileId ids)
  show ?case
  proof (cases "File db fileId")
    case None
    then show ?thesis by (simp add: File_findById_def laterError_def)
  next
    case (Some f)
    have "loopOutcome w (individualFiles db lecCounter lcName unitCounter ids ar' (logEvent (FileFind fileId) w))" for ar'
      using Cons.IH by (simp add: loopOutcome_def)
    then show ?thesis using Some by (simp add: File_findById_def)
  qed
qed

lemma loopOutcome_bind:
  assumes "loopOutcome w (r, w1)" "\<And>x. loopOutcome w1 (k x w1)"
  shows "loopOutcome w (case (r, w1) of (Inl e, w2) \<Rightarrow> (Inl e, w2) | (Inr x, w2) \<Rightarrow> k x w2)"
proof (cases r)
  case (Inl e)
  then show ?thesis using assms(1) by simp
next
  case (Inr x)
  then show ?thesis using assms(1) assms(2) [of x] by (simp add: loopOutcome_def)
qed

lemma individualUnits_outcome:
  "loopOutcome w (individualUnits env db pdf lecCounter lcName us unitCounter ar w)"
proof (induction us arbitrary: unitCounter ar w)
  case Nil
  then show ?case by simp
next
  case (Cons u us)
  let ?w1 = "logEvent (UnitFind (unitId u)) w"
  show ?case
  proof (cases "Unit db (unitId u)")
    case None
    then show ?thesis by (simp add: Unit_findOne_def laterError_def)
  next
    case (Some localUnit)
    show ?thesis
    proof (cases "unit_t localUnit = ''file''")
      case True
      obtain r w2 where r: "individualFiles db lecCounter lcName unitCounter (files u) ar ?w1 = (r, w2)"
        by (cases "individualFiles db lecCounter lcName unitCounter (files u) ar ?w1")
      have o: "loopOutcome w (r, w2)"
        using individualFiles_outcome [of ?w1 db lecCounter lcName unitCounter "files u" ar] r
        by (simp add: loopOutcome_def)
      have "loopOutcome w (case (r, w2) of (Inl e, w2) \<Rightarrow> (Inl e, w2)
          | (Inr ar2, w2) \<Rightarrow> individualUnits env db pdf lecCounter lcName us (unitCounter + 1) ar2 w2)"
        by (rule loopOutcome_bind [OF o]) (rule Cons.IH)
      then show ?thesis using Some True r by (simp add: Unit_findOne_def)
    next
      case False
      let ?h = "individualHead env @ toHtmlForIndividualPDF localUnit @ ''</html>''"
      obtain r w2 where r: "createPdf pdf ?h (individualOptions env) ?w1 = (r, w2)"
        by (cases "createPdf pdf ?h (individualOptions env) ?w1")
      have o: "loopOutcome w (r, w2)"
        using createPdf_outcome [of ?w1 pdf ?h "individualOptions env"] r
        by (simp add: loopOutcome_def)
      have "loopOutcome w (case (r, w2) of (Inl e, w2) \<Rightarrow> (Inl e, w2)
          | (Inr buffer, w2) \<Rightarrow> individualUnits env db pdf lecCounter lcName us (unitCounter + 1)
               (ar @ [ArchiveAppend buffer (entryName lecCounter lcName unitCounter
                    (replaceCharInFilename (unit_name localUnit) @ ''.pdf''))]) w2)"
        by (rule loopOutcome_bind [OF o]) (rule Cons.IH)
      then show ?thesis using Some False r by (simp add: Unit_findOne_def Let_def)
    qed
  qed
qed

lemma individualLectures_outcome:
  "loopOutcome w (individualLectures env db pdf lecs lecCounter ar w)"
proof (induction lecs arbitrary: lecCounter ar w)
  case Nil
  then show ?case by simp
next
  case (Cons lec lecs)
  let ?w1 = "logEvent (LectureFind (lectureId lec)) w"
  show ?case
  proof (cases "Lecture db (lectureId lec)")
    case None
    then show ?thesis by (simp add: Lecture_findOne_def laterError_def)
  next
    case (Some localLecture)
    let ?lc = "replaceCharInFilename (lecture_name localLecture)"
    obtain r w2 where r: "individualUnits env db pdf lecCounter ?lc (units lec) 1 ar ?w1 = (r, w2)"
      by (cases "individualUnits env db pdf lecCounter ?lc (units lec) 1 ar ?w1")
    have o: "loopOutcome w (r, w2)"
      using individualUnits_outcome [of ?w1 env db pdf lecCounter ?lc "units lec" 1 ar] r
      by (simp add: loopOutcome_def)
    have "loopOutcome w (case (r, w2) of (Inl e, w2) \<Rightarrow> (Inl e, w2)
          | (Inr ar2, w2) \<Rightarrow> individualLectures env db pdf lecs (lecCounter + 1) ar2 w2)"
      by (rule loopOutcome_bind [OF o]) (rule Cons.IH)
    then show ?thesis using Some r by (simp add: Lecture_findOne_def Let_def)
  qed
qed

lemma singleFiles_outcome:
  "loopOutcome w (singleFiles env db lecCounter lcName unitCounter ids st w)"
proof (induction ids arbitrary: st w)
  case Nil
  then show ?case by simp
next
  case (Cons fileId ids)
  show ?case
  proof (cases "File db fileId")
    case None
    then show ?thesis by (simp add: File_findById_def laterError_def)
  next
    case (Some f)
    have "loopOutcome w (singleFiles env db lecCounter lcName unitCounter ids st' (logEvent (FileFind fileId) w))" for st'
      using Cons.IH by (simp add: loopOutcome_def)
    then show ?thesis using Some by (simp add: File_findById_def)
  qed
qed

lemma singleContent_outcome:
  "loopOutcome w (singleContent env db lecCounter lcName unitCounter u localUnit st w)"
  by (simp add: singleContent_def singleFiles_outcome)

lemma singleUnits_outcome:
  "loopOutcome w (singleUnits env db lecCounter localLecture lcName us unitCounter solCounter st w)"
proof (induction us arbitrary: unitCounter solCounter st w)
  case Nil
  then show ?case by simp
next
  case (Cons u us)
  let ?w1 = "logEvent (UnitFind (unitId u)) w"
  show ?case
  proof (cases "Unit db (unitId u)")
    case None
    then show ?thesis by (simp add: Unit_findOne_def laterError_def)
  next
    case (Some localUnit)
    obtain r w2 where r: "singleContent env db lecCounter lcName unitCounter u localUnit st ?w1 = (r, w2)"
      by (cases "singleContent env db lecCounter lcName unitCounter u localUnit st ?w1")
    have o: "loopOutcome w (r, w2)"
      using singleContent_outcome [of ?w1 env db lecCounter lcName unitCounter u localUnit st] r
      by (simp add: loopOutcome_def)
    have "loopOutcome w (case (r, w2) of (Inl e, w2) \<Rightarrow> (Inl e, w2)
          | (Inr st1, w2) \<Rightarrow>
              (case singleSolutions localLecture localUnit solCounter st1 of
                 (st2, solCounter2) \<Rightarrow>
                   singleUnits env db lecCounter localLecture lcName us (unitCounter + 1)
                     solCounter2 st2 w2))"
      by (rule loopOutcome_bind [OF o]) (simp add: Cons.IH split: prod.split)
    then show ?thesis using Some r by (simp add: Unit_findOne_def)
  qed
qed

lemma singleLectures_outcome:
  "loopOutcome w (singleLectures env db lecs lecCounter st w)"
proof (induction lecs arbitrary: lecCounter st w)
  case Nil
  then show ?case by simp
next
  case (Cons lec lecs)
  let ?w1 = "logEvent (LectureFind (lectureId lec)) w"
  show ?case
  proof (cases "Lecture db (lectureId lec)")
    case None
    then show ?thesis by (simp add: Lecture_findOne_def laterError_def)
  next
    case (Some localLecture)
    let ?lc = "replaceCharInFilename (lecture_name localLecture)"
    define st1 where "st1 = (if lecCounter > 1
                     then st\<lparr>html := html st @ ''<div id=\"nextPage\" ><h2>Lecture: '' @
                                       lecture_name localLecture @ ''</h2>''\<rparr>
                     else st\<lparr>html := html st @ ''<div><h2>Lecture: '' @
                                       lecture_name localLecture @ ''</h2>''\<rparr>)"
    obtain r w2 where r: "singleUnits env db lecCounter localLecture ?lc (units lec) 1 1 st1 ?w1 = (r, w2)"
      by (cases "singleUnits env db lecCounter localLecture ?lc (units lec) 1 1 st1 ?w1")
    have o: "loopOutcome w (r, w2)"
      using singleUnits_outcome [of ?w1 env db lecCounter localLecture ?lc "units lec" 1 1 st1] r
      by (simp add: loopOutcome_def)
    have "loopOutcome w (case (r, w2) of (Inl e, w2) \<Rightarrow> (Inl e, w2)
          | (Inr st2, w2) \<Rightarrow>
              singleLectures env db lecs (lecCounter + 1) (st2\<lparr>html := html st2 @ ''</div>''\<rparr>) w2)"
      by (rule loopOutcome_bind [OF o]) (rule Cons.IH)
    then show ?thesis using Some r unfolding st1_def by (simp add: Lecture_findOne_def Let_def)
  qed
qed

section \<open>The checks at the start of the two endpoints\<close>

lemma userCanExportCourse_mayExport:
  "userCanExportCourse course user = (if mayExport course user then Inr True else Inl ForbiddenError)"
  by (simp add: userCanExportCourse_def mayExport_def)

text \<open>The two endpoints up to the size check, and after it.\<close>

lemma individual_checked:
  assumes "lectures data \<noteq> []" "Course db (courseName data) = Some course"
    "mayExport course user"
  shows "postDownloadRequestPDFIndividual env db pdf entropy now data user w =
     (case calcPackage env db data (logEvent (CourseFind (courseName data)) w) of
        (Inl e, w2) \<Rightarrow> (Inl e, w2)
      | (Inr pkg, w2) \<Rightarrow>
          if totalSize pkg > maxZipSize (config env) \<or> tooLargeFiles pkg \<noteq> []
          then (Inl BadRequestError, w2)
          else let hash = createFileHash entropy;
                   filePath = path_join [path_resolve (cwd env) (tmpFileCacheFolder (config env)),
                                         ''download_'' @ hash @ ''.zip'']
               in case createWriteStream env now filePath w2 of
                    (Inl e, w3) \<Rightarrow> (Inl e, w3)
                  | (Inr output, w3) \<Rightarrow>
                      (case individualLectures env db pdf (lectures data) 1 [] w3 of
                         (Inl e, w4) \<Rightarrow> (Inl e, w4)
                       | (Inr ar, w4) \<Rightarrow> (Inr hash, writeArchive env filePath ar w4)))"
  using assms
  by (simp add: postDownloadRequestPDFIndividual_def Course_findOne_def
      userCanExportCourse_mayExport)

lemma single_checked:
  assumes "lectures data \<noteq> []" "Course db (courseName data) = Some course"
    "mayExport course user"
  shows "postDownloadRequestPDFSingle env db pdf entropy now data user w =
     (case calcPackage env db data (logEvent (CourseFind (courseName data)) w) of
        (Inl e, w2) \<Rightarrow> (Inl e, w2)
      | (Inr pkg, w2) \<Rightarrow>
          if totalSize pkg > maxZipSize (config env) \<or> tooLargeFiles pkg \<noteq> []
          then (Inl BadRequestError, w2)
          else let data1 = data\<lparr>courseName := courseName data @ ''Single''\<rparr>;
                   hash = createFileHash entropy;
                   filePath = path_join [path_resolve (cwd env) (tmpFileCacheFolder (config env)),
                                         ''download_'' @ hash @ ''.zip'']
               in case createWriteStream env now filePath w2 of
                    (Inl e, w3) \<Rightarrow> (Inl e, w3)
                  | (Inr output, w3) \<Rightarrow>
                      let st0 = \<lparr> html = singleHead env,
                                  solutions = ''<div id=\"nextPage\"><h2><u>Solutions</u></h2>'',
                                  firstSol = False,
                                  archive = [] \<rparr>
                      in case singleLectures env db (lectures data1) 1 st0 w3 of
                           (Inl e, w4) \<Rightarrow> (Inl e, w4)
                         | (Inr st, w4) \<Rightarrow>
                             let html1 = html st @ solutions st @ ''</div></body>'' @ ''</html>'';
                                 name = replaceCharInFilename (course_name course) @ ''.pdf''
                             in case createPdf pdf html1 (singleOptions env course) w4 of
                                  (Inl e, w5) \<Rightarrow> (Inl e, w5)
                                | (Inr buffer, w5) \<Rightarrow>
                                    (Inr hash,
                                     writeArchive env filePath
                                       (archive st @ [ArchiveAppend buffer name]) w5))"
  using assms
  by (simp add: postDownloadRequestPDFSingle_def Course_findOne_def
      userCanExportCourse_mayExport)

lemma createWriteStream_error:
  "fst (createWriteStream env now p w) = Inl e \<Longrightarrow> e = SystemError"
  by (simp add: createWriteStream_def Let_def split: if_splits)

lemma calcPackage_error:
  "fst (calcPackage env db pack w) = Inl e \<Longrightarrow> e = NotFoundError"
  by (simp add: calcPackage_value split: if_splits)

lemma individual_not_forbidden:
  assumes "lectures data \<noteq> []" "Course db (courseName data) = Some course"
    "mayExport course user"
  shows "fst (postDownloadRequestPDFIndividual env db pdf entropy now data user w) \<noteq> Inl ForbiddenError"
proof -
  let ?w1 = "logEvent (CourseFind (courseName data)) w"
  obtain r w2 where c: "calcPackage env db data ?w1 = (r, w2)"
    by (cases "calcPackage env db data ?w1")
  show ?thesis
  proof (cases r)
    case (Inl e)
    then have "e = NotFoundError" using c calcPackage_error [of env db data ?w1 e] by simp
    then show ?thesis using Inl c by (simp add: individual_checked [OF assms])
  next
    case (Inr pkg)
    let ?hash = "createFileHash entropy"
    let ?filePath = "path_join [path_resolve (cwd env) (tmpFileCacheFolder (config env)),
                                         ''download_'' @ ?hash @ ''.zip'']"
    obtain r3 w3 where s: "createWriteStream env now ?filePath w2 = (r3, w3)"
      by (cases "createWriteStream env now ?filePath w2")
    show ?thesis
    proof (cases r3)
      case failed: (Inl e)
      then have "e = SystemError" using s createWriteStream_error [of env now ?filePath w2 e] by simp
      then show ?thesis using failed Inr c s by (simp add: individual_checked [OF assms] Let_def)
    next
      case opened: (Inr opened_stream)
      obtain r4 w4 where l: "individualLectures env db pdf (lectures data) 1 [] w3 = (r4, w4)"
        by (cases "individualLectures env db pdf (lectures data) 1 [] w3")
      have "loopOutcome w3 (r4, w4)"
        using individualLectures_outcome [of w3 env db pdf "lectures data" 1 "[]"] l by simp
      then have "r4 \<noteq> Inl ForbiddenError"
        by (auto simp: loopOutcome_def laterError_def)
      then show ?thesis
        using opened Inr c s l
        by (cases r4) (simp_all add: individual_checked [OF assms] Let_def)
    qed
  qed
qed

lemma single_not_forbidden:
  assumes "lectures data \<noteq> []" "Course db (courseName data) = Some course"
    "mayExport course user"
  shows "fst (postDownloadRequestPDFSingle env db pdf entropy now data user w) \<noteq> Inl ForbiddenError"
proof -
  let ?w1 = "logEvent (CourseFind (courseName data)) w"
  obtain r w2 where c: "calcPackage env db data ?w1 = (r, w2)"
    by (cases "calcPackage env db data ?w1")
  show ?thesis
  proof (cases r)
    case (Inl e)
    then have "e = NotFoundError" using c calcPackage_error [of env db data ?w1 e] by simp
    then show ?thesis using Inl c by (simp add: single_checked [OF assms])
  next
    case (Inr pkg)
    let ?hash = "createFileHash entropy"
    let ?filePath = "path_join [path_resolve (cwd env) (tmpFileCacheFolder (config env)),
                                         ''download_'' @ ?hash @ ''.zip'']"
    let ?st0 = "\<lparr> html = singleHead env,
                           solutions = ''<div id=\"nextPage\"><h2><u>Solutions</u></h2>'',
                           firstSol = False,
                           archive = [] \<rparr>"
    obtain r3 w3 where s: "createWriteStream env now ?filePath w2 = (r3, w3)"
      by (cases "createWriteStream env now ?filePath w2")
    show ?thesis
    proof (cases r3)
      case failed: (Inl e)
      then have "e = SystemError" using s createWriteStream_error [of env now ?filePath w2 e] by simp
      then show ?thesis using failed Inr c s by (simp add: single_checked [OF assms] Let_def)
    next
      case opened: (Inr opened_stream)
      obtain r4 w4 where l: "singleLectures env db (lectures data) 1 ?st0 w3 = (r4, w4)"
        by (cases "singleLectures env db (lectures data) 1 ?st0 w3")
      have "loopOutcome w3 (r4, w4)"
        using singleLectures_outcome [of w3 env db "lectures data" 1 ?st0] l by simp
      then have r4: "r4 \<noteq> Inl ForbiddenError"
        by (auto simp: loopOutcome_def laterError_def)
      show ?thesis
      proof (cases r4)
        case e: (Inl e)
        then show ?thesis using r4 opened Inr c s l by (simp add: single_checked [OF assms] Let_def)
      next
        case st: (Inr st)
        let ?h = "html st @ solutions st @ ''</div></body>'' @ ''</html>''"
        obtain r5 w5 where p: "createPdf pdf ?h (singleOptions env course) w4 = (r5, w5)"
          by (cases "createPdf pdf ?h (singleOptions env course) w4")
        have "loopOutcome w4 (r5, w5)"
          using createPdf_outcome [of w4 pdf ?h "singleOptions env course"] p by simp
        then have "r5 \<noteq> Inl ForbiddenError"
          by (auto simp: loopOutcome_def laterError_def)
        then show ?thesis
          using st opened Inr c s l p
          by (cases r5) (simp_all add: single_checked [OF assms] Let_def)
      qed
    qed
  qed
qed

lemma empty_request_is_bad_request_aux:
  "lectures data = [] \<Longrightarrow>
     postDownloadRequestPDFIndividual env db pdf entropy now data user w = (Inl BadRequestError, w) \<and>
     postDownloadRequestPDFSingle env db pdf entropy now data user w = (Inl BadRequestError, w)"
  by (simp add: postDownloadRequestPDFIndividual_def postDownloadRequestPDFSingle_def)

text \<open>
  C9. For a request body whose \<open>lectures\<close> list is empty, both endpoints throw
  \<open>BadRequestError\<close> at once: whatever the database, the user and the renderer are, and
  with the world as it was, so that no lookup, no authorisation check and no call of the
  file system has taken place.
\<close>

theorem empty_request_is_bad_request:
  assumes "lectures data = []"
  shows "postDownloadRequestPDFIndividual env db pdf entropy now data user w = (Inl BadRequestError, w) \<and>
         postDownloadRequestPDFSingle env db pdf entropy now data user w = (Inl BadRequestError, w)"
  using assms
  by (simp add: postDownloadRequestPDFIndividual_def postDownloadRequestPDFSingle_def)

theorem empty_request_is_bad_request_witness:
  "lectures emptyRequest = [] \<and>
   postDownloadRequestPDFIndividual exampleEnv exampleDb examplePdf exampleEntropy 77 emptyRequest
     outsider exampleWorld = (Inl BadRequestError, exampleWorld) \<and>
   postDownloadRequestPDFSingle exampleEnv exampleDb examplePdf exampleEntropy 77 emptyRequest
     outsider exampleWorld = (Inl BadRequestError, exampleWorld)"
proof -
  have h: "lectures emptyRequest = []" by (simp add: emptyRequest_def)
  show ?thesis
    using h empty_request_is_bad_request [OF h, of exampleEnv exampleDb examplePdf exampleEntropy 77
        outsider exampleWorld]
    by simp
qed

text \<open>
  C8 as stated, for every existing course and every user, fails for a request with an
  empty \<open>lectures\<close> list: a user who may not export the course gets \<open>BadRequestError\<close>,
  not \<open>ForbiddenError\<close>, because the endpoints look at the list first.
\<close>

theorem export_forbidden_counterexample:
  "Course exampleDb (courseName emptyRequest) = Some exampleCourse \<and>
   \<not> mayExport exampleCourse outsider \<and>
   fst (postDownloadRequestPDFIndividual exampleEnv exampleDb examplePdf exampleEntropy 77
          emptyRequest outsider emptyWorld) = Inl BadRequestError \<and>
   fst (postDownloadRequestPDFSingle exampleEnv exampleDb examplePdf exampleEntropy 77
          emptyRequest outsider emptyWorld) = Inl BadRequestError"
  by code_simp

text \<open>
  C8, as amended. For a request with a non-empty \<open>lectures\<close> list whose course exists, and
  for every user, each of the two endpoints throws \<open>ForbiddenError\<close> if and only if the
  user is not an administrator, is not the course's \<open>courseAdmin\<close>, is not among its
  students and is not among its teachers. When it is thrown, the lookup of the course is
  all that has happened: no file has been created.
\<close>

theorem export_forbidden_iff_not_allowed:
  assumes "lectures data \<noteq> []" "Course db (courseName data) = Some course"
  shows "(fst (postDownloadRequestPDFIndividual env db pdf entropy now data user w) = Inl ForbiddenError
            \<longleftrightarrow> \<not> mayExport course user) \<and>
         (fst (postDownloadRequestPDFSingle env db pdf entropy now data user w) = Inl ForbiddenError
            \<longleftrightarrow> \<not> mayExport course user) \<and>
         (\<not> mayExport course user \<longrightarrow>
            postDownloadRequestPDFIndividual env db pdf entropy now data user w =
              (Inl ForbiddenError, logEvent (CourseFind (courseName data)) w) \<and>
            postDownloadRequestPDFSingle env db pdf entropy now data user w =
              (Inl ForbiddenError, logEvent (CourseFind (courseName data)) w))"
proof (cases "mayExport course user")
  case True
  then show ?thesis
    using individual_not_forbidden [OF assms True] single_not_forbidden [OF assms True] by simp
next
  case False
  then show ?thesis
    using assms
    by (simp add: postDownloadRequestPDFIndividual_def postDownloadRequestPDFSingle_def
        Course_findOne_def userCanExportCourse_mayExport)
qed

theorem export_forbidden_iff_not_allowed_witness:
  "lectures exampleRequest \<noteq> [] \<and> Course exampleDb (courseName exampleRequest) = Some exampleCourse \<and>
   \<not> mayExport exampleCourse outsider \<and>
   postDownloadRequestPDFIndividual exampleEnv exampleDb examplePdf exampleEntropy 77 exampleRequest
     outsider emptyWorld = (Inl ForbiddenError, \<lparr>fs = [], events = [CourseFind ''c1'']\<rparr>) \<and>
   postDownloadRequestPDFSingle exampleEnv exampleDb examplePdf exampleEntropy 77 exampleRequest
     outsider emptyWorld = (Inl ForbiddenError, \<lparr>fs = [], events = [CourseFind ''c1'']\<rparr>) \<and>
   mayExport exampleCourse student \<and>
   fst (postDownloadRequestPDFIndividual exampleEnv exampleDb examplePdf exampleEntropy 77 exampleRequest
     student emptyWorld) \<noteq> Inl ForbiddenError \<and>
   fst (postDownloadRequestPDFSingle exampleEnv exampleDb examplePdf exampleEntropy 77 exampleRequest
     student emptyWorld) \<noteq> Inl ForbiddenError"
proof -
  have h1: "lectures exampleRequest \<noteq> []" by code_simp
  have h2: "Course exampleDb (courseName exampleRequest) = Some exampleCourse" by code_simp
  have o: "\<not> mayExport exampleCourse outsider" by code_simp
  have s: "mayExport exampleCourse student" by code_simp
  have e: "logEvent (CourseFind (courseName exampleRequest)) emptyWorld =
      \<lparr>fs = [], events = [CourseFind ''c1'']\<rparr>" by code_simp
  note t = export_forbidden_iff_not_allowed [OF h1 h2, of exampleEnv examplePdf exampleEntropy 77 _ emptyWorld]
  show ?thesis
    using h1 h2 o s t [of outsider] t [of student] by (simp add: e)
qed

text \<open>
  C2 as stated, for every request with too large a package, fails for a user who may
  not export the course: the endpoints check the user before they compute the package, and
  throw \<open>ForbiddenError\<close>.
\<close>

theorem oversize_counterexample:
  "fst (calcPackage exampleEnv exampleDb bigRequest emptyWorld) =
     Inr \<lparr>totalSize = 234383 / 4, tooLargeFiles = [''x2.bin'']\<rparr> \<and>
   fst (postDownloadRequestPDFIndividual exampleEnv exampleDb examplePdf exampleEntropy 77
          bigRequest outsider emptyWorld) = Inl ForbiddenError \<and>
   fst (postDownloadRequestPDFSingle exampleEnv exampleDb examplePdf exampleEntropy 77
          bigRequest outsider emptyWorld) = Inl ForbiddenError"
  by code_simp

text \<open>
  C2, as amended. For a request whose course exists, sent by a user who may export the
  course, and whose package \<^verbatim>\<open>calcPackage\<close> computes: when the total size exceeds
  \<open>maxZipSize\<close> or a selected file exceeds \<open>maxFileSize\<close>, both endpoints throw
  \<open>BadRequestError\<close>, and up to there they have only read the database: no output file
  has been created and nothing has been written.
\<close>

theorem oversize_rejected_before_output:
  assumes "Course db (courseName data) = Some course" "mayExport course user"
    "fst (calcPackage env db data w) = Inr pkg"
    "totalSize pkg > maxZipSize (config env) \<or> tooLargeFiles pkg \<noteq> []"
  shows "fst (postDownloadRequestPDFIndividual env db pdf entropy now data user w) = Inl BadRequestError \<and>
         onlyDbReads w (snd (postDownloadRequestPDFIndividual env db pdf entropy now data user w)) \<and>
         fst (postDownloadRequestPDFSingle env db pdf entropy now data user w) = Inl BadRequestError \<and>
         onlyDbReads w (snd (postDownloadRequestPDFSingle env db pdf entropy now data user w))"
proof (cases "lectures data = []")
  case True
  then show ?thesis
    using empty_request_is_bad_request_aux by (simp add: onlyDbReads_refl)
next
  case False
  let ?w1 = "logEvent (CourseFind (courseName data)) w"
  obtain r w2 where c: "calcPackage env db data ?w1 = (r, w2)"
    by (cases "calcPackage env db data ?w1")
  have r: "r = Inr pkg"
    using c assms(3) calcPackage_world_independent [of env db data ?w1 w] by simp
  have "onlyDbReads w ?w1" by (rule onlyDbReads_log) (simp add: isDbRead_def)
  moreover have "onlyDbReads ?w1 w2" using calcPackage_frame [of ?w1 env db data] c by simp
  ultimately have f: "onlyDbReads w w2" by (rule onlyDbReads_trans)
  show ?thesis
    using c r f assms(4)
    by (simp add: individual_checked [OF False assms(1,2)] single_checked [OF False assms(1,2)])
qed

theorem oversize_rejected_before_output_witness:
  "Course exampleDb (courseName bigRequest) = Some exampleCourse \<and> mayExport exampleCourse student \<and>
   fst (calcPackage exampleEnv exampleDb bigRequest emptyWorld) =
     Inr \<lparr>totalSize = 234383 / 4, tooLargeFiles = [''x2.bin'']\<rparr> \<and>
   (234383 / 4 > maxZipSize (config exampleEnv) \<or> [''x2.bin''] \<noteq> []) \<and>
   fst (postDownloadRequestPDFIndividual exampleEnv exampleDb examplePdf exampleEntropy 77 bigRequest
     student emptyWorld) = Inl BadRequestError \<and>
   onlyDbReads emptyWorld (snd (postDownloadRequestPDFIndividual exampleEnv exampleDb examplePdf
     exampleEntropy 77 bigRequest student emptyWorld)) \<and>
   fst (postDownloadRequestPDFSingle exampleEnv exampleDb examplePdf exampleEntropy 77 bigRequest
     student emptyWorld) = Inl BadRequestError \<and>
   onlyDbReads emptyWorld (snd (postDownloadRequestPDFSingle exampleEnv exampleDb examplePdf
     exampleEntropy 77 bigRequest student emptyWorld))"
proof -
  have h1: "Course exampleDb (courseName bigRequest) = Some exampleCourse" by code_simp
  have h2: "mayExport exampleCourse student" by code_simp
  have h3: "fst (calcPackage exampleEnv exampleDb bigRequest emptyWorld) =
     Inr \<lparr>totalSize = 234383 / 4, tooLargeFiles = [''x2.bin'']\<rparr>" by code_simp
  have h4: "totalSize \<lparr>totalSize = 234383 / 4, tooLargeFiles = [''x2.bin'']\<rparr> > maxZipSize (config exampleEnv)
      \<or> tooLargeFiles \<lparr>totalSize = 234383 / 4, tooLargeFiles = [''x2.bin'']\<rparr> \<noteq> []" by simp
  show ?thesis
    using h1 h2 h3 oversize_rejected_before_output [OF h1 h2 h3 h4, of examplePdf exampleEntropy 77]
    by simp
qed

section \<open>The archive of the individual export\<close>

lemma hexDigit_in: "k < 16 \<Longrightarrow> hexDigits ! k \<in> set hexDigits"
proof -
  assume "k < 16"
  moreover have "length hexDigits = 16" by (simp add: hexDigits_def)
  ultimately show ?thesis using nth_mem [of k hexDigits] by simp
qed

lemma toStringHex_length: "length (toStringHex bytes) = 2 * length bytes"
  by (induction bytes) (simp_all add: toStringHex_def)

lemma toStringHex_chars: "list_all (\<lambda>c. c \<in> set hexDigits) (toStringHex bytes)"
proof (induction bytes)
  case Nil
  then show ?case by (simp add: toStringHex_def)
next
  case (Cons b bytes)
  have "unat b < 256" using unsigned_less [of b] by simp
  then have "unat b div 16 < 16" "unat b mod 16 < 16" by simp_all
  then have "hexDigits ! (unat b div 16) \<in> set hexDigits" "hexDigits ! (unat b mod 16) \<in> set hexDigits"
    using hexDigit_in by blast+
  then show ?case using Cons by (simp add: toStringHex_def)
qed

lemma createFileHash_hex: "isHexHash (createFileHash entropy)"
  by (simp add: isHexHash_def createFileHash_def toStringHex_length toStringHex_chars randomBytes_def)

lemma hex_no_slash: "list_all (\<lambda>c. c \<in> set hexDigits) h \<Longrightarrow> CHR ''/'' \<notin> set h"
proof -
  assume a: "list_all (\<lambda>c. c \<in> set hexDigits) h"
  have "CHR ''/'' \<notin> set hexDigits" by (simp add: hexDigits_def)
  then show ?thesis using a by (auto simp: list_all_iff)
qed

lemma download_name_isFileName:
  assumes "CHR ''/'' \<notin> set h"
  shows "isFileName (''download_'' @ h @ ''.zip'')"
  unfolding isFileName_def using assms by simp

lemma join_child:
  assumes "path_isAbsolute wd" "isFileName n"
  shows "path_join [path_resolve wd folder, n] = folderPrefix (path_resolve wd folder) @ n"
    and "path_resolve wd (folderPrefix (path_resolve wd folder) @ n) = folderPrefix (path_resolve wd folder) @ n"
proof -
  define S where "S = absSegs (if path_isAbsolute folder then folder else wd @ ''/'' @ folder)"
  have S: "list_all isFileName S" by (simp add: S_def absSegs_clean)
  have R: "path_resolve wd folder = absPath S"
    using assms(1) by (simp add: path_resolve_abs S_def)
  have n: "n \<noteq> []" "CHR ''/'' \<notin> set n" using assms(2) by (simp_all add: isFileName_def)
  have "last n \<in> set n" using n(1) by simp
  then have ln: "last n \<noteq> CHR ''/''" using n(2) by metis
  have "path_join [absPath S, n] = absPath (foldl (normalizeStep False) S (splitOn CHR ''/'' n))"
    using S n(1) ln by (rule path_join_absPath)
  also have "\<dots> = absPath (S @ [n])"
    using n(2) assms(2) by (simp add: splitOn_id isFileName_step)
  also have "\<dots> = folderPrefix (absPath S) @ n"
    using S by (simp add: folderPrefix_absPath)
  finally show "path_join [path_resolve wd folder, n] = folderPrefix (path_resolve wd folder) @ n"
    by (simp add: R)
  have "path_resolve wd (absPath (S @ [n])) = absPath (S @ [n])"
    using S assms(2) by (intro path_resolve_absPath) simp
  then show "path_resolve wd (folderPrefix (path_resolve wd folder) @ n) = folderPrefix (path_resolve wd folder) @ n"
    using S by (simp add: R folderPrefix_absPath)
qed

lemma cachePath_join:
  assumes "path_isAbsolute (cwd env)" "CHR ''/'' \<notin> set h"
  shows "path_join [path_resolve (cwd env) (tmpFileCacheFolder (config env)), ''download_'' @ h @ ''.zip'']
           = cachePath env h"
    and "path_resolve (cwd env) (cachePath env h) = cachePath env h"
    and "liesDirectlyInside (cacheFolder env) (cachePath env h)"
  using join_child [OF assms(1) download_name_isFileName [OF assms(2)], of "tmpFileCacheFolder (config env)"]
    inside_child [OF download_name_isFileName [OF assms(2)], of "cacheFolder env"]
  unfolding cachePath_def cacheFolder_def by simp_all

lemma individualFiles_entries:
  "fst (individualFiles db lecCounter lcName unitCounter ids ar w) = Inr ar'
     \<Longrightarrow> ar' = ar @ fileEntries individualSource db lecCounter lcName unitCounter ids"
proof (induction ids arbitrary: ar w)
  case Nil
  then show ?case by (simp add: fileEntries_def)
next
  case (Cons fileId ids)
  show ?case
  proof (cases "File db fileId")
    case None
    then show ?thesis using Cons.prems by (simp add: File_findById_def)
  next
    case (Some f)
    let ?ar2 = "ar @ [ArchiveFile (''uploads/'' @ file_link f)
                       (entryName lecCounter lcName unitCounter (file_name f))]"
    have "fst (individualFiles db lecCounter lcName unitCounter ids ?ar2
                 (logEvent (FileFind fileId) w)) = Inr ar'"
      using Cons.prems Some by (simp add: File_findById_def)
    from Cons.IH [OF this] show ?thesis using Some by (simp add: fileEntries_def individualSource_def)
  qed
qed

lemma individualUnits_entries:
  "fst (individualUnits env db pdf lecCounter lcName us unitCounter ar w) = Inr ar'
     \<Longrightarrow> ar' = ar @ concat (map (\<lambda>(j, u). unitEntries env db pdf lecCounter lcName j u)
                               (enumerate unitCounter us))"
proof (induction us arbitrary: unitCounter ar w)
  case Nil
  then show ?case by simp
next
  case (Cons u us)
  let ?w1 = "logEvent (UnitFind (unitId u)) w"
  show ?case
  proof (cases "Unit db (unitId u)")
    case None
    then show ?thesis using Cons.prems by (simp add: Unit_findOne_def)
  next
    case (Some localUnit)
    show ?thesis
    proof (cases "unit_t localUnit = ''file''")
      case True
      obtain r w2 where r: "individualFiles db lecCounter lcName unitCounter (files u) ar ?w1 = (r, w2)"
        by (cases "individualFiles db lecCounter lcName unitCounter (files u) ar ?w1")
      show ?thesis
      proof (cases r)
        case (Inl e)
        then show ?thesis using Cons.prems Some True r by (simp add: Unit_findOne_def)
      next
        case (Inr ar2)
        have ar2: "ar2 = ar @ unitEntries env db pdf lecCounter lcName unitCounter u"
          using individualFiles_entries [of db lecCounter lcName unitCounter "files u" ar ?w1 ar2]
            r Inr Some True by (simp add: unitEntries_def)
        have "fst (individualUnits env db pdf lecCounter lcName us (Suc unitCounter) ar2 w2) = Inr ar'"
          using Cons.prems Some True r Inr by (simp add: Unit_findOne_def)
        from Cons.IH [OF this] show ?thesis by (simp add: ar2)
      qed
    next
      case False
      let ?h = "individualHead env @ toHtmlForIndividualPDF localUnit @ ''</html>''"
      show ?thesis
      proof (cases "pdf ?h (individualOptions env)")
        case None
        then show ?thesis
          using Cons.prems Some False by (simp add: Unit_findOne_def createPdf_def Let_def)
      next
        case buf: (Some buffer)
        let ?ar2 = "ar @ [ArchiveAppend buffer (entryName lecCounter lcName unitCounter
                    (replaceCharInFilename (unit_name localUnit) @ ''.pdf''))]"
        have ar2: "?ar2 = ar @ unitEntries env db pdf lecCounter lcName unitCounter u"
          using Some False buf by (simp add: unitEntries_def)
        have "fst (individualUnits env db pdf lecCounter lcName us (Suc unitCounter) ?ar2
                (logEvent (PdfCreate ?h) ?w1)) = Inr ar'"
          using Cons.prems Some False buf by (simp add: Unit_findOne_def createPdf_def Let_def)
        from Cons.IH [OF this] show ?thesis using ar2 by simp
      qed
    qed
  qed
qed

lemma individualLectures_entries:
  "fst (individualLectures env db pdf lecs lecCounter ar w) = Inr ar'
     \<Longrightarrow> ar' = ar @ concat (map (\<lambda>(i, lec). lectureEntries env db pdf i lec)
                               (enumerate lecCounter lecs))"
proof (induction lecs arbitrary: lecCounter ar w)
  case Nil
  then show ?case by simp
next
  case (Cons lec lecs)
  let ?w1 = "logEvent (LectureFind (lectureId lec)) w"
  show ?case
  proof (cases "Lecture db (lectureId lec)")
    case None
    then show ?thesis using Cons.prems by (simp add: Lecture_findOne_def)
  next
    case (Some localLecture)
    let ?lc = "replaceCharInFilename (lecture_name localLecture)"
    obtain r w2 where r: "individualUnits env db pdf lecCounter ?lc (units lec) 1 ar ?w1 = (r, w2)"
      by (cases "individualUnits env db pdf lecCounter ?lc (units lec) 1 ar ?w1")
    show ?thesis
    proof (cases r)
      case (Inl e)
      then show ?thesis using Cons.prems Some r by (simp add: Lecture_findOne_def Let_def)
    next
      case (Inr ar2)
      have ar2: "ar2 = ar @ lectureEntries env db pdf lecCounter lec"
        using individualUnits_entries [of env db pdf lecCounter ?lc "units lec" 1 ar ?w1 ar2] r Inr Some
        by (simp add: lectureEntries_def)
      have "fst (individualLectures env db pdf lecs (Suc lecCounter) ar2 w2) = Inr ar'"
        using Cons.prems Some r Inr by (simp add: Lecture_findOne_def Let_def)
      from Cons.IH [OF this] show ?thesis by (simp add: ar2)
    qed
  qed
qed

section \<open>A successful individual export\<close>

lemma createWriteStream_file:
  "createWriteStream env now p w = (Inr opened, w3) \<Longrightarrow>
     map_of (fs w3) (path_resolve (cwd env) p) =
       Some \<lparr>ctimeMs = now, isDirectory = False, entries = []\<rparr>"
  by (auto simp: createWriteStream_def Let_def logEvent_def update_conv' split: if_splits)

lemma writeArchive_file:
  "map_of (fs w) (path_resolve (cwd env) p) = Some f
     \<Longrightarrow> map_of (fs (writeArchive env p es w)) (path_resolve (cwd env) p) = Some (f\<lparr>entries := es\<rparr>)"
  by (simp add: writeArchive_def update_conv')

lemma writeArchive_events: "events (writeArchive env p es w) = events w"
  by (simp add: writeArchive_def split: option.split)

text \<open>What a successful run of the individual export has gone through.\<close>

lemma individual_success:
  assumes "fst (postDownloadRequestPDFIndividual env db pdf entropy now data user w) = Inr hash"
  obtains course pkg w2 w3 ar w4 where
    "lectures data \<noteq> []" "Course db (courseName data) = Some course" "mayExport course user"
    "hash = createFileHash entropy"
    "createWriteStream env now
       (path_join [path_resolve (cwd env) (tmpFileCacheFolder (config env)),
                   ''download_'' @ hash @ ''.zip'']) w2 = (Inr (), w3)"
    "individualLectures env db pdf (lectures data) 1 [] w3 = (Inr ar, w4)"
    "snd (postDownloadRequestPDFIndividual env db pdf entropy now data user w) =
       writeArchive env
         (path_join [path_resolve (cwd env) (tmpFileCacheFolder (config env)),
                     ''download_'' @ hash @ ''.zip'']) ar w4"
proof -
  have ne: "lectures data \<noteq> []"
    using assms by (auto simp: postDownloadRequestPDFIndividual_def)
  obtain course where course: "Course db (courseName data) = Some course"
    using assms ne
    by (cases "Course db (courseName data)")
       (auto simp: postDownloadRequestPDFIndividual_def Course_findOne_def)
  have may: "mayExport course user"
    using assms ne course
    by (cases "mayExport course user")
       (auto simp: postDownloadRequestPDFIndividual_def Course_findOne_def userCanExportCourse_mayExport)
  note unf = individual_checked [OF ne course may, of env pdf entropy now w]
  let ?w1 = "logEvent (CourseFind (courseName data)) w"
  obtain r w2 where c: "calcPackage env db data ?w1 = (r, w2)"
    by (cases "calcPackage env db data ?w1")
  obtain pkg where pkg: "r = Inr pkg"
    using assms c unf by (cases r) simp_all
  have ok: "\<not> (totalSize pkg > maxZipSize (config env) \<or> tooLargeFiles pkg \<noteq> [])"
    using assms c unf pkg by (auto split: if_splits)
  let ?p = "path_join [path_resolve (cwd env) (tmpFileCacheFolder (config env)),
                      ''download_'' @ createFileHash entropy @ ''.zip'']"
  obtain r3 w3 where o: "createWriteStream env now ?p w2 = (r3, w3)"
    by (cases "createWriteStream env now ?p w2")
  have r3: "r3 = Inr ()"
    using assms c pkg ok o unfolding unf by (cases r3) (simp_all add: Let_def)
  obtain r4 w4 where l: "individualLectures env db pdf (lectures data) 1 [] w3 = (r4, w4)"
    by (cases "individualLectures env db pdf (lectures data) 1 [] w3")
  have full: "postDownloadRequestPDFIndividual env db pdf entropy now data user w =
      (case r4 of Inl e \<Rightarrow> (Inl e, w4) | Inr ar \<Rightarrow> (Inr (createFileHash entropy), writeArchive env ?p ar w4))"
    using c pkg ok o r3 l unfolding unf by (simp add: Let_def split: sum.split)
  obtain ar where ar: "r4 = Inr ar"
    using assms full by (cases r4) simp_all
  have h: "hash = createFileHash entropy" using assms full ar by simp
  have o': "createWriteStream env now
       (path_join [path_resolve (cwd env) (tmpFileCacheFolder (config env)),
                   ''download_'' @ hash @ ''.zip'']) w2 = (Inr (), w3)"
    using o r3 h by simp
  have l': "individualLectures env db pdf (lectures data) 1 [] w3 = (Inr ar, w4)"
    using l ar by simp
  have s': "snd (postDownloadRequestPDFIndividual env db pdf entropy now data user w) =
       writeArchive env
         (path_join [path_resolve (cwd env) (tmpFileCacheFolder (config env)),
                     ''download_'' @ hash @ ''.zip'']) ar w4"
    using full ar h by simp
  show ?thesis by (rule that [OF ne course may h o' l' s'])
qed

lemma createFileHash_no_slash: "CHR ''/'' \<notin> set (createFileHash entropy)"
  using createFileHash_hex [of entropy] hex_no_slash by (simp add: isHexHash_def)

lemma individual_archive_file:
  assumes "path_isAbsolute (cwd env)"
    "fst (postDownloadRequestPDFIndividual env db pdf entropy now data user w) = Inr hash"
  shows "map_of (fs (snd (postDownloadRequestPDFIndividual env db pdf entropy now data user w)))
           (cachePath env hash) =
         Some \<lparr>ctimeMs = now, isDirectory = False, entries = individualEntries env db pdf data\<rparr>"
proof -
  let ?p = "path_join [path_resolve (cwd env) (tmpFileCacheFolder (config env)),
                      ''download_'' @ hash @ ''.zip'']"
  from assms(2) obtain w2 w3 ar w4 where
    h: "hash = createFileHash entropy" and
    o: "createWriteStream env now ?p w2 = (Inr (), w3)" and
    l: "individualLectures env db pdf (lectures data) 1 [] w3 = (Inr ar, w4)" and
    s: "snd (postDownloadRequestPDFIndividual env db pdf entropy now data user w) = writeArchive env ?p ar w4"
    by (rule individual_success)
  have ns: "CHR ''/'' \<notin> set hash" using h createFileHash_no_slash by simp
  have p: "?p = cachePath env hash" "path_resolve (cwd env) (cachePath env hash) = cachePath env hash"
    using cachePath_join [OF assms(1) ns] by simp_all
  have o2: "createWriteStream env now (cachePath env hash) w2 = (Inr (), w3)"
    using o unfolding p(1) .
  have s2: "snd (postDownloadRequestPDFIndividual env db pdf entropy now data user w) =
      writeArchive env (cachePath env hash) ar w4"
    using s unfolding p(1) .
  have "map_of (fs w3) (cachePath env hash) =
      Some \<lparr>ctimeMs = now, isDirectory = False, entries = []\<rparr>"
    using createWriteStream_file [OF o2] p(2) by simp
  moreover have "fs w4 = fs w3"
    using individualLectures_outcome [of w3 env db pdf "lectures data" 1 "[]"] l
    by (simp add: loopOutcome_def)
  ultimately have "map_of (fs w4) (path_resolve (cwd env) (cachePath env hash)) =
      Some \<lparr>ctimeMs = now, isDirectory = False, entries = []\<rparr>"
    using p(2) by simp
  from writeArchive_file [OF this, of ar]
  have "map_of (fs (writeArchive env (cachePath env hash) ar w4)) (cachePath env hash) =
      Some \<lparr>ctimeMs = now, isDirectory = False, entries = ar\<rparr>"
    using p(2) by simp
  moreover have "ar = individualEntries env db pdf data"
    using individualLectures_entries [of env db pdf "lectures data" 1 "[]" w3 ar] l
    by (simp add: individualEntries_def)
  ultimately show ?thesis using s2 by simp
qed


text \<open>
  C6. When \<^verbatim>\<open>postDownloadRequestPDFIndividual\<close> returns a hash, the archive written for
  it holds, for every requested unit in the order of the request: each requested file of
  a unit of type \<^verbatim>\<open>file\<close>, as it is, under
  \<^verbatim>\<open><lecCounter>_<sanitised lecture name>/<unitCounter>_<file name>\<close>, and for a unit of
  another type the PDF that the renderer makes of the unit, under
  \<^verbatim>\<open><lecCounter>_<sanitised lecture name>/<unitCounter>_<sanitised unit name>.pdf\<close>; the
  counters of lectures and of units start at 1 and follow the request.
\<close>

theorem individual_archive_entries:
  assumes "path_isAbsolute (cwd env)"
    "fst (postDownloadRequestPDFIndividual env db pdf entropy now data user w) = Inr hash"
  shows "map_of (fs (snd (postDownloadRequestPDFIndividual env db pdf entropy now data user w)))
           (cachePath env hash) =
         Some \<lparr>ctimeMs = now, isDirectory = False, entries = individualEntries env db pdf data\<rparr>"
  using assms by (rule individual_archive_file)

theorem individual_archive_entries_witness:
  "path_isAbsolute (cwd exampleEnv) \<and>
   fst (postDownloadRequestPDFIndividual exampleEnv exampleDb examplePdf exampleEntropy 77
          exampleRequest student freshWorld) = Inr ''031425364758697a8b9cadbecfe0f102'' \<and>
   map_of (fs (snd (postDownloadRequestPDFIndividual exampleEnv exampleDb examplePdf exampleEntropy 77
          exampleRequest student freshWorld)))
     ''/srv/app/tmp/download_031425364758697a8b9cadbecfe0f102.zip'' =
     Some \<lparr>ctimeMs = 77, isDirectory = False,
            entries = [ArchiveFile ''uploads/x1.txt'' ''1_Week-1-Basics/1_a.txt'',
                       ArchiveAppend ''%PDF <body>quiz</body></html>'' ''1_Week-1-Basics/2_Quiz-1.pdf'',
                       ArchiveAppend ''%PDF body>notes</body></html>'' ''2_Week-2/1_Notes.pdf'',
                       ArchiveAppend ''%PDF <body>kata</body></html>'' ''2_Week-2/2_Kata.pdf'']\<rparr>"
proof -
  have h1: "path_isAbsolute (cwd exampleEnv)" by code_simp
  have h2: "fst (postDownloadRequestPDFIndividual exampleEnv exampleDb examplePdf exampleEntropy 77
          exampleRequest student freshWorld) = Inr ''031425364758697a8b9cadbecfe0f102''" by code_simp
  have e1: "cachePath exampleEnv ''031425364758697a8b9cadbecfe0f102'' =
      ''/srv/app/tmp/download_031425364758697a8b9cadbecfe0f102.zip''" by code_simp
  have e2: "individualEntries exampleEnv exampleDb examplePdf exampleRequest =
      [ArchiveFile ''uploads/x1.txt'' ''1_Week-1-Basics/1_a.txt'',
       ArchiveAppend ''%PDF <body>quiz</body></html>'' ''1_Week-1-Basics/2_Quiz-1.pdf'',
       ArchiveAppend ''%PDF body>notes</body></html>'' ''2_Week-2/1_Notes.pdf'',
       ArchiveAppend ''%PDF <body>kata</body></html>'' ''2_Week-2/2_Kata.pdf'']" by code_simp
  show ?thesis
    using h1 h2 individual_archive_entries [OF h1 h2] unfolding e1 e2 by simp
qed

section \<open>A successful single export\<close>

lemma enumerate_Suc_map: "enumerate (Suc n) xs = map (\<lambda>(j, x). (Suc j, x)) (enumerate n xs)"
  by (induction xs arbitrary: n) simp_all

lemma unitsSolutionsFrom_prefix:
  "unitsSolutionsFrom db lecName seenOverall seenInLecture us =
     concat (map (\<lambda>(j, u).
               unitSolutions db lecName
                 (\<not> seenOverall \<and> \<not> seenInLecture \<and> \<not> anyKataOrTask db (take j us))
                 (\<not> seenInLecture \<and> \<not> anyKataOrTask db (take j us)) u)
             (enumerate 0 us))"
proof (induction us arbitrary: seenOverall seenInLecture)
  case Nil
  then show ?case by simp
next
  case (Cons u us)
  show ?case
    by (simp add: Cons.IH enumerate_Suc_map [of 0] anyKataOrTask_def case_prod_unfold comp_def
        de_Morgan_disj conj_ac)
qed

lemma lectureSolutions_from:
  "lectureSolutions db seenBefore lec =
     (case Lecture db (lectureId lec) of
        None \<Rightarrow> []
      | Some localLecture \<Rightarrow>
          unitsSolutionsFrom db (lecture_name localLecture) seenBefore False (units lec))"
  by (simp add: lectureSolutions_def unitsSolutionsFrom_prefix split: option.split)

lemma lecturesSolutionsFrom_prefix:
  "lecturesSolutionsFrom db seenOverall lecs =
     concat (map (\<lambda>(k, lec).
               lectureSolutions db
                 (seenOverall \<or> list_ex (\<lambda>l. anyKataOrTask db (units l)) (take k lecs)) lec)
             (enumerate 0 lecs))"
proof (induction lecs arbitrary: seenOverall)
  case Nil
  then show ?case by simp
next
  case (Cons lec lecs)
  show ?case
    by (simp add: Cons.IH enumerate_Suc_map [of 0] case_prod_unfold comp_def disj_ac)
qed

lemma singleFiles_state:
  "fst (singleFiles env db lecCounter lcName unitCounter ids st w) = Inr st'
     \<Longrightarrow> html st' = html st \<and> solutions st' = solutions st \<and> firstSol st' = firstSol st \<and>
         archive st' = archive st @ fileEntries (singleSource env) db lecCounter lcName unitCounter ids"
proof (induction ids arbitrary: st w)
  case Nil
  then show ?case by (simp add: fileEntries_def)
next
  case (Cons fileId ids)
  show ?case
  proof (cases "File db fileId")
    case None
    then show ?thesis using Cons.prems by (simp add: File_findById_def)
  next
    case (Some f)
    let ?st2 = "st\<lparr>archive := archive st @
                   [ArchiveFile (path_join [uploadFolder (config env), file_link f])
                      (entryName lecCounter lcName unitCounter (file_name f))]\<rparr>"
    have "fst (singleFiles env db lecCounter lcName unitCounter ids ?st2
                 (logEvent (FileFind fileId) w)) = Inr st'"
      using Cons.prems Some by (simp add: File_findById_def)
    from Cons.IH [OF this] show ?thesis using Some by (simp add: fileEntries_def singleSource_def)
  qed
qed

lemma singleContent_state:
  assumes "Unit db (unitId u) = Some localUnit"
    "fst (singleContent env db lecCounter lcName unitCounter u localUnit st w) = Inr st'"
  shows "html st' = html st @ unitContent db lecCounter unitCounter u \<and>
         solutions st' = solutions st \<and> firstSol st' = firstSol st \<and>
         archive st' = archive st @ singleUnitEntries env db lecCounter lcName unitCounter u"
proof (cases "unit_t localUnit = ''file''")
  case True
  then have "fst (singleFiles env db lecCounter lcName unitCounter (files u) st w) = Inr st'"
    using assms(2) by (simp add: singleContent_def)
  from singleFiles_state [OF this] show ?thesis
    using True assms(1) by (simp add: unitContent_def singleUnitEntries_def)
next
  case False
  then show ?thesis
    using assms by (auto simp: singleContent_def unitContent_def singleUnitEntries_def)
qed

lemma singleSolutions_state:
  assumes "Unit db (unitId u) = Some localUnit" "solCounter \<noteq> 1 \<longrightarrow> firstSol st"
    "singleSolutions localLecture localUnit solCounter st = (st', solCounter')"
  shows "html st' = html st \<and> archive st' = archive st \<and>
         solutions st' = solutions st @
           unitSolutions db (lecture_name localLecture) (\<not> firstSol st \<and> solCounter = 1) (solCounter = 1) u \<and>
         firstSol st' = (firstSol st \<or> hasSolution db u) \<and>
         solCounter' = (if hasSolution db u then solCounter + 1 else solCounter)"
proof (cases "isKataOrTask localUnit")
  case True
  then show ?thesis
    using assms
    by (auto simp: singleSolutions_def unitSolutions_def hasSolution_def solutionHeading_def Let_def
        split: if_splits)
next
  case False
  then show ?thesis
    using assms
    by (auto simp: singleSolutions_def unitSolutions_def hasSolution_def split: if_splits)
qed

lemma singleUnits_state:
  "0 < solCounter \<Longrightarrow> (solCounter \<noteq> 1 \<longrightarrow> firstSol st) \<Longrightarrow>
   fst (singleUnits env db lecCounter localLecture lcName us unitCounter solCounter st w) = Inr st'
     \<Longrightarrow> html st' = html st @ concat (map (\<lambda>(j, u). unitContent db lecCounter j u) (enumerate unitCounter us)) \<and>
         solutions st' = solutions st @
           unitsSolutionsFrom db (lecture_name localLecture) (firstSol st) (solCounter \<noteq> 1) us \<and>
         firstSol st' = (firstSol st \<or> anyKataOrTask db us) \<and>
         archive st' = archive st @
           concat (map (\<lambda>(j, u). singleUnitEntries env db lecCounter lcName j u) (enumerate unitCounter us))"
proof (induction us arbitrary: unitCounter solCounter st w)
  case Nil
  then show ?case by (simp add: anyKataOrTask_def)
next
  case (Cons u us)
  let ?w1 = "logEvent (UnitFind (unitId u)) w"
  show ?case
  proof (cases "Unit db (unitId u)")
    case None
    then show ?thesis using Cons.prems by (simp add: Unit_findOne_def)
  next
    case (Some localUnit)
    obtain r w2 where r: "singleContent env db lecCounter lcName unitCounter u localUnit st ?w1 = (r, w2)"
      by (cases "singleContent env db lecCounter lcName unitCounter u localUnit st ?w1")
    show ?thesis
    proof (cases r)
      case (Inl e)
      then show ?thesis using Cons.prems Some r by (simp add: Unit_findOne_def)
    next
      case (Inr st1)
      have c: "html st1 = html st @ unitContent db lecCounter unitCounter u \<and>
         solutions st1 = solutions st \<and> firstSol st1 = firstSol st \<and>
         archive st1 = archive st @ singleUnitEntries env db lecCounter lcName unitCounter u"
        using singleContent_state [OF Some, of env lecCounter lcName unitCounter st ?w1 st1] r Inr
        by simp
      obtain st2 sc2 where s: "singleSolutions localLecture localUnit solCounter st1 = (st2, sc2)"
        by (cases "singleSolutions localLecture localUnit solCounter st1")
      have inv1: "solCounter \<noteq> 1 \<longrightarrow> firstSol st1" using Cons.prems(2) c by simp
      note so = singleSolutions_state [OF Some inv1 s]
      have sc2: "0 < sc2" "sc2 \<noteq> 1 \<longrightarrow> firstSol st2"
        using so Cons.prems(1) inv1 by (auto split: if_splits)
      have flags: "firstSol st2 = (firstSol st \<or> hasSolution db u)"
        "(sc2 \<noteq> 1) = (solCounter \<noteq> 1 \<or> hasSolution db u)"
        using so c Cons.prems(1) by (auto split: if_splits)
      have run: "fst (singleUnits env db lecCounter localLecture lcName us (Suc unitCounter) sc2 st2 w2) = Inr st'"
        using Cons.prems(3) Some r Inr s by (simp add: Unit_findOne_def)
      note IH = Cons.IH [OF sc2 run]
      have sol: "solutions st' = solutions st2 @
           unitsSolutionsFrom db (lecture_name localLecture) (firstSol st \<or> hasSolution db u)
             (solCounter \<noteq> 1 \<or> hasSolution db u) us"
        using IH by (simp only: flags)
      have fst': "firstSol st' = (firstSol st \<or> hasSolution db u \<or> anyKataOrTask db us)"
        using IH by (simp only: flags) simp
      have "html st' = html st @ concat (map (\<lambda>(j, u). unitContent db lecCounter j u) (enumerate unitCounter (u # us)))"
        using IH so c by simp
      moreover have "solutions st' = solutions st @
           unitsSolutionsFrom db (lecture_name localLecture) (firstSol st) (solCounter \<noteq> 1) (u # us)"
        using sol so c by simp
      moreover have "firstSol st' = (firstSol st \<or> anyKataOrTask db (u # us))"
        using fst' by (simp add: anyKataOrTask_def)
      moreover have "archive st' = archive st @
           concat (map (\<lambda>(j, u). singleUnitEntries env db lecCounter lcName j u) (enumerate unitCounter (u # us)))"
        using IH so c by simp
      ultimately show ?thesis by blast
    qed
  qed
qed

lemma singleLectures_state:
  "fst (singleLectures env db lecs lecCounter st w) = Inr st'
     \<Longrightarrow> html st' = html st @ concat (map (\<lambda>(k, lec). lectureContent db k lec) (enumerate lecCounter lecs)) \<and>
         solutions st' = solutions st @ lecturesSolutionsFrom db (firstSol st) lecs \<and>
         firstSol st' = (firstSol st \<or> list_ex (\<lambda>l. anyKataOrTask db (units l)) lecs) \<and>
         archive st' = archive st @
           concat (map (\<lambda>(k, lec). singleLectureEntries env db k lec) (enumerate lecCounter lecs))"
proof (induction lecs arbitrary: lecCounter st w)
  case Nil
  then show ?case by simp
next
  case (Cons lec lecs)
  let ?w1 = "logEvent (LectureFind (lectureId lec)) w"
  show ?case
  proof (cases "Lecture db (lectureId lec)")
    case None
    then show ?thesis using Cons.prems by (simp add: Lecture_findOne_def)
  next
    case (Some localLecture)
    let ?lc = "replaceCharInFilename (lecture_name localLecture)"
    let ?head = "(if lecCounter > 1 then ''<div id=\"nextPage\" ><h2>Lecture: '' else ''<div><h2>Lecture: '') @
          lecture_name localLecture @ ''</h2>''"
    define st1 where "st1 = st\<lparr>html := html st @ ?head\<rparr>"
    have st1: "html st1 = html st @ ?head" "solutions st1 = solutions st" "firstSol st1 = firstSol st"
      "archive st1 = archive st"
      by (simp_all add: st1_def)
    obtain r w2 where r: "singleUnits env db lecCounter localLecture ?lc (units lec) 1 1 st1 ?w1 = (r, w2)"
      by (cases "singleUnits env db lecCounter localLecture ?lc (units lec) 1 1 st1 ?w1")
    have unf: "singleLectures env db (lec # lecs) lecCounter st w =
        (case r of Inl e \<Rightarrow> (Inl e, w2)
         | Inr st2 \<Rightarrow> singleLectures env db lecs (lecCounter + 1) (st2\<lparr>html := html st2 @ ''</div>''\<rparr>) w2)"
      using Some r unfolding st1_def by (auto simp: Lecture_findOne_def Let_def split: sum.split)
    show ?thesis
    proof (cases r)
      case (Inl e)
      then show ?thesis using Cons.prems unf by simp
    next
      case (Inr st2)
      have u: "html st2 = html st1 @ concat (map (\<lambda>(j, u). unitContent db lecCounter j u) (enumerate 1 (units lec))) \<and>
         solutions st2 = solutions st1 @
           unitsSolutionsFrom db (lecture_name localLecture) (firstSol st1) False (units lec) \<and>
         firstSol st2 = (firstSol st1 \<or> anyKataOrTask db (units lec)) \<and>
         archive st2 = archive st1 @
           concat (map (\<lambda>(j, u). singleUnitEntries env db lecCounter ?lc j u) (enumerate 1 (units lec)))"
        using singleUnits_state [of 1 st1 env db lecCounter localLecture ?lc "units lec" 1 ?w1 st2] r Inr
        by simp
      let ?st3 = "st2\<lparr>html := html st2 @ ''</div>''\<rparr>"
      have run: "fst (singleLectures env db lecs (Suc lecCounter) ?st3 w2) = Inr st'"
        using Cons.prems unf Inr by simp
      note IH = Cons.IH [OF run]
      have lc: "lectureContent db lecCounter lec = ?head @
          concat (map (\<lambda>(j, u). unitContent db lecCounter j u) (enumerate 1 (units lec))) @ ''</div>''"
        using Some by (simp add: lectureContent_def)
      have ls: "lectureSolutions db (firstSol st) lec =
          unitsSolutionsFrom db (lecture_name localLecture) (firstSol st) False (units lec)"
        using Some by (simp add: lectureSolutions_from)
      have le: "singleLectureEntries env db lecCounter lec =
          concat (map (\<lambda>(j, u). singleUnitEntries env db lecCounter ?lc j u) (enumerate 1 (units lec)))"
        using Some by (simp add: singleLectureEntries_def)
      show ?thesis
        using IH u st1 by (simp add: lc ls le disj_ac)
    qed
  qed
qed

lemma single_success:
  assumes "fst (postDownloadRequestPDFSingle env db pdf entropy now data user w) = Inr hash"
  obtains course w2 w3 st w4 buffer w5 where
    "Course db (courseName data) = Some course"
    "hash = createFileHash entropy"
    "createWriteStream env now
       (path_join [path_resolve (cwd env) (tmpFileCacheFolder (config env)),
                   ''download_'' @ hash @ ''.zip'']) w2 = (Inr (), w3)"
    "singleLectures env db (lectures data) 1 (singleStart env) w3 = (Inr st, w4)"
    "createPdf pdf (html st @ solutions st @ ''</div></body></html>'') (singleOptions env course) w4 =
       (Inr buffer, w5)"
    "snd (postDownloadRequestPDFSingle env db pdf entropy now data user w) =
       writeArchive env
         (path_join [path_resolve (cwd env) (tmpFileCacheFolder (config env)),
                     ''download_'' @ hash @ ''.zip''])
         (archive st @ [ArchiveAppend buffer (replaceCharInFilename (course_name course) @ ''.pdf'')]) w5"
proof -
  have ne: "lectures data \<noteq> []"
    using assms by (auto simp: postDownloadRequestPDFSingle_def)
  obtain course where course: "Course db (courseName data) = Some course"
    using assms ne
    by (cases "Course db (courseName data)")
       (auto simp: postDownloadRequestPDFSingle_def Course_findOne_def)
  have may: "mayExport course user"
    using assms ne course
    by (cases "mayExport course user")
       (auto simp: postDownloadRequestPDFSingle_def Course_findOne_def userCanExportCourse_mayExport)
  note unf = single_checked [OF ne course may, of env pdf entropy now w]
  let ?w1 = "logEvent (CourseFind (courseName data)) w"
  obtain r w2 where c: "calcPackage env db data ?w1 = (r, w2)"
    by (cases "calcPackage env db data ?w1")
  obtain pkg where pkg: "r = Inr pkg"
    using assms c unf by (cases r) simp_all
  have ok: "\<not> (totalSize pkg > maxZipSize (config env) \<or> tooLargeFiles pkg \<noteq> [])"
    using assms c unf pkg by (auto split: if_splits)
  let ?p = "path_join [path_resolve (cwd env) (tmpFileCacheFolder (config env)),
                      ''download_'' @ createFileHash entropy @ ''.zip'']"
  obtain r3 w3 where o: "createWriteStream env now ?p w2 = (r3, w3)"
    by (cases "createWriteStream env now ?p w2")
  have r3: "r3 = Inr ()"
    using assms c pkg ok o unfolding unf by (cases r3) (simp_all add: Let_def)
  obtain r4 w4 where l: "singleLectures env db (lectures data) 1 (singleStart env) w3 = (r4, w4)"
    by (cases "singleLectures env db (lectures data) 1 (singleStart env) w3")
  have step1: "postDownloadRequestPDFSingle env db pdf entropy now data user w =
      (case r4 of Inl e \<Rightarrow> (Inl e, w4)
       | Inr st \<Rightarrow>
           (case createPdf pdf (html st @ solutions st @ ''</div></body></html>'') (singleOptions env course) w4 of
              (Inl e, w5) \<Rightarrow> (Inl e, w5)
            | (Inr buffer, w5) \<Rightarrow>
                (Inr (createFileHash entropy),
                 writeArchive env ?p
                   (archive st @ [ArchiveAppend buffer (replaceCharInFilename (course_name course) @ ''.pdf'')])
                   w5)))"
    using c pkg ok o r3 l unfolding unf singleStart_def
    by (simp add: Let_def split: sum.split prod.split)
  obtain st where st: "r4 = Inr st"
    using assms step1 by (cases r4) simp_all
  obtain r5 w5 where p: "createPdf pdf (html st @ solutions st @ ''</div></body></html>'')
      (singleOptions env course) w4 = (r5, w5)"
    by (cases "createPdf pdf (html st @ solutions st @ ''</div></body></html>'') (singleOptions env course) w4")
  obtain buffer where buffer: "r5 = Inr buffer"
    using assms step1 st p by (cases r5) simp_all
  have h: "hash = createFileHash entropy" using assms step1 st p buffer by simp
  have o': "createWriteStream env now
       (path_join [path_resolve (cwd env) (tmpFileCacheFolder (config env)),
                   ''download_'' @ hash @ ''.zip'']) w2 = (Inr (), w3)"
    using o r3 h by simp
  have l': "singleLectures env db (lectures data) 1 (singleStart env) w3 = (Inr st, w4)"
    using l st by simp
  have p': "createPdf pdf (html st @ solutions st @ ''</div></body></html>'') (singleOptions env course) w4 =
       (Inr buffer, w5)"
    using p buffer by simp
  have s': "snd (postDownloadRequestPDFSingle env db pdf entropy now data user w) =
       writeArchive env
         (path_join [path_resolve (cwd env) (tmpFileCacheFolder (config env)),
                     ''download_'' @ hash @ ''.zip''])
         (archive st @ [ArchiveAppend buffer (replaceCharInFilename (course_name course) @ ''.pdf'')]) w5"
    using step1 st p buffer h by simp
  show ?thesis by (rule that [OF course h o' l' p' s'])
qed

lemma createPdf_Inr:
  "createPdf pdf h options w = (Inr buffer, w') \<Longrightarrow> pdf h options = Some buffer \<and> fs w' = fs w"
  by (auto simp: createPdf_def split: option.splits)

lemma single_archive_file:
  assumes "path_isAbsolute (cwd env)"
    "fst (postDownloadRequestPDFSingle env db pdf entropy now data user w) = Inr hash"
    "Course db (courseName data) = Some course"
  shows "\<exists>buffer. pdf (singleHtml env db data) (singleOptions env course) = Some buffer \<and>
           map_of (fs (snd (postDownloadRequestPDFSingle env db pdf entropy now data user w)))
             (cachePath env hash) =
           Some \<lparr>ctimeMs = now, isDirectory = False,
                  entries = singleFileEntries env db data @
                    [ArchiveAppend buffer (replaceCharInFilename (course_name course) @ ''.pdf'')]\<rparr>"
proof -
  let ?p = "path_join [path_resolve (cwd env) (tmpFileCacheFolder (config env)),
                      ''download_'' @ hash @ ''.zip'']"
  let ?name = "replaceCharInFilename (course_name course) @ ''.pdf''"
  from assms(2) obtain course' w2 w3 st w4 buffer w5 where
    c: "Course db (courseName data) = Some course'" and
    h: "hash = createFileHash entropy" and
    o: "createWriteStream env now ?p w2 = (Inr (), w3)" and
    l2: "singleLectures env db (lectures data) 1 (singleStart env) w3 = (Inr st, w4)" and
    r: "createPdf pdf (html st @ solutions st @ ''</div></body></html>'') (singleOptions env course') w4 =
       (Inr buffer, w5)" and
    s: "snd (postDownloadRequestPDFSingle env db pdf entropy now data user w) =
       writeArchive env ?p (archive st @ [ArchiveAppend buffer (replaceCharInFilename (course_name course') @ ''.pdf'')]) w5"
    by (rule single_success)
  have cc: "course' = course" using c assms(3) by simp
  have ns: "CHR ''/'' \<notin> set hash" using h createFileHash_no_slash by simp
  have p: "?p = cachePath env hash" "path_resolve (cwd env) (cachePath env hash) = cachePath env hash"
    using cachePath_join [OF assms(1) ns] by simp_all
  have o2: "createWriteStream env now (cachePath env hash) w2 = (Inr (), w3)"
    using o unfolding p(1) .
  have s2: "snd (postDownloadRequestPDFSingle env db pdf entropy now data user w) =
      writeArchive env (cachePath env hash) (archive st @ [ArchiveAppend buffer ?name]) w5"
    using s unfolding p(1) cc .
  have st: "html st = singleHead env @ lecturesContent db (lectures data)"
    "solutions st = ''<div id=\"nextPage\"><h2><u>Solutions</u></h2>'' @ lecturesSolutionsFrom db False (lectures data)"
    "archive st = singleFileEntries env db data"
    using singleLectures_state [of env db "lectures data" 1 "singleStart env" w3 st] l2
    by (simp_all add: singleStart_def lecturesContent_def singleFileEntries_def)
  have "solutions st = solutionsSection db (lectures data)"
    unfolding st(2) solutionsSection_def lecturesSolutionsFrom_prefix by simp
  then have html: "html st @ solutions st @ ''</div></body></html>'' = singleHtml env db data"
    by (simp add: st(1) singleHtml_def)
  have pdf: "pdf (singleHtml env db data) (singleOptions env course) = Some buffer" and f5: "fs w5 = fs w4"
    using createPdf_Inr [OF r] unfolding html cc by simp_all
  have "map_of (fs w3) (cachePath env hash) =
      Some \<lparr>ctimeMs = now, isDirectory = False, entries = []\<rparr>"
    using createWriteStream_file [OF o2] p(2) by simp
  moreover have "fs w4 = fs w3"
    using singleLectures_outcome [of w3 env db "lectures data" 1 "singleStart env"] l2
    by (simp add: loopOutcome_def)
  ultimately have "map_of (fs w5) (path_resolve (cwd env) (cachePath env hash)) =
      Some \<lparr>ctimeMs = now, isDirectory = False, entries = []\<rparr>"
    using p(2) f5 by simp
  from writeArchive_file [OF this, of "archive st @ [ArchiveAppend buffer ?name]"]
  have "map_of (fs (writeArchive env (cachePath env hash) (archive st @ [ArchiveAppend buffer ?name]) w5))
      (cachePath env hash) =
      Some \<lparr>ctimeMs = now, isDirectory = False, entries = archive st @ [ArchiveAppend buffer ?name]\<rparr>"
    using p(2) by simp
  then show ?thesis using pdf s2 st(3) by auto
qed

lemma file_unit_no_solution:
  "isFileUnit db u \<Longrightarrow> unitSolutions db lecName a b u = [] \<and> \<not> hasSolution db u"
  by (auto simp: isFileUnit_def unitSolutions_def hasSolution_def isKataOrTask_def split: option.splits)

lemma unitsSolutionsFrom_filter:
  "unitsSolutionsFrom db lecName seenOverall seenInLecture (filter (\<lambda>u. \<not> isFileUnit db u) us) =
   unitsSolutionsFrom db lecName seenOverall seenInLecture us"
  by (induction us arbitrary: seenOverall seenInLecture) (simp_all add: file_unit_no_solution)

lemma anyKataOrTask_filter:
  "anyKataOrTask db (filter (\<lambda>u. \<not> isFileUnit db u) us) = anyKataOrTask db us"
  using file_unit_no_solution [of db] by (induction us) (auto simp: anyKataOrTask_def)

lemma lecturesSolutionsFrom_filter:
  "lecturesSolutionsFrom db seenOverall (withoutFileUnits db lecs) = lecturesSolutionsFrom db seenOverall lecs"
  by (induction lecs arbitrary: seenOverall)
     (simp_all add: withoutFileUnits_def lectureSolutions_from unitsSolutionsFrom_filter anyKataOrTask_filter
        split: option.split)

lemma solutionsSection_from:
  "solutionsSection db lecs =
     ''<div id=\"nextPage\"><h2><u>Solutions</u></h2>'' @ lecturesSolutionsFrom db False lecs"
  unfolding solutionsSection_def lecturesSolutionsFrom_prefix by simp

lemma solutionsSection_filter:
  "solutionsSection db (withoutFileUnits db lecs) = solutionsSection db lecs"
  unfolding solutionsSection_from lecturesSolutionsFrom_filter ..



section \<open>The solutions section of the single PDF\<close>

text \<open>
  C7. When \<^verbatim>\<open>postDownloadRequestPDFSingle\<close> returns a hash, the archive written for it
  holds the requested files of the units of type \<^verbatim>\<open>file\<close> and, as its last entry, one
  PDF: the rendering of the head, the content of all the lectures, then the solutions
  section, then the closing tags. In the solutions section (\<open>solutionsSection\<close>) every
  requested code kata or task has its solutions HTML, the lectures and the units in the
  order of the request, the first such unit of a lecture after the heading of the
  lecture. The units of type \<^verbatim>\<open>file\<close> add nothing to it: the section is the one of the
  request without them.
\<close>

theorem single_solutions_after_content:
  assumes "path_isAbsolute (cwd env)"
    "fst (postDownloadRequestPDFSingle env db pdf entropy now data user w) = Inr hash"
    "Course db (courseName data) = Some course"
  shows "(\<exists>buffer.
            pdf (singleHead env @ lecturesContent db (lectures data) @
                 solutionsSection db (lectures data) @ ''</div></body></html>'')
              (singleOptions env course) = Some buffer \<and>
            map_of (fs (snd (postDownloadRequestPDFSingle env db pdf entropy now data user w)))
              (cachePath env hash) =
            Some \<lparr>ctimeMs = now, isDirectory = False,
                   entries = singleFileEntries env db data @
                     [ArchiveAppend buffer (replaceCharInFilename (course_name course) @ ''.pdf'')]\<rparr>) \<and>
         solutionsSection db (withoutFileUnits db (lectures data)) = solutionsSection db (lectures data)"
  using single_archive_file [OF assms] solutionsSection_filter [of db "lectures data"]
  unfolding singleHtml_def by simp

theorem single_solutions_after_content_witness:
  "path_isAbsolute (cwd exampleEnv) \<and>
   fst (postDownloadRequestPDFSingle exampleEnv exampleDb examplePdf exampleEntropy 77
          exampleRequest student freshWorld) = Inr ''031425364758697a8b9cadbecfe0f102'' \<and>
   Course exampleDb (courseName exampleRequest) = Some exampleCourse \<and>
   lecturesContent exampleDb (lectures exampleRequest) =
     ''<div><h2>Lecture: Week 1: Basics</h2><p>quiz</p></div>'' @
     ''<div id=\"nextPage\" ><h2>Lecture: Week 2</h2><p>notes</p>'' @
     ''<div id=\"nextPage\" ><p>kata</p></div></div>'' \<and>
   solutionsSection exampleDb (lectures exampleRequest) =
     ''<div id=\"nextPage\"><h2><u>Solutions</u></h2>'' @
     ''<div><h2>Lecture: Week 1: Basics</h2><p>answers</p></div>'' @
     ''<div id=\"nextPage\" ><h2>Lecture: Week 2</h2><p>code</p></div>'' \<and>
   map_of (fs (snd (postDownloadRequestPDFSingle exampleEnv exampleDb examplePdf exampleEntropy 77
          exampleRequest student freshWorld)))
     ''/srv/app/tmp/download_031425364758697a8b9cadbecfe0f102.zip'' =
     Some \<lparr>ctimeMs = 77, isDirectory = False,
            entries = [ArchiveFile ''/srv/app/uploads/x1.txt'' ''1_Week-1-Basics/1_a.txt'',
                       ArchiveAppend ''%PDF div></div></body></html>'' ''Intro-to-Logic.pdf'']\<rparr>"
proof -
  have h1: "path_isAbsolute (cwd exampleEnv)" by code_simp
  have h2: "fst (postDownloadRequestPDFSingle exampleEnv exampleDb examplePdf exampleEntropy 77
          exampleRequest student freshWorld) = Inr ''031425364758697a8b9cadbecfe0f102''" by code_simp
  have h3: "Course exampleDb (courseName exampleRequest) = Some exampleCourse" by code_simp
  have e1: "cachePath exampleEnv ''031425364758697a8b9cadbecfe0f102'' =
      ''/srv/app/tmp/download_031425364758697a8b9cadbecfe0f102.zip''" by code_simp
  have e2: "singleFileEntries exampleEnv exampleDb exampleRequest =
      [ArchiveFile ''/srv/app/uploads/x1.txt'' ''1_Week-1-Basics/1_a.txt'']" by code_simp
  have e3: "examplePdf (singleHead exampleEnv @ lecturesContent exampleDb (lectures exampleRequest) @
                 solutionsSection exampleDb (lectures exampleRequest) @ ''</div></body></html>'')
              (singleOptions exampleEnv exampleCourse) = Some ''%PDF div></div></body></html>''"
    by code_simp
  have e4: "replaceCharInFilename (course_name exampleCourse) @ ''.pdf'' = ''Intro-to-Logic.pdf''"
    by code_simp
  have e5: "lecturesContent exampleDb (lectures exampleRequest) =
     ''<div><h2>Lecture: Week 1: Basics</h2><p>quiz</p></div>'' @
     ''<div id=\"nextPage\" ><h2>Lecture: Week 2</h2><p>notes</p>'' @
     ''<div id=\"nextPage\" ><p>kata</p></div></div>''" by code_simp
  have e6: "solutionsSection exampleDb (lectures exampleRequest) =
     ''<div id=\"nextPage\"><h2><u>Solutions</u></h2>'' @
     ''<div><h2>Lecture: Week 1: Basics</h2><p>answers</p></div>'' @
     ''<div id=\"nextPage\" ><h2>Lecture: Week 2</h2><p>code</p></div>''" by code_simp
  have t: "\<exists>buffer. Some ''%PDF div></div></body></html>'' = Some buffer \<and>
      map_of (fs (snd (postDownloadRequestPDFSingle exampleEnv exampleDb examplePdf exampleEntropy 77
          exampleRequest student freshWorld)))
        ''/srv/app/tmp/download_031425364758697a8b9cadbecfe0f102.zip'' =
      Some \<lparr>ctimeMs = 77, isDirectory = False,
             entries = [ArchiveFile ''/srv/app/uploads/x1.txt'' ''1_Week-1-Basics/1_a.txt''] @
               [ArchiveAppend buffer ''Intro-to-Logic.pdf'']\<rparr>"
    using single_solutions_after_content [OF h1 h2 h3, THEN conjunct1] unfolding e1 e2 e3 e4 .
  then have m: "map_of (fs (snd (postDownloadRequestPDFSingle exampleEnv exampleDb examplePdf exampleEntropy 77
          exampleRequest student freshWorld)))
        ''/srv/app/tmp/download_031425364758697a8b9cadbecfe0f102.zip'' =
      Some \<lparr>ctimeMs = 77, isDirectory = False,
             entries = [ArchiveFile ''/srv/app/uploads/x1.txt'' ''1_Week-1-Basics/1_a.txt'',
                        ArchiveAppend ''%PDF div></div></body></html>'' ''Intro-to-Logic.pdf'']\<rparr>"
    by auto
  show ?thesis
    using h1 h2 h3 e5 e6 m by (simp only: simp_thms)
qed

section \<open>From the export to the download\<close>



section \<open>The deadline of a unit\<close>

lemma updateProgress_found:
  assumes "Unit db (data_unit data) = Some u" "Course db (unit_course u) = Some course"
  shows "updateProgress checkPrivileges db now data currentUser s =
     (let s2 = s\<lparr>queries := queries s @ [UnitFind (data_unit data), CourseFind (unit_course u)]\<rparr>
      in if \<not> userCanViewCourse (checkPrivileges course currentUser) then (Inl ForbiddenError, s2)
         else if \<exists>d. deadline u = Some d \<and> d < now then (Inl BadRequestError, s2)
         else let doc = \<lparr> progress_user = user_id currentUser,
                            progress_unit = data_unit data,
                            progress_course = course_id course,
                            progress_fields = data_fields data \<rparr>;
                  s3 = s2\<lparr>queries := queries s2 @ [ProgressFind (user_id currentUser) (data_unit data)]\<rparr>
              in case find (matchesProgress (user_id currentUser) (data_unit data)) (Progress s) of
                   None \<Rightarrow> (Inr doc, Progress_create doc s3)
                 | Some progress \<Rightarrow> (Inr doc, Progress_save doc s3))"
  using assms
  by (cases "deadline u")
     (simp_all add: updateProgress_def Unit_findById_def Course_findById_def checkDeadline_def
       Progress_findOne_def Let_def)

lemma updateProgress_error:
  "fst (updateProgress checkPrivileges db now data currentUser s) = Inl e
     \<Longrightarrow> Progress (snd (updateProgress checkPrivileges db now data currentUser s)) = Progress s"
  by (auto simp: updateProgress_def Unit_findById_def Course_findById_def checkDeadline_def
       Progress_findOne_def Let_def split: option.splits if_splits)

text \<open>
  C10. For a unit and its course in the database: \<^verbatim>\<open>updateProgress\<close> throws
  \<open>ForbiddenError\<close> exactly when the user may not view the course, whatever the deadline
  is, and then nothing but the lookups of the unit and of the course has happened; it
  throws \<open>BadRequestError\<close> exactly when the user may view the course and the deadline of
  the unit is set and lies strictly before the current time. In both cases, as with every
  error, the collection of progress documents is as it was: none has been created or
  modified.
\<close>

theorem updateProgress_deadline_after_privileges:
  assumes "Unit db (data_unit data) = Some u" "Course db (unit_course u) = Some course"
  shows "(fst (updateProgress checkPrivileges db now data currentUser s) = Inl ForbiddenError \<longleftrightarrow>
            \<not> userCanViewCourse (checkPrivileges course currentUser)) \<and>
         (\<not> userCanViewCourse (checkPrivileges course currentUser) \<longrightarrow>
            snd (updateProgress checkPrivileges db now data currentUser s) =
              s\<lparr>queries := queries s @ [UnitFind (data_unit data), CourseFind (unit_course u)]\<rparr>) \<and>
         (fst (updateProgress checkPrivileges db now data currentUser s) = Inl BadRequestError \<longleftrightarrow>
            userCanViewCourse (checkPrivileges course currentUser) \<and>
            (\<exists>d. deadline u = Some d \<and> d < now)) \<and>
         (\<forall>e. fst (updateProgress checkPrivileges db now data currentUser s) = Inl e \<longrightarrow>
            Progress (snd (updateProgress checkPrivileges db now data currentUser s)) = Progress s)"
proof (intro conjI allI impI)
  note v = updateProgress_found [OF assms, of checkPrivileges now currentUser s]
  show "fst (updateProgress checkPrivileges db now data currentUser s) = Inl ForbiddenError \<longleftrightarrow>
            \<not> userCanViewCourse (checkPrivileges course currentUser)"
    unfolding v by (simp add: Let_def split: option.split)
  show "fst (updateProgress checkPrivileges db now data currentUser s) = Inl BadRequestError \<longleftrightarrow>
            userCanViewCourse (checkPrivileges course currentUser) \<and>
            (\<exists>d. deadline u = Some d \<and> d < now)"
    unfolding v by (simp add: Let_def split: option.split)
  show "snd (updateProgress checkPrivileges db now data currentUser s) =
          s\<lparr>queries := queries s @ [UnitFind (data_unit data), CourseFind (unit_course u)]\<rparr>"
    if "\<not> userCanViewCourse (checkPrivileges course currentUser)"
    using that unfolding v by (simp add: Let_def)
  show "Progress (snd (updateProgress checkPrivileges db now data currentUser s)) = Progress s"
    if "fst (updateProgress checkPrivileges db now data currentUser s) = Inl e" for e
    using that by (rule updateProgress_error)
qed

theorem updateProgress_deadline_after_privileges_witness:
  "Unit exampleDb (data_unit quizProgress) = Some exampleQuiz \<and>
   Course exampleDb (unit_course exampleQuiz) = Some exampleCourse \<and>
   deadline exampleQuiz = Some 500 \<and>
   userCanViewCourse (membersMayView exampleCourse student) \<and>
   \<not> userCanViewCourse (membersMayView exampleCourse outsider) \<and>
   updateProgress membersMayView exampleDb 501 quizProgress student exampleProgress =
     (Inl BadRequestError,
      exampleProgress\<lparr>queries := [UnitFind ''un2'', CourseFind ''c1'']\<rparr>) \<and>
   updateProgress membersMayView exampleDb 501 quizProgress outsider exampleProgress =
     (Inl ForbiddenError,
      exampleProgress\<lparr>queries := [UnitFind ''un2'', CourseFind ''c1'']\<rparr>) \<and>
   fst (updateProgress membersMayView exampleDb 500 quizProgress outsider exampleProgress) =
     Inl ForbiddenError \<and>
   snd (updateProgress membersMayView exampleDb 500 quizProgress outsider exampleProgress) =
     exampleProgress\<lparr>queries := queries exampleProgress @
       [UnitFind (data_unit quizProgress), CourseFind (unit_course exampleQuiz)]\<rparr> \<and>
   Progress (snd (updateProgress membersMayView exampleDb 500 quizProgress outsider exampleProgress)) =
     Progress exampleProgress \<and>
   fst (updateProgress membersMayView exampleDb 500 quizProgress student exampleProgress) =
     Inr \<lparr>progress_user = ''u-stud'', progress_unit = ''un2'', progress_course = ''c1'',
          progress_fields = ''done''\<rparr> \<and>
   Progress (snd (updateProgress membersMayView exampleDb 500 quizProgress student exampleProgress)) =
     [\<lparr>progress_user = ''u-stud'', progress_unit = ''un4'', progress_course = ''c1'',
       progress_fields = ''started''\<rparr>,
      \<lparr>progress_user = ''u-stud'', progress_unit = ''un2'', progress_course = ''c1'',
       progress_fields = ''done''\<rparr>]"
proof -
  have h1: "Unit exampleDb (data_unit quizProgress) = Some exampleQuiz" by code_simp
  have h2: "Course exampleDb (unit_course exampleQuiz) = Some exampleCourse" by code_simp
  have g: "deadline exampleQuiz = Some 500"
    "userCanViewCourse (membersMayView exampleCourse student)"
    "\<not> userCanViewCourse (membersMayView exampleCourse outsider)"
    by code_simp+
  note t = updateProgress_deadline_after_privileges [OF h1 h2, of membersMayView 500 outsider exampleProgress]
  have c: "updateProgress membersMayView exampleDb 501 quizProgress student exampleProgress =
     (Inl BadRequestError,
      exampleProgress\<lparr>queries := [UnitFind ''un2'', CourseFind ''c1'']\<rparr>)"
    "updateProgress membersMayView exampleDb 501 quizProgress outsider exampleProgress =
     (Inl ForbiddenError,
      exampleProgress\<lparr>queries := [UnitFind ''un2'', CourseFind ''c1'']\<rparr>)"
    "fst (updateProgress membersMayView exampleDb 500 quizProgress student exampleProgress) =
     Inr \<lparr>progress_user = ''u-stud'', progress_unit = ''un2'', progress_course = ''c1'',
          progress_fields = ''done''\<rparr>"
    "Progress (snd (updateProgress membersMayView exampleDb 500 quizProgress student exampleProgress)) =
     [\<lparr>progress_user = ''u-stud'', progress_unit = ''un4'', progress_course = ''c1'',
       progress_fields = ''started''\<rparr>,
      \<lparr>progress_user = ''u-stud'', progress_unit = ''un2'', progress_course = ''c1'',
       progress_fields = ''done''\<rparr>]"
    by code_simp+
  have f: "fst (updateProgress membersMayView exampleDb 500 quizProgress outsider exampleProgress) =
     Inl ForbiddenError"
    using t g(3) by simp
  have f2: "snd (updateProgress membersMayView exampleDb 500 quizProgress outsider exampleProgress) =
     exampleProgress\<lparr>queries := queries exampleProgress @
       [UnitFind (data_unit quizProgress), CourseFind (unit_course exampleQuiz)]\<rparr>"
    using t g(3) by simp
  have f3: "Progress (snd (updateProgress membersMayView exampleDb 500 quizProgress outsider exampleProgress)) =
     Progress exampleProgress"
    using t f by blast
  show ?thesis
    using h1 h2 g c f f2 f3 by (simp only: simp_thms)
qed

end
